(* ===== verification/Prelude.thy ===== *)
theory Prelude
  imports Complex_Main "HOL-Library.Sublist" "HOL-Library.Word"
begin

text \<open>
  What the components share: the collections their proofs use, lemmas on lists and filters,
  Go's 64-bit wrap-around, Go's truncating division, and the one interface that does not
  mention frames: a one-shot guard (\<open>sync.Once\<close>).
\<close>

section \<open>Collections\<close>

named_theorems step_defs \<open>the handlers' definitions, unfolded by the case analyses\<close>
named_theorems eff_simps \<open>projections of effect lists\<close>

type_synonym byte = "8 word"

section \<open>Lists\<close>

lemma concat_replicate_Nil [simp]: "concat (replicate n []) = []"
  by (induction n) auto

lemma prefix_map_appendI [intro]: "prefix (map f xs) (map f (xs @ ys))"
  by simp

lemma filter_filter_idem [simp]: "filter P (filter P xs) = filter P xs"
  by (induction xs) auto

lemma subseq_filterI [intro]: "subseq (filter P xs) xs"
  by (induction xs) auto

lemma map_of_filter_other [simp]: "k' \<noteq> k \<Longrightarrow> map_of (filter (\<lambda>kv. fst kv \<noteq> k) m) k' = map_of m k'"
  by (induction m) auto

lemma count_list_concat: "count_list (concat xss) x = sum_list (map (\<lambda>xs. count_list xs x) xss)"
  by (induction xss) auto

lemma foldl_snoc: "foldl f a (xs @ [x]) = f (foldl f a xs) x"
  by simp

section \<open>Go integers\<close>

text \<open>
  Go's \<open>int\<close> and \<open>int64\<close> are 64 bits wide and wrap in two's complement; a value is modelled
  as an \<open>int\<close> and an operation that can overflow applies \<open>wrap64\<close>. \<open>quot\<close> and \<open>rem\<close> truncate
  towards zero, as Go's \<open>/\<close> and \<open>%\<close> do.
\<close>

definition wrap64 :: "int \<Rightarrow> int" where
  "wrap64 x = (x + 2 ^ 63) mod 2 ^ 64 - 2 ^ 63"

definition wrap32 :: "int \<Rightarrow> int" where
  "wrap32 x = (x + 2 ^ 31) mod 2 ^ 32 - 2 ^ 31"

definition wrap16 :: "int \<Rightarrow> int" where
  "wrap16 x = (x + 2 ^ 15) mod 2 ^ 16 - 2 ^ 15"

definition quot :: "int \<Rightarrow> int \<Rightarrow> int" where
  "quot a b = sgn a * sgn b * (\<bar>a\<bar> div \<bar>b\<bar>)"

definition rem :: "int \<Rightarrow> int \<Rightarrow> int" where
  "rem a b = a - quot a b * b"

lemma wrap64_id: "- (2 ^ 63) \<le> x \<Longrightarrow> x < 2 ^ 63 \<Longrightarrow> wrap64 x = x"
  by (simp add: wrap64_def)

lemma wrap64_range: "- (2 ^ 63) \<le> wrap64 x \<and> wrap64 x < 2 ^ 63"
proof -
  have "0 \<le> (x + 2 ^ 63) mod 2 ^ 64" "(x + 2 ^ 63) mod 2 ^ 64 < (2 ^ 64 :: int)"
    by simp_all
  then show ?thesis by (simp add: wrap64_def)
qed

lemma wrap16_id: "- 32768 \<le> x \<Longrightarrow> x < 32768 \<Longrightarrow> wrap16 x = x"
  by (simp add: wrap16_def)

lemma wrap16_range: "- 32768 \<le> wrap16 x \<and> wrap16 x < 32768"
proof -
  have "0 \<le> (x + 2 ^ 15) mod 2 ^ 16" "(x + 2 ^ 15) mod 2 ^ 16 < (2 ^ 16 :: int)"
    by simp_all
  then show ?thesis by (simp add: wrap16_def)
qed

lemma wrap32_id: "- (2 ^ 31) \<le> x \<Longrightarrow> x < 2 ^ 31 \<Longrightarrow> wrap32 x = x"
  by (simp add: wrap32_def)

lemma quot_nonneg: "0 \<le> a \<Longrightarrow> 0 < b \<Longrightarrow> quot a b = a div b"
  by (cases "a = 0") (simp_all add: quot_def sgn_if)

lemma rem_nonneg: "0 \<le> a \<Longrightarrow> 0 < b \<Longrightarrow> rem a b = a mod b"
  by (simp add: rem_def quot_nonneg minus_div_mult_eq_mod)

section \<open>Time\<close>

text \<open>
  A \<open>time.Time\<close> is the number of nanoseconds since Go's zero time, so \<open>IsZero t\<close> is \<open>t = 0\<close>;
  a \<open>time.Duration\<close> is a signed 64-bit count of nanoseconds, and \<open>Sub\<close> saturates.
\<close>

type_synonym gotime = int
type_synonym duration = int

definition time_sub :: "gotime \<Rightarrow> gotime \<Rightarrow> duration" where
  "time_sub t u = max (- (2 ^ 63)) (min (2 ^ 63 - 1) (t - u))"

definition second :: duration where "second = 1000000000"
definition millisecond :: duration where "millisecond = 1000000"

lemma time_sub_nonneg: "u \<le> t \<Longrightarrow> 0 \<le> time_sub t u"
  by (simp add: time_sub_def)

section \<open>One-shot guards\<close>

text \<open>
  \<open>sync.Once\<close>, a compare-and-swap on a boolean and a channel closed once have the same
  contract: an operation with a flag that acts when the flag is down, raises it, and never
  acts again. \<open>acts\<close> says whether a call does its work in a state.
\<close>

locale one_shot =
  fixes fire :: "'x \<Rightarrow> 's \<Rightarrow> 's"
    and acts :: "'x \<Rightarrow> 's \<Rightarrow> bool"
    and done_flag :: "'s \<Rightarrow> bool"
  assumes acts_not_done: "acts x s \<Longrightarrow> \<not> done_flag s"
    and fire_sets: "acts x s \<Longrightarrow> done_flag (fire x s)"
    and fire_keeps: "done_flag s \<Longrightarrow> done_flag (fire x s)"
begin

fun acted :: "'x list \<Rightarrow> 's \<Rightarrow> nat" where
  "acted [] s = 0"
| "acted (x # xs) s = (if acts x s then 1 else 0) + acted xs (fire x s)"

lemma acted_done: "done_flag s \<Longrightarrow> acted xs s = 0"
  by (induction xs arbitrary: s) (auto dest: acts_not_done fire_keeps)

lemma acted_at_most_once: "acted xs s \<le> 1"
  by (induction xs arbitrary: s) (auto simp: acted_done fire_sets)

lemma done_fold: "done_flag s \<Longrightarrow> done_flag (fold fire xs s)"
  by (induction xs arbitrary: s) (auto intro: fire_keeps)

end

end
