(* ===== verification/GoStrings.thy ===== *)
theory GoStrings
  imports Prelude
begin

text \<open>
  The part of Go's \<open>strings\<close>, \<open>unicode\<close>, \<open>unicode/utf8\<close>, \<open>strconv\<close> and \<open>encoding/json\<close>
  packages the program uses, on byte strings. A Go string is a sequence of bytes, which is what
  \<open>string\<close> (a list of 8-bit characters) is; runes are natural numbers. The string functions that
  look for white space or ASCII text work byte by byte: the encodings of the white space runes
  begin with a byte that is never a continuation byte, so scanning bytes and scanning runes find
  the same occurrences, in valid and in invalid UTF-8.
\<close>

section \<open>Characters and white space\<close>

abbreviation "newline \<equiv> CHR 0x0A"

definition ascii_space :: "char \<Rightarrow> bool" where
  "ascii_space c = (c \<in> {CHR 0x09, CHR 0x0A, CHR 0x0B, CHR 0x0C, CHR 0x0D, CHR '' ''})"

definition multibyte_spaces :: "string list" where
  "multibyte_spaces =
     [[CHR 0xC2, CHR 0x85], [CHR 0xC2, CHR 0xA0], [CHR 0xE1, CHR 0x9A, CHR 0x80],
      [CHR 0xE2, CHR 0x80, CHR 0x80], [CHR 0xE2, CHR 0x80, CHR 0x81], [CHR 0xE2, CHR 0x80, CHR 0x82],
      [CHR 0xE2, CHR 0x80, CHR 0x83], [CHR 0xE2, CHR 0x80, CHR 0x84], [CHR 0xE2, CHR 0x80, CHR 0x85],
      [CHR 0xE2, CHR 0x80, CHR 0x86], [CHR 0xE2, CHR 0x80, CHR 0x87], [CHR 0xE2, CHR 0x80, CHR 0x88],
      [CHR 0xE2, CHR 0x80, CHR 0x89], [CHR 0xE2, CHR 0x80, CHR 0x8A], [CHR 0xE2, CHR 0x80, CHR 0xA8],
      [CHR 0xE2, CHR 0x80, CHR 0xA9], [CHR 0xE2, CHR 0x80, CHR 0xAF], [CHR 0xE2, CHR 0x81, CHR 0x9F],
      [CHR 0xE3, CHR 0x80, CHR 0x80]]"

text \<open>The number of bytes of the white space rune at the head of a string, 0 if there is none.\<close>

fun space_len :: "string \<Rightarrow> nat" where
  "space_len [] = 0"
| "space_len (c # cs) =
     (if ascii_space c then 1
      else case List.find (\<lambda>w. take (length w) (c # cs) = w) multibyte_spaces of
             None \<Rightarrow> 0 | Some w \<Rightarrow> length w)"

definition rspace_len :: "string \<Rightarrow> nat" where
  "rspace_len s =
     (if s = [] then 0 else if ascii_space (last s) then 1
      else case List.find (\<lambda>w. take (length w) (rev s) = rev w) multibyte_spaces of
             None \<Rightarrow> 0 | Some w \<Rightarrow> length w)"

function trim_left :: "string \<Rightarrow> string" where
  "trim_left s = (if s = [] \<or> space_len s = 0 then s else trim_left (drop (space_len s) s))"
  by pat_completeness auto
termination
  by (relation "measure length") auto

function trim_right :: "string \<Rightarrow> string" where
  "trim_right s =
     (if s = [] \<or> rspace_len s = 0 then s
      else trim_right (take (length s - rspace_len s) s))"
  by pat_completeness auto
termination
  by (relation "measure length") auto

declare trim_left.simps [simp del] trim_right.simps [simp del]

definition trim_space :: "string \<Rightarrow> string" where
  "trim_space s = trim_right (trim_left s)"

text \<open>\<open>strings.Fields\<close>: the maximal runs of bytes with no white space rune.\<close>

function go_fields_acc :: "string \<Rightarrow> string \<Rightarrow> string list" where
  "go_fields_acc cur s =
     (if s = [] then (if cur = [] then [] else [cur])
      else if space_len s = 0 then go_fields_acc (cur @ [hd s]) (tl s)
      else (if cur = [] then [] else [cur]) @ go_fields_acc [] (drop (space_len s) s))"
  by pat_completeness auto
termination
  by (relation "measure (\<lambda>(cur, s). length s)") auto

declare go_fields_acc.simps [simp del]

definition go_fields :: "string \<Rightarrow> string list" where
  "go_fields s = go_fields_acc [] s"

section \<open>Searching\<close>

definition has_prefix :: "string \<Rightarrow> string \<Rightarrow> bool" where
  "has_prefix s p = (take (length p) s = p)"

fun index_of :: "string \<Rightarrow> string \<Rightarrow> nat option" where
  "index_of p [] = (if p = [] then Some 0 else None)"
| "index_of p (c # cs) =
     (if has_prefix (c # cs) p then Some 0 else map_option Suc (index_of p cs))"

definition contains :: "string \<Rightarrow> string \<Rightarrow> bool" where
  "contains s p = (index_of p s \<noteq> None)"

fun split_on :: "char \<Rightarrow> string \<Rightarrow> string list" where
  "split_on d [] = [[]]"
| "split_on d (c # cs) =
     (if c = d then [] # split_on d cs
      else case split_on d cs of [] \<Rightarrow> [[c]] | w # ws \<Rightarrow> (c # w) # ws)"

fun join_with :: "string \<Rightarrow> string list \<Rightarrow> string" where
  "join_with sep [] = []"
| "join_with sep [w] = w"
| "join_with sep (w # ws) = w @ sep @ join_with sep ws"

definition trim_right_char :: "char \<Rightarrow> string \<Rightarrow> string" where
  "trim_right_char d s = rev (dropWhile (\<lambda>c. c = d) (rev s))"

definition trim_left_char :: "char \<Rightarrow> string \<Rightarrow> string" where
  "trim_left_char d s = dropWhile (\<lambda>c. c = d) s"

section \<open>UTF-8\<close>

abbreviation code :: "char \<Rightarrow> nat" where "code \<equiv> of_char"

definition rune_error :: nat where "rune_error = 0xFFFD"

definition is_cont :: "char \<Rightarrow> bool" where
  "is_cont c = (0x80 \<le> code c \<and> code c < 0xC0)"

text \<open>
  \<open>utf8.DecodeRuneInString\<close>: the rune at the head and its width; an invalid byte is
  \<open>RuneError\<close> of width 1. The bounds on the second byte exclude overlong forms, surrogates and
  runes above 0x10FFFF.
\<close>

fun decode_rune :: "string \<Rightarrow> nat \<times> nat" where
  "decode_rune [] = (rune_error, 0)"
| "decode_rune (a # s) =
     (let x = code a in
      if x < 0x80 then (x, 1)
      else if 0xC2 \<le> x \<and> x \<le> 0xDF then
        (case s of b # _ \<Rightarrow>
           if is_cont b then ((x - 0xC0) * 64 + (code b - 0x80), 2) else (rune_error, 1)
         | _ \<Rightarrow> (rune_error, 1))
      else if 0xE0 \<le> x \<and> x \<le> 0xEF then
        (case s of b # c # _ \<Rightarrow>
           if is_cont b \<and> is_cont c \<and> (x = 0xE0 \<longrightarrow> 0xA0 \<le> code b) \<and> (x = 0xED \<longrightarrow> code b \<le> 0x9F)
           then ((x - 0xE0) * 4096 + (code b - 0x80) * 64 + (code c - 0x80), 3)
           else (rune_error, 1)
         | _ \<Rightarrow> (rune_error, 1))
      else if 0xF0 \<le> x \<and> x \<le> 0xF4 then
        (case s of b # c # d # _ \<Rightarrow>
           if is_cont b \<and> is_cont c \<and> is_cont d \<and> (x = 0xF0 \<longrightarrow> 0x90 \<le> code b)
              \<and> (x = 0xF4 \<longrightarrow> code b \<le> 0x8F)
           then ((x - 0xF0) * 262144 + (code b - 0x80) * 4096 + (code c - 0x80) * 64
                 + (code d - 0x80), 4)
           else (rune_error, 1)
         | _ \<Rightarrow> (rune_error, 1))
      else (rune_error, 1))"

text \<open>
  \<open>utf8.DecodeLastRuneInString\<close>: step back over at most three continuation bytes to a byte that
  can start a rune and decode there; the result counts only if it ends where the string ends.
\<close>

definition last_rune_start :: "string \<Rightarrow> nat" where
  "last_rune_start s =
     (let n = length s; k = length (takeWhile is_cont (take 3 (rev s)))
      in if k < n \<and> \<not> is_cont (s ! (n - 1 - k)) then n - 1 - k else n - 1)"

definition decode_last_rune :: "string \<Rightarrow> nat" where
  "decode_last_rune s =
     (if s = [] then rune_error
      else let i = last_rune_start s; (r, w) = decode_rune (drop i s)
           in if i + w = length s then r else rune_error)"

function runes :: "string \<Rightarrow> nat list" where
  "runes s = (if s = [] then []
     else fst (decode_rune s) # runes (drop (max 1 (snd (decode_rune s))) s))"
  by pat_completeness auto
termination
  by (relation "measure length") auto

declare runes.simps [simp del]

text \<open>The ranges of Unicode 15.0 runes of category P, for \<open>unicode.IsPunct\<close>.\<close>

definition punct_ranges :: "(nat \<times> nat) list" where
  "punct_ranges = [
    (33, 35), (37, 42), (44, 47), (58, 59), (63, 64), (91, 93), (95, 95), (123, 123),
    (125, 125), (161, 161), (167, 167), (171, 171), (182, 183), (187, 187), (191, 191),
    (894, 894), (903, 903), (1370, 1375), (1417, 1418), (1470, 1470), (1472, 1472),
    (1475, 1475), (1478, 1478), (1523, 1524), (1545, 1546), (1548, 1549), (1563, 1563),
    (1565, 1567), (1642, 1645), (1748, 1748), (1792, 1805), (2039, 2041), (2096, 2110),
    (2142, 2142), (2404, 2405), (2416, 2416), (2557, 2557), (2678, 2678), (2800, 2800),
    (3191, 3191), (3204, 3204), (3572, 3572), (3663, 3663), (3674, 3675), (3844, 3858),
    (3860, 3860), (3898, 3901), (3973, 3973), (4048, 4052), (4057, 4058), (4170, 4175),
    (4347, 4347), (4960, 4968), (5120, 5120), (5742, 5742), (5787, 5788), (5867, 5869),
    (5941, 5942), (6100, 6102), (6104, 6106), (6144, 6154), (6468, 6469), (6686, 6687),
    (6816, 6822), (6824, 6829), (7002, 7008), (7037, 7038), (7164, 7167), (7227, 7231),
    (7294, 7295), (7360, 7367), (7379, 7379), (8208, 8231), (8240, 8259), (8261, 8273),
    (8275, 8286), (8317, 8318), (8333, 8334), (8968, 8971), (9001, 9002), (10088, 10101),
    (10181, 10182), (10214, 10223), (10627, 10648), (10712, 10715), (10748, 10749),
    (11513, 11516), (11518, 11519), (11632, 11632), (11776, 11822), (11824, 11855),
    (11858, 11869), (12289, 12291), (12296, 12305), (12308, 12319), (12336, 12336),
    (12349, 12349), (12448, 12448), (12539, 12539), (42238, 42239), (42509, 42511),
    (42611, 42611), (42622, 42622), (42738, 42743), (43124, 43127), (43214, 43215),
    (43256, 43258), (43260, 43260), (43310, 43311), (43359, 43359), (43457, 43469),
    (43486, 43487), (43612, 43615), (43742, 43743), (43760, 43761), (44011, 44011),
    (64830, 64831), (65040, 65049), (65072, 65106), (65108, 65121), (65123, 65123),
    (65128, 65128), (65130, 65131), (65281, 65283), (65285, 65290), (65292, 65295),
    (65306, 65307), (65311, 65312), (65339, 65341), (65343, 65343), (65371, 65371),
    (65373, 65373), (65375, 65381), (65792, 65794), (66463, 66463), (66512, 66512),
    (66927, 66927), (67671, 67671), (67871, 67871), (67903, 67903), (68176, 68184),
    (68223, 68223), (68336, 68342), (68409, 68415), (68505, 68508), (69293, 69293),
    (69461, 69465), (69510, 69513), (69703, 69709), (69819, 69820), (69822, 69825),
    (69952, 69955), (70004, 70005), (70085, 70088), (70093, 70093), (70107, 70107),
    (70109, 70111), (70200, 70205), (70313, 70313), (70731, 70735), (70746, 70747),
    (70749, 70749), (70854, 70854), (71105, 71127), (71233, 71235), (71264, 71276),
    (71353, 71353), (71484, 71486), (71739, 71739), (72004, 72006), (72162, 72162),
    (72255, 72262), (72346, 72348), (72350, 72354), (72448, 72457), (72769, 72773),
    (72816, 72817), (73463, 73464), (73539, 73551), (73727, 73727), (74864, 74868),
    (77809, 77810), (92782, 92783), (92917, 92917), (92983, 92987), (92996, 92996),
    (93847, 93850), (94178, 94178), (113823, 113823), (121479, 121483), (125278, 125279)]"

definition is_punct :: "nat \<Rightarrow> bool" where
  "is_punct r = list_ex (\<lambda>(lo, hi). lo \<le> r \<and> r \<le> hi) punct_ranges"

text \<open>
  \<open>strings.ToLower\<close> as the program observes it: the result is searched for ASCII text or compared
  with ASCII keys. Of the runes beyond ASCII only the Kelvin sign (U+212A) and the dotted capital I
  (U+0130) lower to an ASCII letter; the bytes of the others are kept, which changes no such search.
\<close>

definition lower_char :: "char \<Rightarrow> char" where
  "lower_char c = (if 65 \<le> code c \<and> code c \<le> 90 then char_of (code c + 32) else c)"

fun to_lower :: "string \<Rightarrow> string" where
  "to_lower (a # b # c # s) =
     (if a = CHR 0xE2 \<and> b = CHR 0x84 \<and> c = CHR 0xAA then CHR ''k'' # to_lower s
      else if a = CHR 0xC4 \<and> b = CHR 0xB0 then CHR ''i'' # to_lower (c # s)
      else lower_char a # to_lower (b # c # s))"
| "to_lower [a, b] =
     (if a = CHR 0xC4 \<and> b = CHR 0xB0 then ''i'' else [lower_char a, lower_char b])"
| "to_lower [a] = [lower_char a]"
| "to_lower [] = []"

section \<open>Numbers as text\<close>

definition digit_char :: "nat \<Rightarrow> char" where
  "digit_char n = char_of (48 + n)"

fun nat_str :: "nat \<Rightarrow> string" where
  "nat_str n = (if n < 10 then [digit_char n] else nat_str (n div 10) @ [digit_char (n mod 10)])"

declare nat_str.simps [simp del]

definition int_str :: "int \<Rightarrow> string" where
  "int_str i = (if i < 0 then ''-'' @ nat_str (nat (- i)) else nat_str (nat i))"

section \<open>White space lemmas\<close>

lemma trim_space_Nil [simp]: "trim_space [] = []"
  by (simp add: trim_space_def trim_left.simps trim_right.simps)

lemma go_fields_Nil [simp]: "go_fields [] = []"
  by (simp add: go_fields_def go_fields_acc.simps)

lemma trim_left_suffix: "suffix (trim_left s) s"
proof (induction s rule: trim_left.induct)
  case (1 s)
  then show ?case
    by (subst trim_left.simps) (auto intro: suffix_order.trans suffix_drop)
qed

lemma trim_right_prefix: "prefix (trim_right s) s"
proof (induction s rule: trim_right.induct)
  case (1 s)
  then show ?case
    by (subst trim_right.simps) (auto intro: prefix_order.trans take_is_prefix)
qed

lemma contains_Nil [simp]: "contains [] p = (p = [])"
  by (simp add: contains_def)

lemma go_fields_acc_nonempty: "w \<in> set (go_fields_acc cur s) \<Longrightarrow> w \<noteq> []"
proof (induction cur s rule: go_fields_acc.induct)
  case (1 cur s)
  then show ?case
    by (subst (asm) (2) go_fields_acc.simps) (auto split: if_splits)
qed

lemma go_fields_nonempty: "w \<in> set (go_fields s) \<Longrightarrow> w \<noteq> []"
  by (simp add: go_fields_def go_fields_acc_nonempty)

end
