(* ===== verification/GoJson.thy ===== *)
theory GoJson
  imports GoStrings "HOL-Library.Char_ord" "HOL-Library.List_Lexorder"
begin

text \<open>
  JSON values as Go's \<open>encoding/json\<close> decodes them into \<open>any\<close>, and \<open>json.Marshal\<close>. An object is an
  association list with distinct keys (a Go map); \<open>Marshal\<close> writes its keys in byte order. A number
  is a \<open>float64\<close>, represented by the text \<open>Marshal\<close> writes for it. The decoder is not modelled: the
  definitions that decode take its result, or the decoder, as an argument.
\<close>

datatype json =
    JNull
  | JBool bool
  | JNum string
  | JStr string
  | JArr "json list"
  | JObj "(string \<times> json) list"

definition hex_char :: "nat \<Rightarrow> char" where
  "hex_char n = (if n < 10 then char_of (48 + n) else char_of (87 + n))"

definition json_escape_byte :: "char \<Rightarrow> string" where
  "json_escape_byte c =
     (if c = CHR 0x22 then [CHR 0x5C, CHR 0x22]
      else if c = CHR 0x5C then [CHR 0x5C, CHR 0x5C]
      else if c = CHR 0x08 then [CHR 0x5C, CHR ''b'']
      else if c = CHR 0x0C then [CHR 0x5C, CHR ''f'']
      else if c = CHR 0x0A then [CHR 0x5C, CHR ''n'']
      else if c = CHR 0x0D then [CHR 0x5C, CHR ''r'']
      else if c = CHR 0x09 then [CHR 0x5C, CHR ''t'']
      else if code c < 0x20 \<or> c \<in> {CHR ''<'', CHR ''>'', CHR ''&''} then
        [CHR 0x5C, CHR ''u'', CHR ''0'', CHR ''0'', hex_char (code c div 16), hex_char (code c mod 16)]
      else [c])"

text \<open>The text of a string literal: escapes, the replacement of invalid bytes, U+2028 and U+2029.\<close>

function json_chars :: "string \<Rightarrow> string" where
  "json_chars s =
     (if s = [] then []
      else if code (hd s) < 0x80 then json_escape_byte (hd s) @ json_chars (tl s)
      else let (r, w) = decode_rune s in
           (if r = rune_error \<and> w \<le> 1 then CHR 0x5C # ''ufffd''
            else if r = 0x2028 then CHR 0x5C # ''u2028''
            else if r = 0x2029 then CHR 0x5C # ''u2029''
            else take w s) @ json_chars (drop (max 1 w) s))"
  by pat_completeness auto
termination
  by (relation "measure length") auto

declare json_chars.simps [simp del]

definition json_quote :: "string \<Rightarrow> string" where
  "json_quote s = [CHR 0x22] @ json_chars s @ [CHR 0x22]"

function json_marshal :: "json \<Rightarrow> string" where
  "json_marshal JNull = ''null''"
| "json_marshal (JBool b) = (if b then ''true'' else ''false'')"
| "json_marshal (JNum n) = n"
| "json_marshal (JStr s) = json_quote s"
| "json_marshal (JArr vs) = ''['' @ join_with '','' (map json_marshal vs) @ '']''"
| "json_marshal (JObj kvs) =
     ''{'' @ join_with '','' (map (\<lambda>(k, t). json_quote k @ '':'' @ t)
        (sort_key fst (map (\<lambda>kv. (fst kv, json_marshal (snd kv))) kvs))) @ ''}''"
  by pat_completeness auto
termination
proof (relation "measure size")
  fix kvs :: "(string \<times> json) list" and z
  assume "z \<in> set kvs"
  then show "(snd z, JObj kvs) \<in> measure size"
    by (induction kvs) auto
qed (auto simp: less_Suc_eq_le size_list_estimation')

text \<open>\<open>isTruthyJSON\<close> of \<open>disha/call_startup.go\<close>: Python's truth value of a decoded value.\<close>

fun isTruthyJSON :: "json \<Rightarrow> bool" where
  "isTruthyJSON JNull = False"
| "isTruthyJSON (JBool t) = t"
| "isTruthyJSON (JNum t) = (t \<noteq> ''0'' \<and> t \<noteq> ''-0'')"
| "isTruthyJSON (JStr t) = (t \<noteq> [])"
| "isTruthyJSON (JObj t) = (length t > 0)"
| "isTruthyJSON (JArr t) = (length t > 0)"

definition json_field :: "(string \<times> json) list \<Rightarrow> string \<Rightarrow> json option" where
  "json_field kvs k = map_of kvs k"

definition json_str_or :: "string \<Rightarrow> json option \<Rightarrow> string" where
  "json_str_or d v = (case v of Some (JStr s) \<Rightarrow> s | _ \<Rightarrow> d)"

lemma json_marshal_nonempty: "(\<And>n. v = JNum n \<Longrightarrow> n \<noteq> []) \<Longrightarrow> json_marshal v \<noteq> []"
  by (cases v) (auto simp: json_quote_def)

end
