(* ===== verification/GoFloat.thy ===== *)
theory GoFloat
  imports Prelude "HOL-Library.Log_Nat"
begin

text \<open>
  Go's \<open>float64\<close>: a finite value is the rational it denotes, and every arithmetic operation rounds
  the exact result to 53 significant bits, to nearest with ties to even (\<open>rnd64\<close>). Infinities,
  NaN, the sign of zero and the subnormal range are not modelled: the program's values (milliseconds,
  latencies, audio samples and seconds of audio) stay far from them.
\<close>

section \<open>Rounding\<close>

definition round_half_even :: "rat \<Rightarrow> int" where
  "round_half_even x =
     (let f = \<lfloor>x\<rfloor>; d = x - of_int f
      in if d < 1 / 2 then f else if d > 1 / 2 then f + 1 else if even f then f else f + 1)"

definition pow2 :: "int \<Rightarrow> rat" where
  "pow2 e = (if 0 \<le> e then 2 ^ nat e else 1 / 2 ^ nat (- e))"

definition exponent_of :: "rat \<Rightarrow> int" where
  "exponent_of x =
     (let (n, d) = quotient_of x; e = bitlen n - bitlen d in if pow2 e \<le> x then e else e - 1)"

definition rnd64 :: "rat \<Rightarrow> rat" where
  "rnd64 x =
     (if x = 0 then 0
      else let u = pow2 (exponent_of \<bar>x\<bar> - 52) in of_int (round_half_even (x / u)) * u)"

definition fadd :: "rat \<Rightarrow> rat \<Rightarrow> rat" where "fadd x y = rnd64 (x + y)"
definition fmul :: "rat \<Rightarrow> rat \<Rightarrow> rat" where "fmul x y = rnd64 (x * y)"
definition fdiv :: "rat \<Rightarrow> rat \<Rightarrow> rat" where "fdiv x y = rnd64 (x / y)"
definition float_of_int :: "int \<Rightarrow> rat" where "float_of_int n = rnd64 (of_int n)"

text \<open>Conversion to an integer truncates towards zero.\<close>

definition int_of_float :: "rat \<Rightarrow> int" where
  "int_of_float x = (if 0 \<le> x then \<lfloor>x\<rfloor> else - \<lfloor>- x\<rfloor>)"

section \<open>Properties\<close>

lemma pow2_pos [simp]: "0 < pow2 e"
  by (simp add: pow2_def)

lemma pow2_nonzero [simp]: "pow2 e \<noteq> 0"
  using pow2_pos [of e] by linarith

lemma pow2_add: "pow2 (a + b) = pow2 a * pow2 b"
proof -
  have "pow2 e = 2 powi e" for e
    by (simp add: pow2_def power_int_def inverse_eq_divide power_one_over)
  then show ?thesis by (simp add: power_int_add)
qed

lemma pow2_minus: "pow2 (- e) = 1 / pow2 e"
proof -
  have "pow2 e * pow2 (- e) = pow2 0" by (simp flip: pow2_add)
  then show ?thesis by (simp add: pow2_def [of 0] field_simps)
qed

lemma pow2_of_nat: "pow2 (int n) = 2 ^ n"
  by (simp add: pow2_def)

lemma round_half_even_of_int [simp]: "round_half_even (of_int n) = n"
  by (simp add: round_half_even_def)

lemma round_half_even_error: "\<bar>of_int (round_half_even x) - x\<bar> \<le> 1 / 2"
proof -
  have "of_int \<lfloor>x\<rfloor> \<le> x" "x < of_int \<lfloor>x\<rfloor> + 1" by linarith+
  then show ?thesis by (auto simp: round_half_even_def Let_def abs_le_iff)
qed

lemma round_half_even_nonneg: "0 \<le> x \<Longrightarrow> 0 \<le> round_half_even x"
  using zero_le_floor [of x] by (auto simp: round_half_even_def Let_def simp del: zero_le_floor)

lemma exponent_of_le:
  assumes "0 < x"
  shows "pow2 (exponent_of x) \<le> x"
proof -
  obtain n d where nd: "quotient_of x = (n, d)" by (cases "quotient_of x")
  then have d: "0 < d" and x: "x = of_int n / of_int d"
    by (simp_all add: quotient_of_denom_pos quotient_of_div)
  with assms have n: "0 < n" by (simp add: zero_less_divide_iff)
  have bn: "2 ^ nat (bitlen n - 1) \<le> n" and bd: "d < 2 ^ nat (bitlen d)"
    using bitlen_bounds [of n] bitlen_bounds [of d] n d by simp_all
  have pn: "0 < bitlen n" "0 < bitlen d" using n d by (simp_all add: bitlen_alt_def)
  have "pow2 (bitlen n - bitlen d - 1) = pow2 (bitlen n - 1) * pow2 (- bitlen d)"
    by (simp add: algebra_simps flip: pow2_add)
  also have "\<dots> = 2 ^ nat (bitlen n - 1) / 2 ^ nat (bitlen d)"
    using pn by (simp add: pow2_minus) (simp add: pow2_def)
  also have "\<dots> \<le> of_int n / of_int d"
  proof (rule frac_le)
    show "(2::rat) ^ nat (bitlen n - 1) \<le> of_int n"
      using bn by (metis of_int_le_iff of_int_numeral of_int_power)
    show "of_int d \<le> (2::rat) ^ nat (bitlen d)"
      using bd by (metis less_le of_int_le_iff of_int_numeral of_int_power)
  qed (use n d in simp_all)
  finally have "pow2 (bitlen n - bitlen d - 1) \<le> x" by (simp add: x)
  with nd show ?thesis by (simp add: exponent_of_def Let_def)
qed

lemma rnd64_0 [simp]: "rnd64 0 = 0"
  by (simp add: rnd64_def)

lemma rnd64_nonneg:
  assumes "0 \<le> x"
  shows "0 \<le> rnd64 x"
proof -
  have "0 \<le> round_half_even (x / pow2 e)" for e
    using assms by (intro round_half_even_nonneg divide_nonneg_pos) auto
  then show ?thesis by (simp add: rnd64_def Let_def zero_le_mult_iff less_imp_le)
qed

text \<open>The relative error of one operation is at most half a unit in the last place.\<close>

lemma rnd64_error: "\<bar>rnd64 x - x\<bar> \<le> \<bar>x\<bar> / 2 ^ 53"
proof (cases "x = 0")
  case False
  define u where "u = pow2 (exponent_of \<bar>x\<bar> - 52)"
  have u: "0 < u" by (simp add: u_def)
  have "u = pow2 (exponent_of \<bar>x\<bar>) * pow2 (- 52)" by (simp add: u_def flip: pow2_add)
  also have "\<dots> \<le> \<bar>x\<bar> * pow2 (- 52)"
    using exponent_of_le [of "\<bar>x\<bar>"] False by (intro mult_right_mono) (simp_all add: less_imp_le)
  also have "\<dots> = \<bar>x\<bar> / 2 ^ 52" by (simp add: pow2_def)
  finally have ux: "u \<le> \<bar>x\<bar> / 2 ^ 52" .
  have "rnd64 x - x = (of_int (round_half_even (x / u)) - x / u) * u"
    using False u by (simp add: rnd64_def u_def Let_def field_simps)
  then have "\<bar>rnd64 x - x\<bar> = \<bar>of_int (round_half_even (x / u)) - x / u\<bar> * u"
    using u by (simp add: abs_mult)
  also have "\<dots> \<le> 1 / 2 * u"
    using round_half_even_error u by (intro mult_right_mono) simp_all
  finally show ?thesis using ux by simp
qed simp

text \<open>A value with at most 53 significant bits is not changed.\<close>

lemma rnd64_scaled:
  assumes "x \<noteq> 0" and "x = of_int m * pow2 e" and "exponent_of \<bar>x\<bar> - 52 \<le> e"
  shows "rnd64 x = x"
proof -
  define u where "u = pow2 (exponent_of \<bar>x\<bar> - 52)"
  obtain k where k: "e = int k + (exponent_of \<bar>x\<bar> - 52)"
    using assms(3) zle_iff_zadd [of "exponent_of \<bar>x\<bar> - 52" e] by (metis add.commute)
  have "pow2 e = 2 ^ k * u" by (subst k) (simp add: pow2_add pow2_of_nat u_def)
  then have x: "x = of_int (m * 2 ^ k) * u" using assms(2) by simp
  have "u \<noteq> 0" by (simp add: u_def)
  then have "x / u = of_int (m * 2 ^ k)" using x by (metis nonzero_mult_div_cancel_right)
  then have "of_int (round_half_even (x / u)) * u = x"
    using x by (metis round_half_even_of_int)
  with assms(1) show ?thesis by (simp add: rnd64_def Let_def u_def)
qed

lemma pow2_mono:
  assumes "a \<le> b"
  shows "pow2 a \<le> pow2 b"
proof -
  obtain k where "b = a + int k" using assms zle_iff_zadd by blast
  then have "pow2 b = pow2 a * 2 ^ k" by (simp add: pow2_add pow2_of_nat)
  moreover have "pow2 a * 1 \<le> pow2 a * 2 ^ k" by (intro mult_left_mono) (simp_all add: less_imp_le)
  ultimately show ?thesis by simp
qed

lemma exponent_of_less:
  assumes "0 < x" "x < pow2 e"
  shows "exponent_of x < e"
proof (rule ccontr)
  assume "\<not> exponent_of x < e"
  then have "pow2 e \<le> pow2 (exponent_of x)" by (intro pow2_mono) simp
  with exponent_of_le [OF assms(1)] assms(2) show False by linarith
qed

lemma float_of_int_exact:
  assumes "\<bar>n\<bar> < 2 ^ 53"
  shows "float_of_int n = of_int n"
proof (cases "n = 0")
  case False
  have "\<bar>of_int n\<bar> < pow2 53"
    using assms by (simp add: pow2_def)
  then have "exponent_of \<bar>of_int n\<bar> < 53" using False by (intro exponent_of_less) simp_all
  then show ?thesis
    using False rnd64_scaled [of "of_int n" n 0] by (simp add: float_of_int_def pow2_def)
qed (simp add: float_of_int_def)

lemma int_of_float_of_int [simp]: "int_of_float (of_int n) = n"
  by (auto simp: int_of_float_def)

lemma int_of_float_bounds:
  assumes "\<bar>x\<bar> \<le> of_int m"
  shows "- m \<le> int_of_float x \<and> int_of_float x \<le> m"
proof -
  have "\<lfloor>\<bar>x\<bar>\<rfloor> \<le> m" "0 \<le> \<lfloor>\<bar>x\<bar>\<rfloor>" "0 \<le> m"
    using assms abs_ge_zero [of x] by (simp_all add: floor_le_iff del: abs_ge_zero)
  then show ?thesis
    by (cases "0 \<le> x"; simp add: int_of_float_def) linarith+
qed

end
