(* ===== verification/Frames.thy ===== *)
theory Frames
  imports GoJson
begin

text \<open>
  The data that flows through the pipeline (\<open>frame.go\<close>, \<open>task_types.go\<close>, \<open>metrics.go\<close>,
  \<open>call_events.go\<close>): messages, frames with their two routing predicates, directions, and the
  effects a handler has. A handler is modelled as a function from its state and a frame to its next
  state and the list of its effects, in the order the code performs them: frames pushed to a
  neighbour, UI events, call events, a request to end the task, writes to the room. Log lines and
  Sentry reports are left out.
\<close>

section \<open>Messages and tool calls\<close>

record tool_call_function =
  tcf_Name :: string
  tcf_Arguments :: string

record tool_call =
  tc_ID :: string
  tc_Type :: string
  tc_Function :: tool_call_function

record message =
  msg_Role :: string
  msg_Content :: string
  msg_ToolCalls :: "tool_call list"
  msg_ToolCallID :: string

definition text_message :: "string \<Rightarrow> string \<Rightarrow> message" where
  "text_message role content =
     \<lparr>msg_Role = role, msg_Content = content, msg_ToolCalls = [], msg_ToolCallID = []\<rparr>"

section \<open>Metrics payloads\<close>

datatype metric_label = MetricTTFB | MetricProcessing | MetricTextAggregation | MetricE2ELatency

record metrics_data =
  md_Processor :: string
  md_Label :: metric_label
  md_ValueMs :: rat

record turn_metrics =
  tm_LLMTTFBMs :: rat
  tm_LLMProcessingMs :: rat
  tm_TTSTextAggregationMs :: rat
  tm_TTSTTFBMs :: rat
  tm_E2ELatencyMs :: rat

section \<open>Frames\<close>

type_synonym json_map = "(string \<times> json) list"

datatype frame =
    AudioFrame "byte list"
  | TextFrame string
  | InterruptFrame
  | LLMResponseStartFrame gotime
  | LLMResponseEndFrame
  | TranscriptFrame (tr_Text: string) (tr_IsFinal: bool) (tr_ResponseID: int) (tr_Finished: bool)
  | EndFrame (end_Reason: string)
  | WordTimestampFrame "string list"
  | TTSDoneFrame
  | TTSSpeakFrame string
  | BotStartedSpeakingFrame
  | BotStoppedSpeakingFrame
  | LLMMessagesFrame "message list"
  | ErrorFrame (err_Err: string) (err_Fatal: bool) (err_Processor: string)
  | LLMMessagesAppendFrame "message list" bool
  | FunctionCallInProgressFrame (fp_FunctionName: string) (fp_ToolCallID: string)
      (fp_Arguments: json_map) (fp_RawArguments: string) (fp_CancelOnInterruption: bool)
  | FunctionCallResultFrame (fr_FunctionName: string) (fr_ToolCallID: string)
      (fr_Arguments: json_map) (fr_RawArguments: string) (fr_Result: string) (fr_RunLLM: bool)
  | MetricsFrame "metrics_data list"

text \<open>\<open>IsSystem\<close> and \<open>IsInterruptible\<close> of every concrete frame type.\<close>

fun IsSystem :: "frame \<Rightarrow> bool" where
  "IsSystem InterruptFrame = True"
| "IsSystem (ErrorFrame _ _ _) = True"
| "IsSystem (MetricsFrame _) = True"
| "IsSystem _ = False"

fun IsInterruptible :: "frame \<Rightarrow> bool" where
  "IsInterruptible InterruptFrame = False"
| "IsInterruptible (EndFrame _) = False"
| "IsInterruptible (ErrorFrame _ _ _) = False"
| "IsInterruptible (FunctionCallInProgressFrame _ _ _ _ _) = False"
| "IsInterruptible (FunctionCallResultFrame _ _ _ _ _ _) = False"
| "IsInterruptible (MetricsFrame _) = False"
| "IsInterruptible _ = True"

fun is_end :: "frame \<Rightarrow> bool" where
  "is_end (EndFrame _) = True"
| "is_end _ = False"

datatype frame_type =
    Audio | Text | Interrupt | LLMResponseStart | LLMResponseEnd | Transcript | End | WordTimestamp
  | TTSDone | MetricsType | TTSSpeak | BotStartedSpeaking | BotStoppedSpeaking | LLMMessages | Error
  | LLMMessagesAppend | FunctionCallInProgress | FunctionCallResult

fun FrameType :: "frame \<Rightarrow> frame_type" where
  "FrameType (AudioFrame _) = Audio"
| "FrameType (TextFrame _) = Text"
| "FrameType InterruptFrame = Interrupt"
| "FrameType (LLMResponseStartFrame _) = LLMResponseStart"
| "FrameType LLMResponseEndFrame = LLMResponseEnd"
| "FrameType (TranscriptFrame _ _ _ _) = Transcript"
| "FrameType (EndFrame _) = End"
| "FrameType (WordTimestampFrame _) = WordTimestamp"
| "FrameType TTSDoneFrame = TTSDone"
| "FrameType (TTSSpeakFrame _) = TTSSpeak"
| "FrameType BotStartedSpeakingFrame = BotStartedSpeaking"
| "FrameType BotStoppedSpeakingFrame = BotStoppedSpeaking"
| "FrameType (LLMMessagesFrame _) = LLMMessages"
| "FrameType (ErrorFrame _ _ _) = Error"
| "FrameType (LLMMessagesAppendFrame _ _) = LLMMessagesAppend"
| "FrameType (FunctionCallInProgressFrame _ _ _ _ _) = FunctionCallInProgress"
| "FrameType (FunctionCallResultFrame _ _ _ _ _ _) = FunctionCallResult"
| "FrameType (MetricsFrame _) = MetricsType"

text \<open>
  The \<open>iota\<close> numbering of \<open>FrameType\<close>, which orders the type as Go's \<open>int\<close> constants are ordered.
\<close>

fun frame_type_iota :: "frame_type \<Rightarrow> nat" where
  "frame_type_iota Audio = 0"
| "frame_type_iota Text = 1"
| "frame_type_iota Interrupt = 2"
| "frame_type_iota LLMResponseStart = 3"
| "frame_type_iota LLMResponseEnd = 4"
| "frame_type_iota Transcript = 5"
| "frame_type_iota End = 6"
| "frame_type_iota WordTimestamp = 7"
| "frame_type_iota TTSDone = 8"
| "frame_type_iota MetricsType = 9"
| "frame_type_iota TTSSpeak = 10"
| "frame_type_iota BotStartedSpeaking = 11"
| "frame_type_iota BotStoppedSpeaking = 12"
| "frame_type_iota LLMMessages = 13"
| "frame_type_iota Error = 14"
| "frame_type_iota LLMMessagesAppend = 15"
| "frame_type_iota FunctionCallInProgress = 16"
| "frame_type_iota FunctionCallResult = 17"

lemma frame_type_iota_inject: "frame_type_iota a = frame_type_iota b \<Longrightarrow> a = b"
  by (cases a; cases b; simp)

instantiation frame_type :: linorder
begin

definition less_eq_frame_type :: "frame_type \<Rightarrow> frame_type \<Rightarrow> bool" where
  "less_eq_frame_type a b = (frame_type_iota a \<le> frame_type_iota b)"

definition less_frame_type :: "frame_type \<Rightarrow> frame_type \<Rightarrow> bool" where
  "less_frame_type a b = (frame_type_iota a < frame_type_iota b)"

instance
  by standard (auto simp: less_eq_frame_type_def less_frame_type_def intro: frame_type_iota_inject)

end

section \<open>Frame identity\<close>

text \<open>
  \<open>FrameMeta\<close>: every constructor stamps its frame from one process-wide counter. Only log lines
  read the stamp, so the frames of the handlers carry none; a stamped frame pairs it with one.
\<close>

record frame_meta =
  fm_ID :: int
  fm_Name :: string

definition newFrameMeta :: "string \<Rightarrow> int \<Rightarrow> frame_meta \<times> int" where
  "newFrameMeta name nextFrameID =
     (let n = wrap64 (nextFrameID + 1) in (\<lparr>fm_ID = n, fm_Name = name\<rparr>, n))"

definition FrameString :: "frame_meta \<Rightarrow> string" where
  "FrameString m =
     (if fm_Name m = [] then ''<unnamed>#'' @ int_str (fm_ID m)
      else fm_Name m @ ''#'' @ int_str (fm_ID m))"

text \<open>\<open>Clone\<close>: the two broadcast frames are cloned by their constructor, with a fresh stamp.\<close>

fun frame_name :: "frame \<Rightarrow> string" where
  "frame_name BotStartedSpeakingFrame = ''BotStartedSpeakingFrame''"
| "frame_name BotStoppedSpeakingFrame = ''BotStoppedSpeakingFrame''"
| "frame_name _ = []"

fun Clone :: "frame \<Rightarrow> int \<Rightarrow> (frame_meta \<times> frame) \<times> int" where
  "Clone f nextFrameID = (let (m, n) = newFrameMeta (frame_name f) nextFrameID in ((m, f), n))"

section \<open>Directions and effects\<close>

datatype direction = Downstream | Upstream

record envelope =
  env_Frame :: frame
  env_Direction :: direction

text \<open>
  What a handler does beside changing its own state. \<open>UI kind payload at\<close> is one
  \<open>UIEventSender.Emit\<close>; the call events are the dispatcher's \<open>fire\<close> methods.
\<close>

datatype call_event =
    BotJoined gotime
  | UserJoined gotime
  | UserFirstSpeech gotime
  | BotFirstSpeech gotime
  | FirstUserAudio gotime
  | UserTurnCommitted string gotime string
  | AssistantTurnCommitted string gotime turn_metrics string
  | ToolResultCommitted message message gotime

text \<open>The payload of a server message: a JSON value, or a Go map that also holds floats.\<close>

datatype msg_value = JsonValue json | FloatValue rat
datatype payload = JsonPayload json | MapPayload "(string \<times> msg_value) list"

datatype ui_event =
    BotTranscription string
  | UserTranscription string bool
  | UIBotStartedSpeaking
  | UIBotStoppedSpeaking
  | ServerMessage payload

datatype room_op = WriteAudioPCM "byte list" | ClearAudioBuffer

datatype effect =
    Push frame direction
  | UI ui_event gotime
  | Fire call_event
  | ResetTurnMetrics
  | EndTask string
  | Room room_op

fun pushed :: "effect \<Rightarrow> (frame \<times> direction) list" where
  "pushed (Push f d) = [(f, d)]"
| "pushed _ = []"

definition pushes :: "effect list \<Rightarrow> (frame \<times> direction) list" where
  "pushes es = concat (map pushed es)"

definition pushes_to :: "direction \<Rightarrow> effect list \<Rightarrow> frame list" where
  "pushes_to d es = map fst (filter (\<lambda>p. snd p = d) (pushes es))"

lemma pushes_simps [simp, eff_simps]:
  "pushes [] = []"
  "pushes (Push f d # es) = (f, d) # pushes es"
  "pushes (UI u t # es) = pushes es"
  "pushes (Fire c # es) = pushes es"
  "pushes (ResetTurnMetrics # es) = pushes es"
  "pushes (EndTask r # es) = pushes es"
  "pushes (Room o' # es) = pushes es"
  "pushes (es @ fs) = pushes es @ pushes fs"
  by (simp_all add: pushes_def)

lemma pushes_to_simps [simp, eff_simps]:
  "pushes_to d [] = []"
  "pushes_to d (Push f d' # es) = (if d' = d then [f] else []) @ pushes_to d es"
  "pushes_to d (UI u t # es) = pushes_to d es"
  "pushes_to d (Fire c # es) = pushes_to d es"
  "pushes_to d (ResetTurnMetrics # es) = pushes_to d es"
  "pushes_to d (EndTask r # es) = pushes_to d es"
  "pushes_to d (Room o' # es) = pushes_to d es"
  "pushes_to d (es @ fs) = pushes_to d es @ pushes_to d fs"
  by (simp_all add: pushes_to_def)

text \<open>What a handler may read of the task context: the clock and the running turn metrics.\<close>

record task_env =
  te_now :: gotime
  te_turn :: turn_metrics

section \<open>End reasons\<close>

abbreviation "EndReasonUnspecified \<equiv> ''unspecified''"
abbreviation "EndReasonTalkTimeExhausted \<equiv> ''talk_time_exhausted''"
abbreviation "EndReasonClientDisconnect \<equiv> ''client_disconnected''"
abbreviation "EndReasonUserIdle \<equiv> ''user_idle''"
abbreviation "EndReasonError \<equiv> ''error''"

definition normalizeEndReason :: "string \<Rightarrow> string" where
  "normalizeEndReason reason = (if reason = [] then EndReasonUnspecified else reason)"

lemma normalizeEndReason_nonempty [simp]: "normalizeEndReason r \<noteq> []"
  by (simp add: normalizeEndReason_def)

lemma normalizeEndReason_idem [simp]: "normalizeEndReason (normalizeEndReason r) = normalizeEndReason r"
  by (simp add: normalizeEndReason_def)

section \<open>The interrupt purge\<close>

text \<open>
  Two queues are purged on an interrupt: a processor's \<open>procCh\<close> and the playback queue. What their
  owners rely on is one contract: the purge keeps exactly the frames that are not interruptible, in
  their order.
\<close>

locale interrupt_purge =
  fixes purge :: "'q \<Rightarrow> 'q"
    and contents :: "'q \<Rightarrow> frame list"
  assumes contents_purge: "contents (purge q) = filter (\<lambda>f. \<not> IsInterruptible f) (contents q)"
begin

lemma purge_keeps_end: "EndFrame r \<in> set (contents q) \<Longrightarrow> EndFrame r \<in> set (contents (purge q))"
  by (simp add: contents_purge)

lemma purge_drops: "f \<in> set (contents (purge q)) \<Longrightarrow> \<not> IsInterruptible f"
  by (simp add: contents_purge)

lemma purge_idem: "contents (purge (purge q)) = contents (purge q)"
  by (simp add: contents_purge)

lemma purge_order: "subseq (contents (purge q)) (contents q)"
  by (simp add: contents_purge subseq_filterI)

lemma purge_end_count: "length (filter is_end (contents (purge q))) = length (filter is_end (contents q))"
proof -
  have "filter is_end (filter (\<lambda>f. \<not> IsInterruptible f) xs) = filter is_end xs" for xs
    by (induction xs) (auto elim: is_end.elims)
  then show ?thesis by (simp add: contents_purge)
qed

end

section \<open>The processor contract\<close>

text \<open>
  What the chain relies on: a processor forwards an \<open>EndFrame\<close> once, in the direction it travels,
  whatever its state, and no other frame makes it emit one. \<open>step\<close> is a processor's \<open>ProcessFrame\<close>.
\<close>

locale end_forwarder =
  fixes step :: "'s \<Rightarrow> frame \<Rightarrow> direction \<Rightarrow> 's \<times> effect list"
  assumes forwards_end: "pushes (snd (step s (EndFrame r) d)) = [(EndFrame r, d)]"
    and makes_no_end: "\<not> is_end f \<Longrightarrow> (EndFrame r, d') \<notin> set (pushes (snd (step s f d)))"
begin

fun run :: "'s \<Rightarrow> (frame \<times> direction) list \<Rightarrow> 's \<times> effect list" where
  "run s [] = (s, [])"
| "run s ((f, d) # fs) =
     (let (s', es) = step s f d; (s'', es') = run s' fs in (s'', es @ es'))"

lemma step_ends:
  "filter (\<lambda>p. is_end (fst p)) (pushes (snd (step s f d))) = (if is_end f then [(f, d)] else [])"
proof (cases "is_end f")
  case True
  then obtain r where "f = EndFrame r" by (auto elim: is_end.elims)
  then show ?thesis by (simp add: forwards_end)
next
  case False
  then have "\<not> is_end (fst p)" if "p \<in> set (pushes (snd (step s f d)))" for p
    using that makes_no_end [of f _ "snd p" s d] by (cases p) (auto elim!: is_end.elims)
  with False show ?thesis by (simp add: filter_empty_conv)
qed

lemma run_ends:
  "filter (\<lambda>p. is_end (fst p)) (pushes (snd (run s fs))) = filter (\<lambda>p. is_end (fst p)) fs"
proof (induction s fs rule: run.induct)
  case (2 s f d fs)
  obtain s' es where step: "step s f d = (s', es)" by (cases "step s f d")
  obtain s'' es' where run: "run s' fs = (s'', es')" by (cases "run s' fs")
  from 2 step run have "filter (\<lambda>p. is_end (fst p)) (pushes es') = filter (\<lambda>p. is_end (fst p)) fs"
    by fastforce
  with step run step_ends [of s f d] show ?case by simp
qed simp

end

end
