(* ===== verification/ToolCalls.thy ===== *)
theory ToolCalls
  imports Frames
begin

text \<open>
  Tool calls (\<open>tool_calls.go\<close> and the string helpers of \<open>llm_processor.go\<close>): the accumulator that
  merges streamed deltas by index, the result strings, and the registry of tool definitions.
\<close>

section \<open>ToolCallAccumulator\<close>

text \<open>A Go map from index to call is an association list with one entry per index; \<open>acc_order\<close> is the
  order in which indices were first seen.\<close>

record accumulator =
  acc_calls :: "(int \<times> tool_call) list"
  acc_order :: "int list"

definition NewToolCallAccumulator :: accumulator where
  "NewToolCallAccumulator = \<lparr>acc_calls = [], acc_order = []\<rparr>"

definition zero_call :: tool_call where
  "zero_call = \<lparr>tc_ID = [], tc_Type = [], tc_Function = \<lparr>tcf_Name = [], tcf_Arguments = []\<rparr>\<rparr>"

definition merge_delta :: "tool_call \<Rightarrow> tool_call \<Rightarrow> tool_call" where
  "merge_delta call delta =
     \<lparr>tc_ID = (if tc_ID delta \<noteq> [] then tc_ID delta else tc_ID call),
      tc_Type = (if tc_Type delta \<noteq> [] then tc_Type delta else tc_Type call),
      tc_Function =
        \<lparr>tcf_Name = tcf_Name (tc_Function call) @ tcf_Name (tc_Function delta),
         tcf_Arguments = tcf_Arguments (tc_Function call) @ tcf_Arguments (tc_Function delta)\<rparr>\<rparr>"

definition acc_put :: "int \<Rightarrow> tool_call \<Rightarrow> (int \<times> tool_call) list \<Rightarrow> (int \<times> tool_call) list" where
  "acc_put i c m = (i, c) # filter (\<lambda>kv. fst kv \<noteq> i) m"

definition acc_Add :: "accumulator \<Rightarrow> int \<Rightarrow> tool_call \<Rightarrow> accumulator" where
  "acc_Add a index delta =
     (case map_of (acc_calls a) index of
        None \<Rightarrow> \<lparr>acc_calls = acc_put index (merge_delta (zero_call\<lparr>tc_Type := ''function''\<rparr>) delta) (acc_calls a),
                 acc_order = acc_order a @ [index]\<rparr>
      | Some call \<Rightarrow> a\<lparr>acc_calls := acc_put index (merge_delta call delta) (acc_calls a)\<rparr>)"

definition acc_List :: "accumulator \<Rightarrow> tool_call list" where
  "acc_List a =
     concat (map (\<lambda>idx.
       let call = (case map_of (acc_calls a) idx of None \<Rightarrow> zero_call | Some c \<Rightarrow> c);
           call' = (if tc_Type call = [] then call\<lparr>tc_Type := ''function''\<rparr> else call)
       in if tcf_Name (tc_Function call') = [] \<and> tcf_Arguments (tc_Function call') = [] then []
          else [call']) (acc_order a))"

definition acc_run :: "(int \<times> tool_call) list \<Rightarrow> accumulator" where
  "acc_run ds = foldl (\<lambda>a (i, d). acc_Add a i d) NewToolCallAccumulator ds"

text \<open>The abstract result: the deltas of one index, merged in stream order.\<close>

definition deltas_of :: "int \<Rightarrow> (int \<times> tool_call) list \<Rightarrow> tool_call list" where
  "deltas_of i ds = map snd (filter (\<lambda>kv. fst kv = i) ds)"

definition merged :: "tool_call list \<Rightarrow> tool_call" where
  "merged ds = foldl merge_delta (zero_call\<lparr>tc_Type := ''function''\<rparr>) ds"

lemma map_of_acc_put: "map_of (acc_put i c m) j = (if j = i then Some c else map_of m j)"
  by (auto simp: acc_put_def map_of_filter_other)

lemma deltas_of_snoc: "deltas_of i (ds @ [(j, d)]) = deltas_of i ds @ (if i = j then [d] else [])"
  by (simp add: deltas_of_def)

lemma acc_run_snoc: "acc_run (ds @ [(i, d)]) = acc_Add (acc_run ds) i d"
  by (simp add: acc_run_def)

lemma acc_run_lookup:
  "map_of (acc_calls (acc_run ds)) i =
     (if deltas_of i ds = [] then None else Some (merged (deltas_of i ds)))"
proof (induction ds rule: rev_induct)
  case Nil
  then show ?case by (simp add: acc_run_def NewToolCallAccumulator_def deltas_of_def)
next
  case (snoc kd ds)
  obtain j d where kd: "kd = (j, d)" by (cases kd)
  show ?case
    by (cases "i = j"; cases "deltas_of j ds = []")
       (use snoc.IH in \<open>auto simp: kd acc_run_snoc acc_Add_def map_of_acc_put deltas_of_snoc
          merged_def split: option.splits\<close>)
qed

lemma acc_run_order: "set (acc_order (acc_run ds)) = fst ` set ds \<and> distinct (acc_order (acc_run ds))"
proof (induction ds rule: rev_induct)
  case Nil
  then show ?case by (simp add: acc_run_def NewToolCallAccumulator_def)
next
  case (snoc kd ds)
  obtain j d where kd: "kd = (j, d)" by (cases kd)
  have "deltas_of j ds = [] \<longleftrightarrow> j \<notin> fst ` set ds"
    by (force simp: deltas_of_def filter_empty_conv)
  with snoc show ?case
    using acc_run_lookup [of ds j]
    by (auto simp: kd acc_run_snoc acc_Add_def split: option.splits if_splits)
qed

text \<open>The indices in the order they first appear.\<close>

definition first_indices :: "(int \<times> tool_call) list \<Rightarrow> int list" where
  "first_indices ds = rev (remdups (rev (map fst ds)))"

lemma acc_order_first: "acc_order (acc_run ds) = first_indices ds"
proof (induction ds rule: rev_induct)
  case Nil
  then show ?case by (simp add: acc_run_def NewToolCallAccumulator_def first_indices_def)
next
  case (snoc kd ds)
  obtain j d where kd: "kd = (j, d)" by (cases kd)
  have "(case map_of (acc_calls (acc_run ds)) j of None \<Rightarrow> True | Some c \<Rightarrow> False) \<longleftrightarrow> j \<notin> fst ` set ds"
    using acc_run_lookup [of ds j] by (force simp: deltas_of_def filter_empty_conv split: option.split)
  with snoc show ?case
    by (auto simp: kd acc_run_snoc acc_Add_def first_indices_def split: option.splits)
qed

lemma merged_type: "tc_Type (foldl merge_delta c ds) \<noteq> []" if "tc_Type c \<noteq> []"
  using that by (induction ds arbitrary: c) (auto simp: merge_delta_def)

lemma merged_function:
  "tc_Function (foldl merge_delta c ds) =
     \<lparr>tcf_Name = tcf_Name (tc_Function c) @ concat (map (tcf_Name \<circ> tc_Function) ds),
      tcf_Arguments = tcf_Arguments (tc_Function c) @ concat (map (tcf_Arguments \<circ> tc_Function) ds)\<rparr>"
  by (induction ds arbitrary: c) (auto simp: merge_delta_def)

lemma merged_text:
  "tcf_Name (tc_Function (merged ds)) = concat (map (tcf_Name \<circ> tc_Function) ds)"
  "tcf_Arguments (tc_Function (merged ds)) = concat (map (tcf_Arguments \<circ> tc_Function) ds)"
  by (simp_all add: merged_def merged_function zero_call_def)

text \<open>
  The accumulator is correct for any interleaving of streamed deltas: the list holds, in the
  order the indices first appeared, exactly the merge of each index's own deltas, so a call's name
  and arguments are the concatenation of its fragments, and only calls with neither are dropped.
\<close>

theorem accumulator_correct:
  "acc_List (acc_run ds) =
     filter (\<lambda>c. \<not> (tcf_Name (tc_Function c) = [] \<and> tcf_Arguments (tc_Function c) = []))
       (map (\<lambda>i. merged (deltas_of i ds)) (first_indices ds))"
proof -
  have look: "map_of (acc_calls (acc_run ds)) i = Some (merged (deltas_of i ds))"
    if "i \<in> set (acc_order (acc_run ds))" for i
  proof -
    from that have "i \<in> fst ` set ds" using acc_run_order by blast
    then have "deltas_of i ds \<noteq> []" by (force simp: deltas_of_def filter_empty_conv)
    then show ?thesis by (simp add: acc_run_lookup)
  qed
  have ty: "tc_Type (merged (deltas_of i ds)) \<noteq> []" for i
    by (simp add: merged_def merged_type)
  have "concat (map f js) = filter P (map g js)"
    if "\<And>i. i \<in> set js \<Longrightarrow> f i = (if P (g i) then [g i] else [])" for f P js and g :: "int \<Rightarrow> tool_call"
    using that by (induction js) auto
  from this [of "acc_order (acc_run ds)" _ "\<lambda>c. \<not> (tcf_Name (tc_Function c) = [] \<and> tcf_Arguments (tc_Function c) = [])"
      "\<lambda>i. merged (deltas_of i ds)"]
  show ?thesis
    unfolding acc_List_def acc_order_first [symmetric] by (simp add: look ty Let_def)
qed

section \<open>Result strings\<close>

definition toolErrorResultString :: "string \<Rightarrow> string" where
  "toolErrorResultString message = json_marshal (JObj [(''error'', JStr message)])"

definition empty_tool_result :: string where
  "empty_tool_result = ''empty tool result''"

text \<open>\<open>toolResultString\<close>: the text of a handler's result, or the error \<open>empty tool result\<close>.\<close>

fun toolResultString :: "json \<Rightarrow> string + string" where
  "toolResultString JNull = Inl empty_tool_result"
| "toolResultString (JStr v) =
     (if trim_space v = [] then Inl empty_tool_result else Inr v)"
| "toolResultString v =
     (let raw = json_marshal v
      in if length raw = 0 \<or> raw = ''null'' then Inl empty_tool_result else Inr raw)"

lemma toolResultString_nonempty: "toolResultString v = Inr s \<Longrightarrow> s \<noteq> []"
  by (cases v) (auto simp: Let_def split: if_splits)

lemma toolErrorResultString_nonempty: "toolErrorResultString m \<noteq> []"
  by (simp add: toolErrorResultString_def)

text \<open>
  \<open>parseToolArguments\<close>: the raw text, decoded to an object. \<open>decode\<close> is \<open>json.Unmarshal\<close> into a
  \<open>map[string]any\<close>: an error, or the object (\<open>None\<close> for a JSON \<open>null\<close>).
\<close>

definition parseToolArguments ::
    "(string \<Rightarrow> string + json_map option) \<Rightarrow> string \<Rightarrow> json_map \<times> string option" where
  "parseToolArguments decode raw =
     (let raw' = trim_space raw
      in if raw' = [] then ([], None)
         else case decode raw' of
                Inl err \<Rightarrow> ([], Some err)
              | Inr None \<Rightarrow> ([], None)
              | Inr (Some args) \<Rightarrow> (args, None))"

definition toolCallFromFunctionFrame :: "string \<Rightarrow> string \<Rightarrow> json_map \<Rightarrow> string \<Rightarrow> tool_call" where
  "toolCallFromFunctionFrame functionName toolCallID arguments rawArguments =
     (let rawArgs = (if rawArguments = [] then
                       (if length arguments > 0 then json_marshal (JObj arguments) else ''{}'')
                     else rawArguments)
      in \<lparr>tc_ID = toolCallID, tc_Type = ''function'',
          tc_Function = \<lparr>tcf_Name = functionName, tcf_Arguments = rawArgs\<rparr>\<rparr>)"

definition assistantToolCallMessageFromFrame ::
    "string \<Rightarrow> string \<Rightarrow> json_map \<Rightarrow> string \<Rightarrow> message" where
  "assistantToolCallMessageFromFrame functionName toolCallID arguments rawArguments =
     \<lparr>msg_Role = ''assistant'', msg_Content = [],
      msg_ToolCalls = [toolCallFromFunctionFrame functionName toolCallID arguments rawArguments],
      msg_ToolCallID = []\<rparr>"

end
