(* ===== verification/ContextAgg.thy ===== *)
theory ContextAgg
  imports ToolCalls
begin

text \<open>
  \<open>ContextAggregator\<close> (\<open>context_aggregator.go\<close>): the owner of the conversation history. It collects
  transcript tokens into user turns and spoken words into assistant turns, decides whether speech
  over the bot is a barge-in, and starts LLM turns.
\<close>

section \<open>State and operations\<close>

definition minBargeInWords :: nat where "minBargeInWords = 3"

record ctx_agg =
  ca_messages :: "message list"
  ca_currentTranscript :: string
  ca_spokenWords :: "string list"
  ca_interimTranscript :: string
  ca_interimResponseID :: int
  ca_interruptSent :: bool
  ca_botSpeaking :: bool
  ca_useDefaultPrompt :: bool
  ca_promptKey :: string

definition messagesFromInitial :: "message list \<Rightarrow> message list" where
  "messagesFromInitial initial =
     filter (\<lambda>msg. msg_Role msg \<noteq> [] \<and>
       \<not> (msg_Content msg = [] \<and> length (msg_ToolCalls msg) = 0 \<and> msg_ToolCallID msg = [])) initial"

text \<open>\<open>initialMessages == nil\<close> is \<open>None\<close>.\<close>

definition NewContextAggregator :: "message list option \<Rightarrow> string \<Rightarrow> ctx_agg" where
  "NewContextAggregator initialMessages key =
     \<lparr>ca_messages = (case initialMessages of None \<Rightarrow> [] | Some ms \<Rightarrow> messagesFromInitial ms),
      ca_currentTranscript = [], ca_spokenWords = [], ca_interimTranscript = [],
      ca_interimResponseID = 0, ca_interruptSent = False, ca_botSpeaking = False,
      ca_useDefaultPrompt = (initialMessages = None), ca_promptKey = key\<rparr>"

fun appendWords :: "string list \<Rightarrow> string list \<Rightarrow> string list" where
  "appendWords spokenWords [] = spokenWords"
| "appendWords spokenWords (w # words) =
     appendWords
       (if length spokenWords > 0 \<and> length w > 0 \<and> hd w \<notin> set ''.,!?;:''
        then spokenWords @ [CHR '' '' # w] else spokenWords @ [w]) words"

definition spokenSoFar :: "ctx_agg \<Rightarrow> string \<times> ctx_agg" where
  "spokenSoFar a = (concat (ca_spokenWords a), a\<lparr>ca_spokenWords := []\<rparr>)"

definition resetFinalTranscript :: "ctx_agg \<Rightarrow> ctx_agg" where
  "resetFinalTranscript a = a\<lparr>ca_currentTranscript := []\<rparr>"

definition resetInterimTranscript :: "ctx_agg \<Rightarrow> ctx_agg" where
  "resetInterimTranscript a = a\<lparr>ca_interimTranscript := [], ca_interimResponseID := 0\<rparr>"

definition updateInterimTranscript :: "ctx_agg \<Rightarrow> string \<Rightarrow> bool \<Rightarrow> int \<Rightarrow> string \<times> ctx_agg" where
  "updateInterimTranscript a text isFinal responseID =
     (if isFinal \<and> text = ''<end>'' then ([], resetInterimTranscript a)
      else if isFinal then (ca_interimTranscript a, a)
      else let a1 = (if responseID \<noteq> 0 \<and> responseID \<noteq> ca_interimResponseID a
                     then a\<lparr>ca_interimResponseID := responseID, ca_interimTranscript := []\<rparr> else a);
               a2 = a1\<lparr>ca_interimTranscript := ca_interimTranscript a1 @ text\<rparr>
           in (ca_interimTranscript a2, a2))"

definition updateFinalTranscript :: "ctx_agg \<Rightarrow> string \<Rightarrow> bool \<Rightarrow> (string \<times> bool) \<times> ctx_agg" where
  "updateFinalTranscript a text isFinal =
     (if \<not> isFinal then (([], False), a)
      else if text = ''<end>'' then ((ca_currentTranscript a, True), resetFinalTranscript a)
      else (([], False), a\<lparr>ca_currentTranscript := ca_currentTranscript a @ text\<rparr>))"

definition commitSpokenText :: "task_env \<Rightarrow> ctx_agg \<Rightarrow> bool \<Rightarrow> ctx_agg \<times> effect list" where
  "commitSpokenText te a interrupted =
     (let (spoken, a1) = spokenSoFar a in
      if spoken \<noteq> [] then
        (a1\<lparr>ca_messages := ca_messages a1 @ [text_message ''assistant'' spoken]\<rparr>,
         [ResetTurnMetrics,
          Fire (AssistantTurnCommitted spoken (te_now te) (te_turn te) (ca_promptKey a1))] @
         (if interrupted then [UI UIBotStoppedSpeaking (te_now te)] else []))
      else (a1, if interrupted then [UI UIBotStoppedSpeaking (te_now te)] else []))"

definition lastMessageRole :: "ctx_agg \<Rightarrow> string" where
  "lastMessageRole a = (if ca_messages a = [] then [] else msg_Role (last (ca_messages a)))"

definition addUserMessage :: "task_env \<Rightarrow> ctx_agg \<Rightarrow> string \<Rightarrow> ctx_agg \<times> effect list" where
  "addUserMessage te a text =
     ((if lastMessageRole a = ''user'' then
         a\<lparr>ca_messages := butlast (ca_messages a) @
           [(last (ca_messages a))\<lparr>msg_Content := msg_Content (last (ca_messages a)) @ '' '' @ text\<rparr>]\<rparr>
       else a\<lparr>ca_messages := ca_messages a @ [text_message ''user'' text]\<rparr>),
      (if text = [] then [] else [UI (UserTranscription text True) (te_now te)]) @
      [Fire (UserTurnCommitted text (te_now te) (ca_promptKey a))])"

definition addFunctionCallInProgress ::
    "ctx_agg \<Rightarrow> string \<Rightarrow> string \<Rightarrow> json_map \<Rightarrow> string \<Rightarrow> ctx_agg" where
  "addFunctionCallInProgress a name callID args raw =
     a\<lparr>ca_messages := ca_messages a @
        [assistantToolCallMessageFromFrame name callID args raw,
         \<lparr>msg_Role = ''tool'', msg_Content = ''IN_PROGRESS'', msg_ToolCalls = [],
          msg_ToolCallID = callID\<rparr>]\<rparr>"

text \<open>The loop of \<open>applyFunctionCallResult\<close>: from the end, the first tool message with the id.\<close>

definition is_tool_message :: "string \<Rightarrow> message \<Rightarrow> bool" where
  "is_tool_message callID msg = (msg_Role msg = ''tool'' \<and> msg_ToolCallID msg = callID)"

fun update_first :: "(message \<Rightarrow> bool) \<Rightarrow> (message \<Rightarrow> message) \<Rightarrow> message list \<Rightarrow> message list option" where
  "update_first P g [] = None"
| "update_first P g (m # ms) =
     (if P m then Some (g m # ms) else map_option ((#) m) (update_first P g ms))"

definition update_last :: "(message \<Rightarrow> bool) \<Rightarrow> (message \<Rightarrow> message) \<Rightarrow> message list \<Rightarrow> message list option" where
  "update_last P g ms = map_option rev (update_first P g (rev ms))"

definition applyFunctionCallResult ::
    "ctx_agg \<Rightarrow> string \<Rightarrow> string \<Rightarrow> json_map \<Rightarrow> string \<Rightarrow> string
     \<Rightarrow> (message \<times> message) \<times> ctx_agg \<times> effect list" where
  "applyFunctionCallResult a name callID args raw res =
     (let result0 = trim_space res;
          (result, es) =
            (if result0 = [] then
               (toolErrorResultString empty_tool_result,
                [Push (ErrorFrame empty_tool_result False ''ContextAggregator'') Upstream])
             else (result0, []));
          assistantToolCall = assistantToolCallMessageFromFrame name callID args raw;
          toolResult = \<lparr>msg_Role = ''tool'', msg_Content = result, msg_ToolCalls = [],
                        msg_ToolCallID = callID\<rparr>;
          msgs = (case update_last (is_tool_message callID) (\<lambda>m. m\<lparr>msg_Content := result\<rparr>)
                         (ca_messages a) of
                    Some ms \<Rightarrow> ms
                  | None \<Rightarrow> ca_messages a @ [toolResult])
      in ((assistantToolCall, toolResult), a\<lparr>ca_messages := msgs\<rparr>, es))"

definition defaultSystemPrompt :: string where
  "defaultSystemPrompt =
     ''You are an expert health coach named Disha. You have deep experience in chronic care management and behavioral change. You are a master influencer and help the users achieve their health goals with the power of conversation.'' @ [newline] @
     ''You have been trained by master clinicians at a company called Curelink.'' @ [newline, newline] @
     ''You are conducting your first telephonic consultation with a new client. You are talking with the user via an audio call on the Disha Health App. Always respond in exactly 2 sentences. Never respond with just 1 sentence.''"

definition submitUserMessage :: "task_env \<Rightarrow> ctx_agg \<Rightarrow> string \<Rightarrow> ctx_agg \<times> effect list" where
  "submitUserMessage te a text =
     (let a1 = (if length (ca_messages a) = 0 \<and> ca_useDefaultPrompt a
                then a\<lparr>ca_messages := ca_messages a @ [text_message ''system'' defaultSystemPrompt]\<rparr>
                else a);
          (a2, es) = addUserMessage te a1 text;
          a3 = resetFinalTranscript (resetInterimTranscript
                 (a2\<lparr>ca_interruptSent := False, ca_spokenWords := []\<rparr>))
      in (a3, [Fire (UserFirstSpeech (te_now te))] @ es @
              [Push (LLMMessagesFrame (ca_messages a3)) Downstream]))"

section \<open>ProcessFrame\<close>

definition bargeIn :: "task_env \<Rightarrow> ctx_agg \<Rightarrow> ctx_agg \<times> effect list" where
  "bargeIn te a =
     (let (a', es) = commitSpokenText te (a\<lparr>ca_interruptSent := True, ca_botSpeaking := False\<rparr>) True
      in (a', [UI (ServerMessage (JsonPayload (JStr ''Interruption received while bot is speaking''))) (te_now te),
               Push InterruptFrame Downstream] @ es))"

definition ca_transcript ::
    "task_env \<Rightarrow> ctx_agg \<Rightarrow> string \<Rightarrow> bool \<Rightarrow> int \<Rightarrow> ctx_agg \<times> effect list" where
  "ca_transcript te a text isFinal responseID =
     (let (interim, a1) = updateInterimTranscript a text isFinal responseID;
          (a2, es1) = (if ca_botSpeaking a1 \<and> \<not> ca_interruptSent a1 \<and> \<not> isFinal
                          \<and> length (go_fields interim) \<ge> minBargeInWords
                       then bargeIn te a1 else (a1, []));
          ((turn, finished), a3) = updateFinalTranscript a2 text isFinal;
          (a4, es2) = (if finished \<and> turn \<noteq> [] then
                         (if ca_botSpeaking a3 \<and> \<not> ca_interruptSent a3
                          then (resetInterimTranscript a3, [])
                          else submitUserMessage te a3 turn)
                       else (a3, []))
      in (a4, es1 @ es2))"

definition ca_ttsDone :: "task_env \<Rightarrow> ctx_agg \<Rightarrow> ctx_agg \<times> effect list" where
  "ca_ttsDone te a =
     (let (a1, es) = commitSpokenText te a False;
          a2 = a1\<lparr>ca_botSpeaking := False\<rparr>;
          a3 = (if \<not> ca_interruptSent a2 \<and>
                   (ca_interimTranscript a2 \<noteq> [] \<or> ca_currentTranscript a2 \<noteq> [])
                then resetFinalTranscript (resetInterimTranscript a2) else a2)
      in (a3, es))"

fun ca_process :: "task_env \<Rightarrow> ctx_agg \<Rightarrow> frame \<Rightarrow> direction \<Rightarrow> ctx_agg \<times> effect list" where
  "ca_process te a (EndFrame reason) dir = (a, [Push (EndFrame reason) dir])"
| "ca_process te a (LLMMessagesAppendFrame msgs runLLM) dir =
     (let a1 = (if length msgs > 0
                then a\<lparr>ca_messages := ca_messages a @ messagesFromInitial msgs\<rparr> else a)
      in if runLLM \<and> length (ca_messages a1) \<noteq> 0
         then (a1, [Push (LLMMessagesFrame (ca_messages a1)) Downstream]) else (a1, []))"
| "ca_process te a (FunctionCallInProgressFrame name callID args raw cancel) dir =
     (addFunctionCallInProgress a name callID args raw,
      [Push (FunctionCallInProgressFrame name callID args raw cancel) Upstream])"
| "ca_process te a (FunctionCallResultFrame name callID args raw res runLLM) dir =
     (let ((assistantToolCall, toolResult), a1, es) = applyFunctionCallResult a name callID args raw res
      in (a1, es @ [Fire (ToolResultCommitted assistantToolCall toolResult (te_now te)),
                    Push (FunctionCallResultFrame name callID args raw res runLLM) Upstream] @
              (if runLLM then [Push (LLMMessagesFrame (ca_messages a1)) Downstream] else [])))"
| "ca_process te a (TranscriptFrame text isFinal responseID finished) dir =
     ca_transcript te a text isFinal responseID"
| "ca_process te a (WordTimestampFrame words) dir =
     (a\<lparr>ca_spokenWords := appendWords (ca_spokenWords a) words\<rparr>, [])"
| "ca_process te a TTSDoneFrame dir = ca_ttsDone te a"
| "ca_process te a BotStartedSpeakingFrame dir =
     (a\<lparr>ca_botSpeaking := True\<rparr>, [Push BotStartedSpeakingFrame dir])"
| "ca_process te a BotStoppedSpeakingFrame dir =
     (a\<lparr>ca_botSpeaking := False\<rparr>, [Push BotStoppedSpeakingFrame dir])"
| "ca_process te a frame dir = (a, [Push frame dir])"

lemmas ca_defs = ca_transcript_def ca_ttsDone_def bargeIn_def submitUserMessage_def addUserMessage_def
  commitSpokenText_def spokenSoFar_def updateInterimTranscript_def updateFinalTranscript_def
  resetFinalTranscript_def resetInterimTranscript_def applyFunctionCallResult_def
  addFunctionCallInProgress_def

text \<open>Frames that the aggregator passes on unchanged.\<close>

fun ca_passes :: "frame \<Rightarrow> bool" where
  "ca_passes (LLMMessagesAppendFrame _ _) = False"
| "ca_passes (FunctionCallInProgressFrame _ _ _ _ _) = False"
| "ca_passes (FunctionCallResultFrame _ _ _ _ _ _) = False"
| "ca_passes (TranscriptFrame _ _ _ _) = False"
| "ca_passes (WordTimestampFrame _) = False"
| "ca_passes TTSDoneFrame = False"
| "ca_passes _ = True"

lemma ca_passes_push: "ca_passes f \<Longrightarrow> pushes (snd (ca_process te a f d)) = [(f, d)]"
  by (cases f) auto

lemma ca_passes_messages: "ca_passes f \<Longrightarrow> ca_messages (fst (ca_process te a f d)) = ca_messages a"
  by (cases f) auto

section \<open>What the parts push\<close>

lemma commitSpokenText_pushes [simp]: "pushes (snd (commitSpokenText te a b)) = []"
  by (simp add: commitSpokenText_def spokenSoFar_def)

lemma addUserMessage_pushes [simp]: "pushes (snd (addUserMessage te a t)) = []"
  by (simp add: addUserMessage_def)

lemma bargeIn_pushes [simp]: "pushes (snd (bargeIn te a)) = [(InterruptFrame, Downstream)]"
  by (simp add: bargeIn_def split_beta)

lemma submit_pushes [simp]:
  "pushes (snd (submitUserMessage te a t)) =
     [(LLMMessagesFrame (ca_messages (fst (submitUserMessage te a t))), Downstream)]"
  by (simp add: submitUserMessage_def split_beta Let_def)

lemma ttsDone_pushes [simp]: "pushes (snd (ca_ttsDone te a)) = []"
  by (simp add: ca_ttsDone_def split_beta Let_def)

section \<open>Transcripts: barge-in and turn taking\<close>

text \<open>The condition under which speech over the bot interrupts it.\<close>

definition barge_in_now :: "ctx_agg \<Rightarrow> string \<Rightarrow> bool \<Rightarrow> int \<Rightarrow> bool" where
  "barge_in_now a text isFinal responseID =
     (ca_botSpeaking a \<and> \<not> ca_interruptSent a \<and> \<not> isFinal \<and>
      length (go_fields (fst (updateInterimTranscript a text isFinal responseID))) \<ge> minBargeInWords)"

lemma updateInterim_frame:
  "ca_botSpeaking (snd (updateInterimTranscript a t f r)) = ca_botSpeaking a"
  "ca_interruptSent (snd (updateInterimTranscript a t f r)) = ca_interruptSent a"
  "ca_messages (snd (updateInterimTranscript a t f r)) = ca_messages a"
  "ca_currentTranscript (snd (updateInterimTranscript a t f r)) = ca_currentTranscript a"
  "ca_spokenWords (snd (updateInterimTranscript a t f r)) = ca_spokenWords a"
  "ca_useDefaultPrompt (snd (updateInterimTranscript a t f r)) = ca_useDefaultPrompt a"
  by (simp_all add: updateInterimTranscript_def resetInterimTranscript_def Let_def)

lemma barge_in_now_text:
  "barge_in_now a text isFinal rid \<longleftrightarrow> ca_botSpeaking a \<and> \<not> ca_interruptSent a \<and> \<not> isFinal
     \<and> 3 \<le> length (go_fields
         ((if rid \<noteq> 0 \<and> rid \<noteq> ca_interimResponseID a then [] else ca_interimTranscript a) @ text))"
  by (auto simp: barge_in_now_def updateInterimTranscript_def minBargeInWords_def Let_def)

text \<open>The three outcomes of a transcript token.\<close>

lemma ca_transcript_interim:
  "ca_transcript te a text False rid =
     (let a1 = snd (updateInterimTranscript a text False rid)
      in if barge_in_now a text False rid then bargeIn te a1 else (a1, []))"
  by (simp add: ca_transcript_def barge_in_now_def updateFinalTranscript_def split_beta Let_def
      updateInterim_frame)

lemma ca_transcript_final:
  "text \<noteq> ''<end>'' \<Longrightarrow> ca_transcript te a text True rid =
     (a\<lparr>ca_currentTranscript := ca_currentTranscript a @ text\<rparr>, [])"
  by (simp add: ca_transcript_def updateInterimTranscript_def updateFinalTranscript_def)

lemma ca_transcript_end:
  "ca_transcript te a ''<end>'' True rid =
     (let a1 = resetFinalTranscript (resetInterimTranscript a); turn = ca_currentTranscript a
      in if turn = [] \<or> (ca_botSpeaking a \<and> \<not> ca_interruptSent a) then (a1, [])
         else submitUserMessage te a1 turn)"
  by (simp add: ca_transcript_def updateInterimTranscript_def updateFinalTranscript_def
      resetFinalTranscript_def resetInterimTranscript_def Let_def)

text \<open>
  C5: barge-in decision. A transcript token makes the aggregator interrupt the bot exactly when the
  bot is speaking, no interruption of this turn was sent yet, the token is interim, and the interim
  text of the current response has at least three words.
\<close>

theorem barge_in_exact:
  "(InterruptFrame, Downstream)
     \<in> set (pushes (snd (ca_process te a (TranscriptFrame text isFinal rid fin) d)))
   \<longleftrightarrow> ca_botSpeaking a \<and> \<not> ca_interruptSent a \<and> \<not> isFinal
       \<and> 3 \<le> length (go_fields
           ((if rid \<noteq> 0 \<and> rid \<noteq> ca_interimResponseID a then [] else ca_interimTranscript a) @ text))"
proof (cases isFinal)
  case False
  then show ?thesis by (simp add: ca_transcript_interim barge_in_now_text Let_def)
next
  case True
  then show ?thesis
    by (cases "text = ''<end>''") (simp_all add: ca_transcript_final ca_transcript_end Let_def)
qed

text \<open>
  Short speech over the bot is no turn. While the bot speaks and was not interrupted, the end of
  an utterance commits nothing: the history is unchanged, nothing is pushed, and the collected text
  is discarded; and once the bot's turn has ended uninterrupted, a late end marker of such speech
  finds nothing to commit either.
\<close>

theorem backchannel_discarded:
  assumes "\<not> ca_interruptSent a"
  shows "(ca_botSpeaking a \<longrightarrow>
           (let (a', es) = ca_process te a (TranscriptFrame ''<end>'' True rid fin) d
            in ca_messages a' = ca_messages a \<and> es = [] \<and> ca_currentTranscript a' = []
               \<and> ca_interimTranscript a' = []))
       \<and> (let (a1, es1) = ca_process te a TTSDoneFrame d;
              (a2, es2) = ca_process te a1 (TranscriptFrame ''<end>'' True rid fin) d
          in ca_messages a2 = ca_messages a1 \<and> es2 = [])"
proof -
  have done_clears: "ca_currentTranscript (fst (ca_ttsDone te a)) = []"
    using assms by (auto simp: ca_defs split_beta Let_def)
  then show ?thesis
    using assms by (auto simp: ca_transcript_end ca_defs split_beta Let_def)
qed

definition example_te :: task_env where
  "example_te = \<lparr>te_now = 1, te_turn = \<lparr>tm_LLMTTFBMs = 0, tm_LLMProcessingMs = 0, tm_TTSTextAggregationMs = 0,
     tm_TTSTTFBMs = 0, tm_E2ELatencyMs = 0\<rparr>\<rparr>"

theorem backchannel_discarded_witness:
  "let a = (NewContextAggregator None [])\<lparr>ca_botSpeaking := True, ca_currentTranscript := ''ok''\<rparr>
   in \<not> ca_interruptSent a \<and>
      fst (ca_process example_te a (TranscriptFrame ''<end>'' True 1 False) Downstream)
        = a\<lparr>ca_currentTranscript := []\<rparr>"
proof -
  let ?a = "(NewContextAggregator None [])\<lparr>ca_botSpeaking := True, ca_currentTranscript := ''ok''\<rparr>"
  have "\<not> ca_interruptSent ?a" by (simp add: NewContextAggregator_def)
  from backchannel_discarded [OF this, of example_te 1 False Downstream] show ?thesis
    by (simp add: NewContextAggregator_def ca_transcript_end resetFinalTranscript_def
        resetInterimTranscript_def Let_def)
qed

section \<open>The aggregator in the chain\<close>

lemma ca_pushes_cases:
  "pushes (snd (ca_process te a f d)) =
     (case f of
        LLMMessagesAppendFrame msgs runLLM \<Rightarrow>
          (let h = ca_messages (fst (ca_process te a f d))
           in if runLLM \<and> h \<noteq> [] then [(LLMMessagesFrame h, Downstream)] else [])
      | FunctionCallInProgressFrame _ _ _ _ _ \<Rightarrow> [(f, Upstream)]
      | FunctionCallResultFrame _ _ _ _ res runLLM \<Rightarrow>
          (if trim_space res = [] then [(ErrorFrame empty_tool_result False ''ContextAggregator'', Upstream)]
           else []) @ [(f, Upstream)] @
          (if runLLM then [(LLMMessagesFrame (ca_messages (fst (ca_process te a f d))), Downstream)] else [])
      | TranscriptFrame t b r _ \<Rightarrow>
          (if barge_in_now a t b r then [(InterruptFrame, Downstream)] else []) @
          (if b \<and> t = ''<end>'' \<and> ca_currentTranscript a \<noteq> [] \<and> \<not> (ca_botSpeaking a \<and> \<not> ca_interruptSent a)
           then [(LLMMessagesFrame (ca_messages (fst (ca_process te a f d))), Downstream)] else [])
      | WordTimestampFrame _ \<Rightarrow> []
      | TTSDoneFrame \<Rightarrow> []
      | _ \<Rightarrow> [(f, d)])"
proof (cases f)
  case (TranscriptFrame t b r fin)
  then show ?thesis
    by (cases b; cases "t = ''<end>''")
       (simp_all add: ca_transcript_interim ca_transcript_final ca_transcript_end barge_in_now_def Let_def)
qed (simp_all add: applyFunctionCallResult_def Let_def split_beta)

interpretation ca_chain: end_forwarder "ca_process te" for te
proof unfold_locales
  fix f r d' s d
  assume "\<not> is_end f"
  then show "(EndFrame r, d') \<notin> set (pushes (snd (ca_process te s f d)))"
    by (cases f) (auto simp del: ca_process.simps simp: ca_pushes_cases Let_def)
qed simp

section \<open>The history\<close>

text \<open>What a message keeps when its content is rewritten.\<close>

definition msg_head :: "message \<Rightarrow> string \<times> tool_call list \<times> string" where
  "msg_head m = (msg_Role m, msg_ToolCalls m, msg_ToolCallID m)"

lemma msg_head_content [simp]: "msg_head (m\<lparr>msg_Content := c\<rparr>) = msg_head m"
  by (simp add: msg_head_def)

lemma update_first_map:
  assumes "\<And>m. h (g m) = h m"
  shows "update_first P g ms = Some ms' \<Longrightarrow> map h ms' = map h ms"
  using assms by (induction P g ms arbitrary: ms' rule: update_first.induct) (auto split: if_splits)

lemma update_last_map:
  assumes "\<And>m. h (g m) = h m" and "update_last P g ms = Some ms'"
  shows "map h ms' = map h ms"
  using assms update_first_map [of h g P "rev ms"] by (auto simp: update_last_def simp flip: rev_map)

lemma update_first_None: "update_first P g ms = None \<longleftrightarrow> (\<forall>m \<in> set ms. \<not> P m)"
  by (induction P g ms rule: update_first.induct) auto

lemma update_last_None: "update_last P g ms = None \<longleftrightarrow> (\<forall>m \<in> set ms. \<not> P m)"
  by (simp add: update_last_def update_first_None)

lemma addUser_heads: "prefix (map msg_head (ca_messages a)) (map msg_head (ca_messages (fst (addUserMessage te a t))))"
proof (cases "lastMessageRole a = ''user''")
  case True
  then have "ca_messages a \<noteq> []" by (auto simp: lastMessageRole_def)
  then obtain ms m where "ca_messages a = ms @ [m]" by (metis rev_exhaust)
  with True show ?thesis by (simp add: addUserMessage_def)
qed (simp add: addUserMessage_def)

lemma commit_messages:
  "ca_messages (fst (commitSpokenText te a b)) =
     ca_messages a @ (if concat (ca_spokenWords a) = [] then []
                      else [text_message ''assistant'' (concat (ca_spokenWords a))])"
  by (simp add: commitSpokenText_def spokenSoFar_def del: concat_eq_Nil_conv)

lemma commit_heads:
  "prefix (map msg_head (ca_messages a)) (map msg_head (ca_messages (fst (commitSpokenText te a b))))"
  unfolding commit_messages by (simp del: concat_eq_Nil_conv)

lemma submit_heads:
  "prefix (map msg_head (ca_messages a)) (map msg_head (ca_messages (fst (submitUserMessage te a t))))"
proof -
  let ?a1 = "if length (ca_messages a) = 0 \<and> ca_useDefaultPrompt a
             then a\<lparr>ca_messages := ca_messages a @ [text_message ''system'' defaultSystemPrompt]\<rparr> else a"
  have grown: "prefix (map msg_head (ca_messages a)) (map msg_head (ca_messages ?a1))" by simp
  have same: "ca_messages (fst (submitUserMessage te a t)) = ca_messages (fst (addUserMessage te ?a1 t))"
    by (simp add: submitUserMessage_def Let_def split_beta resetFinalTranscript_def resetInterimTranscript_def)
  show ?thesis unfolding same by (rule prefix_order.order_trans [OF grown addUser_heads])
qed

lemma result_messages:
  "ca_messages (fst (snd (applyFunctionCallResult a n i as raw res))) =
     (let r = (if trim_space res = [] then toolErrorResultString empty_tool_result else trim_space res)
      in case update_last (is_tool_message i) (\<lambda>m. m\<lparr>msg_Content := r\<rparr>) (ca_messages a) of
           Some ms \<Rightarrow> ms
         | None \<Rightarrow> ca_messages a @ [\<lparr>msg_Role = ''tool'', msg_Content = r, msg_ToolCalls = [], msg_ToolCallID = i\<rparr>])"
  by (simp add: applyFunctionCallResult_def Let_def)

lemma result_heads:
  "map msg_head (ca_messages (fst (snd (applyFunctionCallResult a n i as raw res)))) =
     map msg_head (ca_messages a) @
       (if \<forall>m \<in> set (ca_messages a). \<not> is_tool_message i m then [(''tool'', [], i)] else [])"
proof -
  define r where "r = (if trim_space res = [] then toolErrorResultString empty_tool_result else trim_space res)"
  show ?thesis
  proof (cases "update_last (is_tool_message i) (\<lambda>m. m\<lparr>msg_Content := r\<rparr>) (ca_messages a)")
    case None
    then have "\<forall>m \<in> set (ca_messages a). \<not> is_tool_message i m" by (simp only: update_last_None)
    with None show ?thesis unfolding result_messages Let_def r_def [symmetric]
      by (simp add: msg_head_def)
  next
    case (Some ms)
    then have "\<not> (\<forall>m \<in> set (ca_messages a). \<not> is_tool_message i m)"
      using update_last_None by (metis option.distinct(1))
    with Some update_last_map [OF _ Some, of msg_head] show ?thesis
      unfolding result_messages Let_def r_def [symmetric] by simp
  qed
qed

lemma result_nonempty: "ca_messages (fst (snd (applyFunctionCallResult a n i as raw res))) \<noteq> []"
proof
  assume none: "ca_messages (fst (snd (applyFunctionCallResult a n i as raw res))) = []"
  with result_heads [of a n i as raw res] have "ca_messages a = []" by simp
  with none result_heads [of a n i as raw res] show False by simp
qed

lemma submit_nonempty: "ca_messages (fst (submitUserMessage te a t)) \<noteq> []"
  by (simp add: submitUserMessage_def addUserMessage_def Let_def split_beta resetFinalTranscript_def
      resetInterimTranscript_def)

text \<open>
  C26: the history is append-only. Whatever frame arrives, every message of the history keeps its
  place, role, tool calls and tool-call id; only the content of a message may be rewritten (a user
  turn continued, a tool placeholder filled in) and new messages go to the end.
\<close>

theorem history_append_only:
  "prefix (map msg_head (ca_messages a)) (map msg_head (ca_messages (fst (ca_process te a f d))))"
proof (cases f)
  case (TranscriptFrame t b r fin)
  have bi: "prefix (map msg_head (ca_messages x)) (map msg_head (ca_messages (fst (bargeIn te x))))" for x
    using commit_heads [of "x\<lparr>ca_interruptSent := True, ca_botSpeaking := False\<rparr>" te True]
    by (simp add: bargeIn_def split_beta)
  have rst: "ca_messages (resetFinalTranscript (resetInterimTranscript a)) = ca_messages a"
    by (simp add: resetFinalTranscript_def resetInterimTranscript_def)
  show ?thesis
    using bi [of "snd (updateInterimTranscript a t b r)"]
      submit_heads [of "resetFinalTranscript (resetInterimTranscript a)" te "ca_currentTranscript a"]
    by (cases b; cases "t = ''<end>''")
       (simp_all add: TranscriptFrame ca_transcript_interim ca_transcript_final ca_transcript_end Let_def
          updateInterim_frame rst)
next
  case TTSDoneFrame
  then show ?thesis
    using commit_heads [of a te False]
    by (simp add: ca_ttsDone_def split_beta Let_def resetFinalTranscript_def resetInterimTranscript_def)
qed (use result_heads in \<open>auto simp: addFunctionCallInProgress_def Let_def split_beta\<close>)

text \<open>
  What reaches the LLM. Apart from a history another processor sent, every
  \<open>LLMMessagesFrame\<close> the aggregator pushes goes downstream, is never empty, and carries the
  whole history as it stands after the step.
\<close>

theorem llm_sees_history:
  assumes "(LLMMessagesFrame ms, d') \<in> set (pushes (snd (ca_process te a f d)))"
    and "\<And>ms. f \<noteq> LLMMessagesFrame ms"
  shows "d' = Downstream \<and> ms = ca_messages (fst (ca_process te a f d)) \<and> ms \<noteq> []"
proof -
  let ?h = "ca_messages (fst (ca_process te a f d))"
  have "ms = ?h \<and> d' = Downstream"
    using assms by (cases f) (auto simp: ca_pushes_cases Let_def simp del: ca_process.simps split: if_splits)
  moreover have "?h \<noteq> []"
  proof (cases f)
    case (LLMMessagesAppendFrame m b)
    with assms(1) show ?thesis by (auto simp: ca_pushes_cases Let_def simp del: ca_process.simps split: if_splits)
  next
    case (FunctionCallResultFrame n i as raw res b)
    then show ?thesis by (simp add: split_beta Let_def result_nonempty)
  next
    case (TranscriptFrame t b r fin)
    with assms(1) have "b" "t = ''<end>''" "ca_currentTranscript a \<noteq> []"
      "\<not> (ca_botSpeaking a \<and> \<not> ca_interruptSent a)"
      by (auto simp: ca_pushes_cases simp del: ca_process.simps split: if_splits)
    with TranscriptFrame show ?thesis by (auto simp: ca_transcript_end submit_nonempty Let_def)
  qed (use assms in \<open>auto simp: ca_pushes_cases simp del: ca_process.simps\<close>)
  ultimately show ?thesis by simp
qed

theorem llm_sees_history_witness:
  "let a = NewContextAggregator (Some [text_message ''system'' ''s'']) [] in
   snd (ca_process example_te a (LLMMessagesAppendFrame [text_message ''user'' ''hi''] True) Upstream)
     = [Push (LLMMessagesFrame [text_message ''system'' ''s'', text_message ''user'' ''hi'']) Downstream]
   \<and> [text_message ''system'' ''s'', text_message ''user'' ''hi''] \<noteq> []"
proof -
  let ?a = "NewContextAggregator (Some [text_message ''system'' ''s'']) []"
  let ?ms = "[text_message ''system'' ''s'', text_message ''user'' ''hi'']"
  have ev: "ca_process example_te ?a (LLMMessagesAppendFrame [text_message ''user'' ''hi''] True) Upstream
      = (?a\<lparr>ca_messages := ?ms\<rparr>, [Push (LLMMessagesFrame ?ms) Downstream])"
    by (simp add: NewContextAggregator_def messagesFromInitial_def text_message_def)
  have "?ms \<noteq> []"
    using llm_sees_history [of ?ms Downstream example_te ?a "LLMMessagesAppendFrame [text_message ''user'' ''hi''] True" Upstream]
    by (simp add: ev)
  with ev show ?thesis by simp
qed

section \<open>What the assistant is recorded as having said\<close>

definition spaced :: "string \<Rightarrow> string" where
  "spaced w = (if w \<noteq> [] \<and> hd w \<notin> set ''.,!?;:'' then CHR '' '' # w else w)"

text \<open>The text of a list of spoken words: a space before every word but the first, unless the word
  is empty or starts with punctuation.\<close>

fun spoken_text :: "string list \<Rightarrow> string" where
  "spoken_text [] = []"
| "spoken_text (w # ws) = w @ concat (map spaced ws)"

lemma appendWords_tail: "sw \<noteq> [] \<Longrightarrow> appendWords sw ws = sw @ map spaced ws"
proof (induction sw ws rule: appendWords.induct)
  case (2 sw w ws)
  then show ?case by (cases "w \<noteq> [] \<and> hd w \<notin> set ''.,!?;:''") (auto simp: spaced_def)
qed simp

lemma appendWords_text: "concat (appendWords [] ws) = spoken_text ws"
  by (cases ws) (simp_all add: appendWords_tail)

lemma appendWords_append: "appendWords sw (xs @ ys) = appendWords (appendWords sw xs) ys"
  by (induction sw xs rule: appendWords.induct) simp_all

lemma word_frames:
  "foldl (\<lambda>a ws. fst (ca_process te a (WordTimestampFrame ws) d)) a wss =
     a\<lparr>ca_spokenWords := appendWords (ca_spokenWords a) (concat wss)\<rparr>"
proof (induction wss rule: rev_induct)
  case (snoc ws wss)
  then show ?case by (simp add: appendWords_append)
qed simp

text \<open>
  C27: the history records what was spoken, and only that. From a state with no words pending, after
  any sequence of word-timestamp frames the end of the bot's speech, or a barge-in, appends exactly
  one assistant message with the text of the words spoken so far, however they were grouped into
  frames, or nothing when that text is empty, and forgets the words.
\<close>

theorem spoken_words_recorded:
  assumes "ca_spokenWords a = []"
  shows "let b = foldl (\<lambda>a ws. fst (ca_process te a (WordTimestampFrame ws) d)) a wss;
             text = spoken_text (concat wss);
             h = ca_messages a @ (if text = [] then [] else [text_message ''assistant'' text])
         in ca_messages (fst (ca_process te b TTSDoneFrame d)) = h
          \<and> ca_spokenWords (fst (ca_process te b TTSDoneFrame d)) = []
          \<and> (barge_in_now b t False rid \<longrightarrow>
               ca_messages (fst (ca_process te b (TranscriptFrame t False rid fin) d)) = h
             \<and> ca_spokenWords (fst (ca_process te b (TranscriptFrame t False rid fin) d)) = [])"
proof -
  define b where "b = a\<lparr>ca_spokenWords := appendWords [] (concat wss)\<rparr>"
  have words: "foldl (\<lambda>a ws. fst (ca_process te a (WordTimestampFrame ws) d)) a wss = b"
    using assms word_frames [of te d a wss] by (simp add: b_def)
  have words_of: "ca_spokenWords (fst (commitSpokenText te x i)) = []" for x i
    by (simp add: commitSpokenText_def spokenSoFar_def Let_def)
  have "ca_messages (fst (ca_ttsDone te b)) = ca_messages (fst (commitSpokenText te b False))"
    "ca_spokenWords (fst (ca_ttsDone te b)) = []"
    by (simp_all add: ca_ttsDone_def Let_def split_beta resetFinalTranscript_def
        resetInterimTranscript_def words_of)
  moreover have "ca_spokenWords (fst (bargeIn te x)) = []" for x
    by (simp add: bargeIn_def Let_def split_beta words_of)
  moreover have "ca_messages (fst (bargeIn te x)) =
      ca_messages (fst (commitSpokenText te (x\<lparr>ca_interruptSent := True, ca_botSpeaking := False\<rparr>) True))" for x
    by (simp add: bargeIn_def Let_def split_beta)
  ultimately show ?thesis
    unfolding words Let_def
    by (simp add: commit_messages appendWords_text ca_transcript_interim Let_def updateInterim_frame b_def
        del: concat_eq_Nil_conv)
qed

theorem spoken_words_recorded_witness:
  "let a = NewContextAggregator None [] in ca_spokenWords a = [] \<and>
     ca_messages (fst (ca_process example_te
        (foldl (\<lambda>a ws. fst (ca_process example_te a (WordTimestampFrame ws) Upstream)) a [[''Hello'', '',''], [''Asha'']])
        TTSDoneFrame Upstream))
     = [text_message ''assistant'' ''Hello, Asha'']"
proof -
  let ?a = "NewContextAggregator None []"
  have "ca_spokenWords ?a = []" by (simp add: NewContextAggregator_def)
  from spoken_words_recorded [OF this, of example_te Upstream "[[''Hello'', '',''], [''Asha'']]"] this show ?thesis
    by (simp add: Let_def spaced_def) (simp add: NewContextAggregator_def)
qed

section \<open>Interruptions are rationed\<close>

fun is_commit :: "effect \<Rightarrow> bool" where
  "is_commit (Fire (UserTurnCommitted _ _ _)) = True"
| "is_commit _ = False"

definition commits :: "effect list \<Rightarrow> nat" where
  "commits es = length (filter is_commit es)"

definition interrupts :: "effect list \<Rightarrow> nat" where
  "interrupts es = length (filter (\<lambda>p. fst p = InterruptFrame) (pushes es))"

lemma ration_simps [simp]:
  "commits [] = 0" "commits (es @ fs) = commits es + commits fs"
  "interrupts [] = 0" "interrupts (es @ fs) = interrupts es + interrupts fs"
  by (simp_all add: commits_def interrupts_def)

definition allowance :: "ctx_agg \<Rightarrow> nat" where
  "allowance a = (if ca_interruptSent a then 0 else 1)"

lemma step_interrupts:
  "interrupts (snd (ca_process te a f d)) =
     (case f of TranscriptFrame t b r _ \<Rightarrow> if barge_in_now a t b r then 1 else 0
      | InterruptFrame \<Rightarrow> 1 | _ \<Rightarrow> 0)"
  by (cases f) (auto simp: interrupts_def ca_pushes_cases Let_def simp del: ca_process.simps)

lemma commitSpokenText_sent:
  "ca_interruptSent (fst (commitSpokenText te a b)) = ca_interruptSent a"
  by (simp add: commitSpokenText_def spokenSoFar_def Let_def)

lemma submit_commits: "0 < commits (snd (submitUserMessage te a t))"
  by (simp add: submitUserMessage_def addUserMessage_def Let_def split_beta commits_def)

lemma step_allowance:
  assumes "f \<noteq> InterruptFrame"
  shows "interrupts (snd (ca_process te a f d)) + allowance (fst (ca_process te a f d))
    \<le> allowance a + commits (snd (ca_process te a f d))"
proof (cases f)
  case (TranscriptFrame t b r fin)
  have sent: "ca_interruptSent (fst (bargeIn te x))" for x
    by (simp add: bargeIn_def split_beta Let_def commitSpokenText_sent)
  show ?thesis
  proof (cases b)
    case False
    then show ?thesis
      unfolding TranscriptFrame step_interrupts
      by (simp add: ca_transcript_interim Let_def allowance_def sent updateInterim_frame)
         (simp add: barge_in_now_def)
  next
    case True
    have keep: "ca_interruptSent (resetFinalTranscript (resetInterimTranscript a)) = ca_interruptSent a"
      by (simp add: resetFinalTranscript_def resetInterimTranscript_def)
    show ?thesis
      unfolding TranscriptFrame step_interrupts
      using submit_commits [of te "resetFinalTranscript (resetInterimTranscript a)" "ca_currentTranscript a"] True
      by (cases "t = ''<end>''")
         (simp_all add: ca_transcript_final ca_transcript_end Let_def allowance_def barge_in_now_def keep)
  qed
next
  case TTSDoneFrame
  then show ?thesis unfolding step_interrupts
    by (simp add: ca_ttsDone_def Let_def split_beta allowance_def resetFinalTranscript_def
        resetInterimTranscript_def commitSpokenText_sent)
next
  case (FunctionCallResultFrame n i as raw res b)
  then show ?thesis unfolding step_interrupts
    by (simp add: split_beta Let_def allowance_def applyFunctionCallResult_def)
qed (use assms in \<open>simp_all add: interrupts_def commits_def allowance_def
      addFunctionCallInProgress_def Let_def\<close>)

text \<open>
  C33: one interruption per turn. Over any sequence of frames from the rest of the pipeline, the
  number of interrupts the aggregator sends exceeds the number of user turns it commits by at most
  the one it may send before the first commit.
\<close>

theorem one_interrupt_per_turn:
  assumes "\<And>d. (InterruptFrame, d) \<notin> set fs"
  shows "interrupts (snd (ca_chain.run te a fs)) \<le> allowance a + commits (snd (ca_chain.run te a fs))"
proof -
  have "interrupts (snd (ca_chain.run te a fs)) + allowance (fst (ca_chain.run te a fs))
      \<le> allowance a + commits (snd (ca_chain.run te a fs))"
    using assms
  proof (induction fs arbitrary: a)
    case (Cons p fs)
    obtain f d where p: "p = (f, d)" by (cases p)
    with Cons.prems have "f \<noteq> InterruptFrame" by auto
    from step_allowance [OF this, of te a d] Cons.IH [of "fst (ca_process te a f d)"] Cons.prems
    show ?case by (simp add: p split_beta Let_def)
  qed simp
  then show ?thesis by simp
qed

theorem one_interrupt_per_turn_witness:
  "let fs = [(TranscriptFrame ''stop now please'' False 1 False, Downstream),
             (TranscriptFrame '' ok'' False 1 False, Downstream)];
       a = (NewContextAggregator None [])\<lparr>ca_botSpeaking := True\<rparr>
   in (\<forall>d. (InterruptFrame, d) \<notin> set fs) \<and> interrupts (snd (ca_chain.run example_te a fs)) \<le> 1"
proof -
  let ?fs = "[(TranscriptFrame ''stop now please'' False 1 False, Downstream),
              (TranscriptFrame '' ok'' False 1 False, Downstream)]"
  let ?a = "(NewContextAggregator None [])\<lparr>ca_botSpeaking := True\<rparr>"
  have "commits (snd (ca_chain.run example_te ?a ?fs)) = 0"
    by (simp add: ca_transcript_interim Let_def split_beta bargeIn_def commitSpokenText_def
        spokenSoFar_def updateInterimTranscript_def NewContextAggregator_def commits_def)
  moreover have "interrupts (snd (ca_chain.run example_te ?a ?fs)) \<le> allowance ?a + commits (snd (ca_chain.run example_te ?a ?fs))"
    by (rule one_interrupt_per_turn) simp
  ultimately show ?thesis by (simp add: allowance_def NewContextAggregator_def)
qed

end
