(* ===== verification/Processor.thy ===== *)
theory Processor
  imports Frames
begin

text \<open>
  \<open>BaseProcessor\<close> (\<open>processor.go\<close>): the two input channels, the input loop with its system-frame
  priority, the process loop, and the cancel-purge-restart of an interrupt. The goroutines are
  interleaved at their \<open>select\<close> statements: each operation returns the list of its possible
  outcomes, so a random choice of \<open>select\<close> is a list of two and a blocked goroutine the empty list.
  A \<open>ProcessFrame\<close> call is one atomic action, the parameter \<open>h\<close> (so the three-second bound on an
  unresponsive handler is not modelled).
\<close>

section \<open>State\<close>

definition inputDataChCapacity :: nat where "inputDataChCapacity = 100"
definition inputSysChCapacity :: nat where "inputSysChCapacity = 16"
definition procChCapacity :: nat where "procChCapacity = 100"

text \<open>Where the two loops stand: before start, at one of their selects, or gone.\<close>

datatype input_pc = InNotStarted | InPriority | InFair | InHolding envelope | InExited
datatype proc_pc = PrNotStarted | PrCheck | PrSelect | PrExited

record 's base_processor =
  bp_name :: string
  bp_self :: 's
  bp_inputSysCh :: "envelope list"
  bp_inputDataCh :: "envelope list"
  bp_procCh :: "envelope list"
  bp_ctxDone :: bool
  bp_cancelling :: bool
  bp_started :: bool
  bp_input :: input_pc
  bp_proc :: proc_pc

definition NewBaseProcessor :: "string \<Rightarrow> 's \<Rightarrow> 's base_processor" where
  "NewBaseProcessor name self =
     \<lparr>bp_name = name, bp_self = self, bp_inputSysCh = [], bp_inputDataCh = [], bp_procCh = [],
      bp_ctxDone = False, bp_cancelling = False, bp_started = False,
      bp_input = InNotStarted, bp_proc = PrNotStarted\<rparr>"

text \<open>What an outcome did that others can see: an envelope entered a channel, or was handled.\<close>

datatype event = Accept envelope | Dispatch envelope "effect list"

type_synonym 's outcomes = "(event list \<times> 's base_processor) list"
type_synonym 's handler = "'s \<Rightarrow> frame \<Rightarrow> direction \<Rightarrow> 's \<times> effect list"

section \<open>Operations\<close>

definition QueueFrame :: "'s base_processor \<Rightarrow> frame \<Rightarrow> direction \<Rightarrow> 's outcomes" where
  "QueueFrame b frame dir =
     (if bp_cancelling b then [([], b)]
      else let env = \<lparr>env_Frame = frame, env_Direction = dir\<rparr> in
        (if IsSystem frame then
           (if length (bp_inputSysCh b) < inputSysChCapacity
            then [([Accept env], b\<lparr>bp_inputSysCh := bp_inputSysCh b @ [env]\<rparr>)] else [])
         else
           (if length (bp_inputDataCh b) < inputDataChCapacity
            then [([Accept env], b\<lparr>bp_inputDataCh := bp_inputDataCh b @ [env]\<rparr>)] else [])) @
        (if bp_ctxDone b then [([], b)] else []))"

text \<open>\<open>PushFrame\<close>: what a pushed frame becomes at a processor with or without the two neighbours.\<close>

datatype push_target = ToMetricsHandler "metrics_data list" | ToNext frame | ToPrev frame | Nowhere

fun PushFrame :: "bool \<Rightarrow> bool \<Rightarrow> frame \<Rightarrow> direction \<Rightarrow> push_target" where
  "PushFrame hasPrev hasNext (MetricsFrame ds) dir = ToMetricsHandler ds"
| "PushFrame hasPrev hasNext frame Upstream = (if hasPrev then ToPrev frame else Nowhere)"
| "PushFrame hasPrev hasNext frame Downstream = (if hasNext then ToNext frame else Nowhere)"

definition Broadcast :: "frame \<Rightarrow> int \<Rightarrow> effect list \<times> int" where
  "Broadcast frame nextFrameID =
     (let ((_, down), n1) = Clone frame nextFrameID;
          ((_, up), n2) = Clone frame n1
      in ([Push down Downstream, Push up Upstream], n2))"

definition PushError :: "string \<Rightarrow> string \<Rightarrow> bool \<Rightarrow> effect list" where
  "PushError name errMsg fatal = [Push (ErrorFrame errMsg fatal name) Upstream]"

definition startProcessLoop :: "'s base_processor \<Rightarrow> 's base_processor" where
  "startProcessLoop b = b\<lparr>bp_proc := PrCheck\<rparr>"

definition Start :: "'s base_processor \<Rightarrow> 's base_processor" where
  "Start b = (if bp_started b then b
              else (startProcessLoop (b\<lparr>bp_started := True\<rparr>))\<lparr>bp_input := InPriority\<rparr>)"

definition Stop :: "'s base_processor \<Rightarrow> 's base_processor" where
  "Stop b = (if bp_cancelling b then b else b\<lparr>bp_cancelling := True, bp_ctxDone := True\<rparr>)"

text \<open>
  \<open>interruptProcessLoop\<close>: drain \<open>procCh\<close>, keep what must survive, restart, push the kept frames
  back; with a cancelled context the push-back may stop after any of them.
\<close>

definition keep_envs :: "envelope list \<Rightarrow> envelope list" where
  "keep_envs q = filter (\<lambda>env. \<not> IsInterruptible (env_Frame env)) q"

definition interruptProcessLoop :: "'s base_processor \<Rightarrow> 's base_processor list" where
  "interruptProcessLoop b =
     (let keep = keep_envs (bp_procCh b);
          b1 = startProcessLoop (b\<lparr>bp_procCh := []\<rparr>)
      in if bp_ctxDone b then map (\<lambda>n. b1\<lparr>bp_procCh := take n keep\<rparr>) (rev [0..<Suc (length keep)])
         else [b1\<lparr>bp_procCh := keep\<rparr>])"

definition handleSystem :: "'s handler \<Rightarrow> 's base_processor \<Rightarrow> envelope \<Rightarrow> 's outcomes" where
  "handleSystem h b env =
     map (\<lambda>b1. let (s', es) = h (bp_self b1) (env_Frame env) (env_Direction env)
               in ([Dispatch env es], b1\<lparr>bp_self := s'\<rparr>))
       (if env_Frame env = InterruptFrame then interruptProcessLoop b else [b])"

text \<open>One step of \<open>inputLoop\<close> from the select it stands at.\<close>

definition input_exit :: "'s base_processor \<Rightarrow> 's outcomes" where
  "input_exit b = (if bp_ctxDone b then [([], b\<lparr>bp_input := InExited\<rparr>)] else [])"

definition input_sys :: "'s handler \<Rightarrow> 's base_processor \<Rightarrow> 's outcomes" where
  "input_sys h b =
     (case bp_inputSysCh b of [] \<Rightarrow> []
      | env # rest \<Rightarrow> handleSystem h (b\<lparr>bp_inputSysCh := rest, bp_input := InPriority\<rparr>) env)"

definition inputLoop :: "'s handler \<Rightarrow> 's base_processor \<Rightarrow> 's outcomes" where
  "inputLoop h b =
     (case bp_input b of
        InPriority \<Rightarrow>
          (let ready = input_exit b @ input_sys h b
           in if ready = [] then [([], b\<lparr>bp_input := InFair\<rparr>)] else ready)
      | InFair \<Rightarrow>
          input_exit b @ input_sys h b @
          (case bp_inputDataCh b of [] \<Rightarrow> []
           | env # rest \<Rightarrow> [([], b\<lparr>bp_inputDataCh := rest, bp_input := InHolding env\<rparr>)])
      | InHolding env \<Rightarrow>
          (if length (bp_procCh b) < procChCapacity
           then [([], b\<lparr>bp_procCh := bp_procCh b @ [env], bp_input := InPriority\<rparr>)] else []) @
          input_exit b
      | _ \<Rightarrow> [])"

text \<open>One step of \<open>processLoop\<close>: the priority check, then the select.\<close>

definition process_one :: "'s handler \<Rightarrow> 's base_processor \<Rightarrow> envelope \<Rightarrow> envelope list \<Rightarrow> event list \<times> 's base_processor" where
  "process_one h b env rest =
     (let (s', es) = h (bp_self b) (env_Frame env) (env_Direction env);
          b1 = b\<lparr>bp_procCh := rest, bp_self := s'\<rparr>
      in ([Dispatch env es],
          if is_end (env_Frame env)
          then b1\<lparr>bp_cancelling := True, bp_ctxDone := True, bp_proc := PrExited\<rparr>
          else b1\<lparr>bp_proc := PrCheck\<rparr>))"

definition processLoop :: "'s handler \<Rightarrow> 's base_processor \<Rightarrow> 's outcomes" where
  "processLoop h b =
     (case bp_proc b of
        PrCheck \<Rightarrow> (if bp_ctxDone b then [([], b\<lparr>bp_proc := PrExited\<rparr>)] else [([], b\<lparr>bp_proc := PrSelect\<rparr>)])
      | PrSelect \<Rightarrow>
          (if bp_ctxDone b then [([], b\<lparr>bp_proc := PrExited\<rparr>)] else []) @
          (case bp_procCh b of [] \<Rightarrow> [] | env # rest \<Rightarrow> [process_one h b env rest])
      | _ \<Rightarrow> [])"

section \<open>Interleavings\<close>

text \<open>
  A run of one processor: neighbours queue frames, the two loops step, \<open>Start\<close> and \<open>Stop\<close> are
  called, and the task's context may be cancelled, in any order.
\<close>

inductive bp_step :: "'s handler \<Rightarrow> 's base_processor \<Rightarrow> event list \<Rightarrow> 's base_processor \<Rightarrow> bool"
  for h :: "'s handler"
where
  queue: "(evs, b') \<in> set (QueueFrame b f d) \<Longrightarrow> bp_step h b evs b'"
| input: "(evs, b') \<in> set (inputLoop h b) \<Longrightarrow> bp_step h b evs b'"
| process: "(evs, b') \<in> set (processLoop h b) \<Longrightarrow> bp_step h b evs b'"
| start: "bp_step h b [] (Start b)"
| stop: "bp_step h b [] (Stop b)"
| cancel: "bp_step h b [] (b\<lparr>bp_ctxDone := True\<rparr>)"

inductive bp_run :: "'s handler \<Rightarrow> 's base_processor \<Rightarrow> event list \<Rightarrow> bool"
  for h :: "'s handler"
where
  init: "bp_run h (NewBaseProcessor name self) []"
| step: "bp_run h b tr \<Longrightarrow> bp_step h b evs b' \<Longrightarrow> bp_run h b' (tr @ evs)"

inductive_cases bp_step_E: "bp_step h b evs b'"

text \<open>The data envelopes of a trace, in order: those accepted and those handled.\<close>

fun ev_accepted :: "event \<Rightarrow> envelope list" where
  "ev_accepted (Accept env) = (if IsSystem (env_Frame env) then [] else [env])"
| "ev_accepted (Dispatch _ _) = []"

fun ev_dispatched :: "event \<Rightarrow> envelope list" where
  "ev_dispatched (Accept _) = []"
| "ev_dispatched (Dispatch env _) = (if IsSystem (env_Frame env) then [] else [env])"

definition accepted :: "event list \<Rightarrow> envelope list" where
  "accepted tr = concat (map ev_accepted tr)"

definition dispatched :: "event list \<Rightarrow> envelope list" where
  "dispatched tr = concat (map ev_dispatched tr)"

lemma trace_simps [simp]:
  "accepted [] = []" "accepted (xs @ ys) = accepted xs @ accepted ys"
  "accepted (e # es) = ev_accepted e @ accepted es"
  "dispatched [] = []" "dispatched (xs @ ys) = dispatched xs @ dispatched ys"
  "dispatched (e # es) = ev_dispatched e @ dispatched es"
  by (simp_all add: accepted_def dispatched_def)

fun held :: "input_pc \<Rightarrow> envelope list" where
  "held (InHolding env) = [env]"
| "held _ = []"

text \<open>The data frames inside the processor, oldest first.\<close>

definition inside :: "'s base_processor \<Rightarrow> envelope list" where
  "inside b = bp_procCh b @ held (bp_input b) @ bp_inputDataCh b"

section \<open>The queue invariant\<close>

lemma keep_envs_simps [simp]:
  "keep_envs [] = []" "keep_envs (xs @ ys) = keep_envs xs @ keep_envs ys"
  "keep_envs (keep_envs xs) = keep_envs xs"
  "keep_envs (x # xs) = (if IsInterruptible (env_Frame x) then [] else [x]) @ keep_envs xs"
  by (simp_all add: keep_envs_def)

lemma keep_envs_subseq: "subseq (keep_envs xs) xs"
  by (simp add: keep_envs_def subseq_filterI)

lemma keep_envs_length: "length (keep_envs xs) \<le> length xs"
  by (simp add: keep_envs_def)

definition bp_bounds :: "'s base_processor \<Rightarrow> bool" where
  "bp_bounds b \<longleftrightarrow> length (bp_inputSysCh b) \<le> inputSysChCapacity
     \<and> length (bp_inputDataCh b) \<le> inputDataChCapacity \<and> length (bp_procCh b) \<le> procChCapacity"

definition bp_sorted :: "'s base_processor \<Rightarrow> bool" where
  "bp_sorted b \<longleftrightarrow> (\<forall>env \<in> set (bp_inputSysCh b). IsSystem (env_Frame env))
     \<and> (\<forall>env \<in> set (inside b). \<not> IsSystem (env_Frame env)) \<and> (\<not> bp_started b \<longrightarrow> bp_input b = InNotStarted)"

definition is_interrupt_event :: "event \<Rightarrow> bool" where
  "is_interrupt_event e = (case e of Dispatch env _ \<Rightarrow> env_Frame env = InterruptFrame | _ \<Rightarrow> False)"

definition bp_kept :: "'s base_processor \<Rightarrow> event list \<Rightarrow> bool" where
  "bp_kept b tr \<longleftrightarrow> subseq (dispatched tr @ inside b) (accepted tr)
     \<and> (\<not> bp_ctxDone b \<longrightarrow> keep_envs (dispatched tr @ inside b) = keep_envs (accepted tr))
     \<and> (\<not> bp_ctxDone b \<and> (\<forall>e \<in> set tr. \<not> is_interrupt_event e) \<longrightarrow> dispatched tr @ inside b = accepted tr)"

definition is_end_env :: "envelope \<Rightarrow> bool" where
  "is_end_env env = is_end (env_Frame env)"

definition bp_ended :: "'s base_processor \<Rightarrow> event list \<Rightarrow> bool" where
  "bp_ended b tr \<longleftrightarrow> (\<forall>env \<in> set (butlast (dispatched tr)). \<not> is_end_env env)
     \<and> (dispatched tr \<noteq> [] \<and> is_end_env (last (dispatched tr)) \<longrightarrow>
          bp_ctxDone b \<and> bp_cancelling b \<and> bp_proc b \<in> {PrCheck, PrExited})"

definition bp_inv :: "'s base_processor \<Rightarrow> event list \<Rightarrow> bool" where
  "bp_inv b tr \<longleftrightarrow> bp_bounds b \<and> bp_sorted b \<and> bp_kept b tr \<and> bp_ended b tr"

lemmas bp_inv_defs = bp_inv_def bp_bounds_def bp_sorted_def bp_kept_def bp_ended_def inside_def
  is_interrupt_event_def

lemma subseq_snoc: "subseq xs ys \<Longrightarrow> subseq (xs @ [e]) (ys @ [e])"
  by (simp add: subseq_append')

lemma subseq_longer: "subseq xs ys \<Longrightarrow> subseq xs (ys @ zs)"
  by (rule subseq_order.order_trans [of _ ys]) auto

lemma inv_init: "bp_inv (NewBaseProcessor name self) []"
  by (simp add: bp_inv_defs NewBaseProcessor_def)

lemma inv_queue:
  assumes inv: "bp_inv b tr" and out: "(evs, b') \<in> set (QueueFrame b f d)"
  shows "bp_inv b' (tr @ evs)"
proof -
  let ?env = "\<lparr>env_Frame = f, env_Direction = d\<rparr>"
  consider (same) "evs = []" "b' = b"
    | (sys) "IsSystem f" "evs = [Accept ?env]" "b' = b\<lparr>bp_inputSysCh := bp_inputSysCh b @ [?env]\<rparr>"
        "length (bp_inputSysCh b) < inputSysChCapacity"
    | (data) "\<not> IsSystem f" "evs = [Accept ?env]" "b' = b\<lparr>bp_inputDataCh := bp_inputDataCh b @ [?env]\<rparr>"
        "length (bp_inputDataCh b) < inputDataChCapacity"
    using out by (auto simp: QueueFrame_def Let_def split: if_splits)
  then show ?thesis
  proof cases
    case data
    have "subseq (dispatched tr @ inside b) (accepted tr)"
      using inv by (simp add: bp_inv_def bp_kept_def)
    from subseq_snoc [OF this, of ?env] inv data show ?thesis
      by (simp add: bp_inv_defs)
  qed (use inv in \<open>simp_all add: bp_inv_defs\<close>)
qed

lemma interrupt_outcome:
  assumes "b1 \<in> set (interruptProcessLoop b)"
  shows "\<exists>n. b1 = b\<lparr>bp_proc := PrCheck, bp_procCh := take n (keep_envs (bp_procCh b))\<rparr>
    \<and> (bp_ctxDone b \<or> n = length (keep_envs (bp_procCh b)))"
proof -
  have "\<exists>n. b1 = (startProcessLoop (b\<lparr>bp_procCh := []\<rparr>))\<lparr>bp_procCh := take n (keep_envs (bp_procCh b))\<rparr>
    \<and> (bp_ctxDone b \<or> n = length (keep_envs (bp_procCh b)))"
    using assms by (auto simp: interruptProcessLoop_def Let_def simp del: upt_Suc split: if_splits)
  then show ?thesis by (simp add: startProcessLoop_def)
qed

text \<open>An interrupt leaves everything of the invariant but the exact history.\<close>

lemma inv_interrupt:
  assumes inv: "bp_inv b tr" and out: "b1 \<in> set (interruptProcessLoop b)"
    and e: "is_interrupt_event (Dispatch env es)"
  shows "bp_inv b1 (tr @ [Dispatch env es])"
proof -
  from out obtain n where b1: "b1 = b\<lparr>bp_proc := PrCheck, bp_procCh := take n (keep_envs (bp_procCh b))\<rparr>"
    and n: "bp_ctxDone b \<or> n = length (keep_envs (bp_procCh b))"
    using interrupt_outcome by blast
  let ?q = "take n (keep_envs (bp_procCh b))"
  have sub: "subseq ?q (bp_procCh b)"
    by (rule subseq_order.order_trans [OF _ keep_envs_subseq]) (metis prefix_imp_subseq take_is_prefix)
  have len: "length ?q \<le> length (bp_procCh b)"
    using sub by (rule list_emb_length)
  have mem: "set ?q \<subseteq> set (bp_procCh b)"
    using sub by (auto dest: list_emb_set)
  have "subseq (dispatched tr @ ?q @ held (bp_input b) @ bp_inputDataCh b) (dispatched tr @ inside b)"
    using sub by (simp add: inside_def subseq_append')
  then have "subseq (dispatched tr @ ?q @ held (bp_input b) @ bp_inputDataCh b) (accepted tr)"
    by (rule subseq_order.order_trans) (use inv in \<open>simp add: bp_inv_def bp_kept_def\<close>)
  moreover have "IsSystem (env_Frame env)" using e by (auto simp: is_interrupt_event_def)
  ultimately show ?thesis
    using inv len mem n e by (auto simp: b1 bp_inv_defs)
qed

lemma handleSystem_outcome:
  assumes "(evs, b') \<in> set (handleSystem h b env)"
  obtains b1 es s' where "b' = b1\<lparr>bp_self := s'\<rparr>" "evs = [Dispatch env es]"
    "b1 \<in> set (if env_Frame env = InterruptFrame then interruptProcessLoop b else [b])"
proof -
  let ?f = "\<lambda>b1. let (s', es) = h (bp_self b1) (env_Frame env) (env_Direction env)
             in ([Dispatch env es], b1\<lparr>bp_self := s'\<rparr>)"
  have "(evs, b') \<in> ?f ` set (if env_Frame env = InterruptFrame then interruptProcessLoop b else [b])"
    using assms unfolding handleSystem_def set_map .
  then obtain b1 where "(evs, b') = ?f b1"
    "b1 \<in> set (if env_Frame env = InterruptFrame then interruptProcessLoop b else [b])"
    by (rule imageE)
  with that show thesis by (simp add: Let_def split_beta)
qed

lemma inv_handleSystem:
  assumes inv: "bp_inv b tr" and env: "IsSystem (env_Frame env)"
    and out: "(evs, b') \<in> set (handleSystem h b env)"
  shows "bp_inv b' (tr @ evs)"
proof -
  obtain b1 es s' where b': "b' = b1\<lparr>bp_self := s'\<rparr>" and evs: "evs = [Dispatch env es]"
    and b1: "b1 \<in> set (if env_Frame env = InterruptFrame then interruptProcessLoop b else [b])"
    using out by (rule handleSystem_outcome)
  have "bp_inv b1 (tr @ evs)"
  proof (cases "env_Frame env = InterruptFrame")
    case True
    with b1 show ?thesis
      using inv_interrupt [OF inv, of b1 env es] by (simp add: is_interrupt_event_def evs)
  next
    case False
    with b1 inv env show ?thesis by (simp add: evs bp_inv_defs)
  qed
  then show ?thesis by (simp add: b' bp_inv_defs)
qed

lemma held_exit: "subseq (dispatched tr @ bp_procCh b @ bp_inputDataCh b) (dispatched tr @ inside b)"
  by (simp add: inside_def subseq_append' list_emb_append2)

lemma inv_input_exit:
  assumes inv: "bp_inv b tr" and "bp_started b" and "(evs, b') \<in> set (input_exit b)"
  shows "bp_inv b' (tr @ evs)"
proof -
  have b': "evs = []" "b' = b\<lparr>bp_input := InExited\<rparr>" "bp_ctxDone b"
    using assms(3) by (auto simp: input_exit_def split: if_splits)
  have "subseq (dispatched tr @ bp_procCh b @ bp_inputDataCh b) (accepted tr)"
    by (rule subseq_order.order_trans [OF held_exit]) (use inv in \<open>simp add: bp_inv_def bp_kept_def\<close>)
  with inv assms(2) show ?thesis by (auto simp: b' bp_inv_defs)
qed

lemma inv_input_sys:
  assumes inv: "bp_inv b tr" and free: "held (bp_input b) = []" "bp_started b"
    and out: "(evs, b') \<in> set (input_sys h b)"
  shows "bp_inv b' (tr @ evs)"
proof -
  from out obtain env rest where ch: "bp_inputSysCh b = env # rest"
    and h: "(evs, b') \<in> set (handleSystem h (b\<lparr>bp_inputSysCh := rest, bp_input := InPriority\<rparr>) env)"
    by (cases "bp_inputSysCh b") (auto simp: input_sys_def)
  have "bp_inv (b\<lparr>bp_inputSysCh := rest, bp_input := InPriority\<rparr>) tr" and "IsSystem (env_Frame env)"
    using inv free by (auto simp: bp_inv_defs ch)
  with h show ?thesis by (rule inv_handleSystem [rotated 2])
qed

lemma inv_inputLoop:
  assumes inv: "bp_inv b tr" and out: "(evs, b') \<in> set (inputLoop h b)"
  shows "bp_inv b' (tr @ evs)"
proof -
  have started: "bp_input b \<noteq> InNotStarted \<Longrightarrow> bp_started b"
    using inv by (auto simp: bp_inv_defs)
  show ?thesis
  proof (cases "bp_input b")
    case InPriority
    with inv have fair: "bp_inv (b\<lparr>bp_input := InFair\<rparr>) tr" by (auto simp: bp_inv_defs)
    show ?thesis
      using out fair inv_input_exit [OF inv] inv_input_sys [OF inv] started
      by (auto simp: inputLoop_def InPriority Let_def split: if_splits)
  next
    case InFair
    have "bp_inv (b\<lparr>bp_inputDataCh := rest, bp_input := InHolding env\<rparr>) tr"
      if "bp_inputDataCh b = env # rest" for env rest
      using inv that InFair started by (auto simp: bp_inv_defs)
    then show ?thesis
      using out inv_input_exit [OF inv] inv_input_sys [OF inv] started
      by (auto simp: inputLoop_def InFair split: list.splits)
  next
    case (InHolding env)
    have "bp_inv (b\<lparr>bp_procCh := bp_procCh b @ [env], bp_input := InPriority\<rparr>) tr"
      if "length (bp_procCh b) < procChCapacity"
      using inv that InHolding started by (auto simp: bp_inv_defs)
    then show ?thesis
      using out inv_input_exit [OF inv] started
      by (auto simp: inputLoop_def InHolding split: if_splits)
  qed (use out in \<open>simp_all add: inputLoop_def\<close>)
qed

lemma inv_processLoop:
  assumes inv: "bp_inv b tr" and out: "(evs, b') \<in> set (processLoop h b)"
  shows "bp_inv b' (tr @ evs)"
proof (cases "bp_proc b")
  case PrSelect
  have none: "\<not> is_end_env e" if "e \<in> set (dispatched tr)" for e
  proof (cases "dispatched tr" rule: rev_cases)
    case (snoc xs x)
    with inv PrSelect have "\<not> is_end_env x" by (auto simp: bp_inv_def bp_ended_def)
    with inv that snoc show ?thesis by (auto simp: bp_inv_def bp_ended_def)
  qed (use that in simp)
  consider (exit) "bp_ctxDone b" "evs = []" "b' = b\<lparr>bp_proc := PrExited\<rparr>"
    | (take) env rest where "bp_procCh b = env # rest" "(evs, b') = process_one h b env rest"
    using out by (cases "bp_procCh b") (auto simp: processLoop_def PrSelect split: if_splits)
  then show ?thesis
  proof cases
    case exit
    with inv PrSelect show ?thesis by (auto simp: bp_inv_defs)
  next
    case (take env rest)
    have "\<not> IsSystem (env_Frame env)" using inv take(1) by (simp add: bp_inv_defs)
    with inv none take show ?thesis
      by (auto simp: process_one_def Let_def split_beta bp_inv_defs is_end_env_def)
  qed
next
  case PrCheck
  then show ?thesis
    using inv out by (auto simp: processLoop_def bp_inv_defs split: if_splits)
qed (use out in \<open>simp_all add: processLoop_def\<close>)

lemma inv_step: "bp_inv b tr \<Longrightarrow> bp_step h b evs b' \<Longrightarrow> bp_inv b' (tr @ evs)"
proof (erule bp_step_E)
  assume "bp_inv b tr" "evs = []" "b' = Start b"
  then show ?thesis
    by (auto simp: bp_inv_defs Start_def startProcessLoop_def)
next
  assume "bp_inv b tr" "evs = []" "b' = Stop b"
  then show ?thesis by (auto simp: bp_inv_defs Stop_def)
next
  assume "bp_inv b tr" "evs = []" "b' = b\<lparr>bp_ctxDone := True\<rparr>"
  then show ?thesis by (auto simp: bp_inv_defs)
qed (use inv_queue inv_inputLoop inv_processLoop in \<open>blast+\<close>)

lemma run_inv: "bp_run h b tr \<Longrightarrow> bp_inv b tr"
  by (induction rule: bp_run.induct) (auto intro: inv_init inv_step)

section \<open>Properties\<close>

text \<open>
  C6: bounded queues that keep order. In every interleaving the three channels respect their
  capacities, and the data frames a processor handles are, in order, among those it accepted; with
  no interrupt handled and the context alive they are exactly the oldest ones, the rest still being
  inside.
\<close>

theorem processor_fifo:
  assumes "bp_run h b tr"
  shows "length (bp_inputSysCh b) \<le> 16 \<and> length (bp_inputDataCh b) \<le> 100 \<and> length (bp_procCh b) \<le> 100
    \<and> subseq (dispatched tr) (accepted tr)
    \<and> (\<not> bp_ctxDone b \<and> (\<forall>e \<in> set tr. \<not> is_interrupt_event e)
         \<longrightarrow> accepted tr = dispatched tr @ inside b)"
proof -
  have "bp_inv b tr" using assms by (rule run_inv)
  moreover from this have "subseq (dispatched tr @ inside b) (accepted tr)"
    by (simp add: bp_inv_def bp_kept_def)
  then have "subseq (dispatched tr) (accepted tr)"
    by (rule subseq_order.order_trans [rotated]) (rule subseq_longer, rule subseq_order.order_refl)
  ultimately show ?thesis
    by (simp add: bp_inv_def bp_bounds_def bp_kept_def inputSysChCapacity_def inputDataChCapacity_def
        procChCapacity_def)
qed

text \<open>A run for the witnesses: a started processor is sent an \<open>EndFrame\<close> and forwards it.\<close>

definition echo :: "unit handler" where "echo s f d = (s, [Push f d])"

definition demo_env :: envelope where
  "demo_env = \<lparr>env_Frame = EndFrame ''done'', env_Direction = Downstream\<rparr>"

definition demo_state :: "envelope list \<Rightarrow> bool \<Rightarrow> input_pc \<Rightarrow> proc_pc \<Rightarrow> unit base_processor" where
  "demo_state q ended ipc ppc = \<lparr>bp_name = [], bp_self = (), bp_inputSysCh = [], bp_inputDataCh = [],
     bp_procCh = q, bp_ctxDone = ended, bp_cancelling = ended, bp_started = True,
     bp_input = ipc, bp_proc = ppc\<rparr>"

lemma demo_queued: "bp_run echo (demo_state [demo_env] False InPriority PrCheck) [Accept demo_env]"
proof -
  note sims = demo_state_def demo_env_def Start_def startProcessLoop_def NewBaseProcessor_def
    QueueFrame_def inputLoop_def input_exit_def input_sys_def Let_def inputDataChCapacity_def procChCapacity_def
  have "bp_run echo (demo_state [] False InPriority PrCheck) []"
    using bp_run.step [OF bp_run.init bp_step.start, of echo "[]" "()"] by (simp add: sims)
  then have "bp_run echo ((demo_state [] False InPriority PrCheck)\<lparr>bp_inputDataCh := [demo_env]\<rparr>) ([] @ [Accept demo_env])"
    by (rule bp_run.step [OF _ bp_step.queue [where f = "EndFrame ''done''" and d = Downstream]]) (simp add: sims)
  then have "bp_run echo ((demo_state [] False InFair PrCheck)\<lparr>bp_inputDataCh := [demo_env]\<rparr>) (([] @ [Accept demo_env]) @ [])"
    by (rule bp_run.step [OF _ bp_step.input]) (simp add: sims)
  then have "bp_run echo (demo_state [] False (InHolding demo_env) PrCheck) ((([] @ [Accept demo_env]) @ []) @ [])"
    by (rule bp_run.step [OF _ bp_step.input]) (simp add: sims)
  then have "bp_run echo (demo_state [demo_env] False InPriority PrCheck) (((([] @ [Accept demo_env]) @ []) @ []) @ [])"
    by (rule bp_run.step [OF _ bp_step.input]) (simp add: sims)
  then show ?thesis by simp
qed

lemma demo_handled:
  "bp_run echo (demo_state [] True InPriority PrExited)
     [Accept demo_env, Dispatch demo_env [Push (EndFrame ''done'') Downstream]]"
proof -
  note sims = demo_state_def demo_env_def processLoop_def process_one_def echo_def
  have "bp_run echo (demo_state [demo_env] False InPriority PrSelect) ([Accept demo_env] @ [])"
    by (rule bp_run.step [OF demo_queued bp_step.process]) (simp add: sims)
  then have "bp_run echo (demo_state [] True InPriority PrExited)
     (([Accept demo_env] @ []) @ [Dispatch demo_env [Push (EndFrame ''done'') Downstream]])"
    by (rule bp_run.step [OF _ bp_step.process]) (simp add: sims)
  then show ?thesis by simp
qed

theorem processor_fifo_witness:
  "\<exists>(b :: unit base_processor) tr. bp_run echo b tr \<and> accepted tr = inside b \<and> inside b = [demo_env]"
proof -
  let ?b = "demo_state [demo_env] False InPriority PrCheck"
  have "accepted [Accept demo_env] = dispatched [Accept demo_env] @ inside ?b"
    using processor_fifo [OF demo_queued] by (simp add: demo_state_def is_interrupt_event_def)
  then show ?thesis using demo_queued
    by (intro exI [of _ ?b] exI [of _ "[Accept demo_env]"]) (simp add: demo_env_def demo_state_def inside_def)
qed

text \<open>
  C22: interrupts lose nothing that must survive. As long as the processor's context is alive, the
  frames that are not interruptible (an \<open>EndFrame\<close>, a function call or its result) and were
  accepted have all been handled or are still inside, in order, however many interrupts were handled
  in between.
\<close>

theorem interrupts_keep_uninterruptible:
  assumes "bp_run h b tr" and "\<not> bp_ctxDone b"
  shows "keep_envs (accepted tr) = keep_envs (dispatched tr) @ keep_envs (inside b)"
  using run_inv [OF assms(1)] assms(2) by (simp add: bp_inv_def bp_kept_def)

theorem interrupts_keep_uninterruptible_witness:
  "let b = demo_state [demo_env] False InPriority PrCheck in
   bp_run echo b [Accept demo_env] \<and> \<not> bp_ctxDone b \<and> keep_envs (inside b) = [demo_env]"
proof -
  let ?b = "demo_state [demo_env] False InPriority PrCheck"
  have "\<not> bp_ctxDone ?b" by (simp add: demo_state_def)
  from interrupts_keep_uninterruptible [OF demo_queued this] this demo_queued show ?thesis
    by (simp add: demo_env_def Let_def)
qed

text \<open>
  An \<open>EndFrame\<close> is the last data frame a processor handles. Whatever is queued, interrupted
  or stopped around it, a run handles at most one \<open>EndFrame\<close>, no data frame after it, and has
  then cancelled its context and refuses new frames.
\<close>

theorem end_frame_last:
  assumes "bp_run h b tr"
  shows "length (filter is_end_env (dispatched tr)) \<le> 1
    \<and> (\<forall>env \<in> set (dispatched tr). is_end_env env \<longrightarrow>
          env = last (dispatched tr) \<and> bp_ctxDone b \<and> QueueFrame b f d = [([], b)])"
proof -
  have inv: "bp_ended b tr" using run_inv [OF assms] by (simp add: bp_inv_def)
  show ?thesis
  proof (cases "dispatched tr" rule: rev_cases)
    case (snoc xs x)
    with inv have none: "filter is_end_env xs = []" by (auto simp: bp_ended_def filter_empty_conv)
    from none have "\<forall>e \<in> set xs. \<not> is_end_env e" by (simp add: filter_empty_conv)
    with inv snoc none show ?thesis by (auto simp: bp_ended_def QueueFrame_def)
  qed simp
qed

theorem end_frame_last_witness:
  "let b = demo_state [] True InPriority PrExited;
       tr = [Accept demo_env, Dispatch demo_env [Push (EndFrame ''done'') Downstream]]
   in bp_run echo b tr \<and> dispatched tr = [demo_env] \<and> QueueFrame b BotStartedSpeakingFrame Downstream = [([], b)]"
  using end_frame_last [OF demo_handled, of BotStartedSpeakingFrame Downstream] demo_handled
  by (simp add: demo_env_def is_end_env_def Let_def)

text \<open>
  What an interrupt does to a processor. At the priority select, with a live context, the
  handling of an \<open>InterruptFrame\<close> has one outcome: \<open>procCh\<close> keeps exactly the frames that
  are not interruptible, a fresh process loop runs, and then the handler sees the interrupt; the
  frames still in \<open>inputDataCh\<close> are left as they are.
\<close>

theorem interrupt_step:
  assumes "bp_input b = InPriority" and "\<not> bp_ctxDone b"
    and "bp_inputSysCh b = \<lparr>env_Frame = InterruptFrame, env_Direction = d\<rparr> # rest"
  shows "inputLoop h b =
    [([Dispatch \<lparr>env_Frame = InterruptFrame, env_Direction = d\<rparr> (snd (h (bp_self b) InterruptFrame d))],
      b\<lparr>bp_inputSysCh := rest, bp_procCh := keep_envs (bp_procCh b), bp_proc := PrCheck,
        bp_self := fst (h (bp_self b) InterruptFrame d)\<rparr>)]"
  using assms
  by (simp add: inputLoop_def input_exit_def input_sys_def handleSystem_def interruptProcessLoop_def
      startProcessLoop_def Let_def split_beta)

theorem interrupt_step_witness:
  "let text = \<lparr>env_Frame = TextFrame ''a'', env_Direction = Downstream\<rparr>;
       stale = \<lparr>env_Frame = TextFrame ''b'', env_Direction = Downstream\<rparr>;
       int = \<lparr>env_Frame = InterruptFrame, env_Direction = Downstream\<rparr>;
       b = (demo_state [text, demo_env] False InPriority PrSelect)
             \<lparr>bp_inputSysCh := [int], bp_inputDataCh := [stale]\<rparr>
   in inputLoop echo b =
        [([Dispatch int [Push InterruptFrame Downstream]],
          (demo_state [demo_env] False InPriority PrCheck)\<lparr>bp_inputDataCh := [stale]\<rparr>)]"
proof -
  let ?text = "\<lparr>env_Frame = TextFrame ''a'', env_Direction = Downstream\<rparr>"
  let ?stale = "\<lparr>env_Frame = TextFrame ''b'', env_Direction = Downstream\<rparr>"
  let ?int = "\<lparr>env_Frame = InterruptFrame, env_Direction = Downstream\<rparr>"
  let ?b = "(demo_state [?text, demo_env] False InPriority PrSelect)
     \<lparr>bp_inputSysCh := [?int], bp_inputDataCh := [?stale]\<rparr>"
  have "bp_input ?b = InPriority" "\<not> bp_ctxDone ?b" "bp_inputSysCh ?b = ?int # []"
    by (simp_all add: demo_state_def)
  from interrupt_step [OF this, of echo] show ?thesis
    by (simp add: demo_state_def demo_env_def echo_def Let_def)
qed

text \<open>
  When a system frame waits. At the priority select a system frame goes ahead of every queued
  data frame; but once the input loop has taken a data frame it can do nothing until \<open>procCh\<close>
  has room or the context is cancelled: with \<open>procCh\<close> full even an interrupt waits for the
  handler that is running.
\<close>

theorem system_priority:
  "(\<not> bp_ctxDone b \<and> bp_input b = InPriority \<and> bp_inputSysCh b = env # rest \<longrightarrow>
      inputLoop h b = handleSystem h (b\<lparr>bp_inputSysCh := rest\<rparr>) env)
 \<and> (\<not> bp_ctxDone b \<and> bp_input b = InHolding held_env \<and> length (bp_procCh b) \<ge> 100 \<longrightarrow>
      inputLoop h b = [])"
proof -
  have same: "b\<lparr>bp_inputSysCh := rest, bp_input := InPriority\<rparr> = b\<lparr>bp_inputSysCh := rest\<rparr>"
    if "bp_input b = InPriority" using that by simp
  have "handleSystem h c env \<noteq> []" if "\<not> bp_ctxDone c" for c
    using that by (simp add: handleSystem_def interruptProcessLoop_def Let_def)
  then show ?thesis
    by (auto simp: inputLoop_def input_exit_def input_sys_def procChCapacity_def same)
qed

theorem system_priority_witness:
  "let b = (demo_state (replicate 100 demo_env) False (InHolding demo_env) PrCheck)
             \<lparr>bp_inputSysCh := [\<lparr>env_Frame = InterruptFrame, env_Direction = Downstream\<rparr>]\<rparr>
   in inputLoop echo b = []"
  using system_priority [of "(demo_state (replicate 100 demo_env) False (InHolding demo_env) PrCheck)
     \<lparr>bp_inputSysCh := [\<lparr>env_Frame = InterruptFrame, env_Direction = Downstream\<rparr>]\<rparr>"]
  by (simp add: demo_state_def)

section \<open>The purge of \<open>procCh\<close>\<close>

interpretation proc_purge: interrupt_purge keep_envs "map env_Frame"
  by unfold_locales (simp add: keep_envs_def filter_map o_def)

end
