(* ===== verification/Idle.thy ===== *)
theory Idle
  imports Frames
begin

text \<open>
  The two processors that end a call by a clock: \<open>UserIdleProcessor\<close>
  (\<open>user_idle_processor.go\<close>) and \<open>TalkTimeMonitoringProcessor\<close>
  (\<open>talktime_monitoring_processor.go\<close>). Their timers are explicit: a timer is armed or not, an
  expiry starts its callback, and a callback that has started can no longer be stopped.
\<close>

section \<open>UserIdleProcessor\<close>

definition idleTimeout :: duration where "idleTimeout = 7 * second"
definition maxIdlePrompts :: int where "maxIdlePrompts = 7"
definition idlePromptText :: string where "idlePromptText = ''Hello?''"
definition cancelOnIdleTimeout :: duration where "cancelOnIdleTimeout = 120 * second"

text \<open>
  \<open>ui_armed\<close>: the deadline of \<open>idleTimer\<close> while it can still be stopped; \<open>ui_firing\<close>: callbacks
  that have started and not yet run; \<open>ui_reset\<close>: the one-slot \<open>cancelResetCh\<close>.
\<close>

record user_idle =
  ui_armed :: "gotime option"
  ui_firing :: nat
  ui_idlePromptCount :: int
  ui_reset :: bool

definition NewUserIdleProcessor :: user_idle where
  "NewUserIdleProcessor = \<lparr>ui_armed = None, ui_firing = 0, ui_idlePromptCount = 0, ui_reset = False\<rparr>"

definition markActivity :: "user_idle \<Rightarrow> user_idle" where
  "markActivity p = p\<lparr>ui_reset := True\<rparr>"

definition cancelIdleTimer :: "user_idle \<Rightarrow> user_idle" where
  "cancelIdleTimer p = p\<lparr>ui_armed := None\<rparr>"

definition startIdleTimer :: "gotime \<Rightarrow> user_idle \<Rightarrow> user_idle" where
  "startIdleTimer now p =
     (let p1 = cancelIdleTimer p
      in if ui_idlePromptCount p1 \<ge> maxIdlePrompts then p1
         else p1\<lparr>ui_armed := Some (now + idleTimeout)\<rparr>)"

text \<open>The callback given to \<open>time.AfterFunc\<close>, once for each started callback.\<close>

definition idleCallback :: "user_idle \<Rightarrow> user_idle \<times> effect list" where
  "idleCallback p =
     (if ui_firing p = 0 then (p, [])
      else let count = wrap32 (ui_idlePromptCount p + 1);
               p1 = p\<lparr>ui_firing := ui_firing p - 1, ui_idlePromptCount := count\<rparr>
           in if count > maxIdlePrompts then (p1, [])
              else if count = maxIdlePrompts then
                (p1, [Push (TTSSpeakFrame idlePromptText) Downstream, EndTask EndReasonUserIdle])
              else (p1, [Push (TTSSpeakFrame idlePromptText) Downstream]))"

text \<open>The runtime: an armed timer whose deadline has passed starts its callback.\<close>

definition idleExpire :: "gotime \<Rightarrow> user_idle \<Rightarrow> user_idle" where
  "idleExpire now p =
     (case ui_armed p of
        Some deadline \<Rightarrow> if deadline \<le> now then p\<lparr>ui_armed := None, ui_firing := ui_firing p + 1\<rparr> else p
      | None \<Rightarrow> p)"

fun ui_process :: "gotime \<Rightarrow> user_idle \<Rightarrow> frame \<Rightarrow> direction \<Rightarrow> user_idle \<times> effect list" where
  "ui_process now p (EndFrame reason) dir = (cancelIdleTimer p, [Push (EndFrame reason) dir])"
| "ui_process now p (TranscriptFrame t b r fin) dir =
     ((cancelIdleTimer (markActivity p))\<lparr>ui_idlePromptCount := 0\<rparr>, [Push (TranscriptFrame t b r fin) dir])"
| "ui_process now p BotStartedSpeakingFrame dir = (cancelIdleTimer (markActivity p), [])"
| "ui_process now p BotStoppedSpeakingFrame dir = (startIdleTimer now (markActivity p), [])"
| "ui_process now p (FunctionCallInProgressFrame n i a r c) dir =
     (cancelIdleTimer (markActivity p), [Push (FunctionCallInProgressFrame n i a r c) dir])"
| "ui_process now p (FunctionCallResultFrame n i a r res l) dir =
     (startIdleTimer now (markActivity p), [Push (FunctionCallResultFrame n i a r res l) dir])"
| "ui_process now p frame dir = (p, [Push frame dir])"

text \<open>
  \<open>runCancelWatchdog\<close>: one turn of its select, at a time. The watchdog is its deadline, or \<open>None\<close>
  once it has returned; several ready cases are several outcomes.
\<close>

definition runCancelWatchdog ::
    "gotime \<Rightarrow> bool \<Rightarrow> user_idle \<Rightarrow> gotime option \<Rightarrow> (user_idle \<times> gotime option \<times> effect list) list" where
  "runCancelWatchdog now ctxDone p wd =
     (case wd of None \<Rightarrow> []
      | Some deadline \<Rightarrow>
          (if ctxDone then [(p, None, [])] else []) @
          (if ui_reset p then [(p\<lparr>ui_reset := False\<rparr>, Some (now + cancelOnIdleTimeout), [])] else []) @
          (if deadline \<le> now then [(p, None, [EndTask EndReasonUserIdle])] else []))"

section \<open>A call seen by the idle processor\<close>

datatype idle_event = IdleFrame gotime frame direction | IdleExpire gotime | IdleCallback

fun idle_step :: "user_idle \<Rightarrow> idle_event \<Rightarrow> user_idle \<times> effect list" where
  "idle_step p (IdleFrame now f d) = ui_process now p f d"
| "idle_step p (IdleExpire now) = (idleExpire now p, [])"
| "idle_step p IdleCallback = idleCallback p"

fun idle_run :: "user_idle \<Rightarrow> idle_event list \<Rightarrow> user_idle \<times> effect list" where
  "idle_run p [] = (p, [])"
| "idle_run p (e # es) =
     (let (p1, out) = idle_step p e; (p2, outs) = idle_run p1 es in (p2, out @ outs))"

text \<open>What the user is not: an event that carries speech of the user, or a prompt of another processor.\<close>

fun silent :: "idle_event \<Rightarrow> bool" where
  "silent (IdleFrame _ (TranscriptFrame _ _ _ _) _) = False"
| "silent (IdleFrame _ (TTSSpeakFrame _) _) = False"
| "silent _ = True"

definition prompts :: "effect list \<Rightarrow> nat" where
  "prompts es = length (filter (\<lambda>e. e = Push (TTSSpeakFrame idlePromptText) Downstream) es)"

definition end_requests :: "effect list \<Rightarrow> nat" where
  "end_requests es = length (filter (\<lambda>e. case e of EndTask _ \<Rightarrow> True | _ \<Rightarrow> False) es)"

lemma prompt_counts [simp]:
  "prompts [] = 0" "prompts (es @ fs) = prompts es + prompts fs"
  "end_requests [] = 0" "end_requests (es @ fs) = end_requests es + end_requests fs"
  "prompts (Push f d # es) = (if f = TTSSpeakFrame idlePromptText \<and> d = Downstream then 1 else 0) + prompts es"
  "end_requests (Push f d # es) = end_requests es"
  "prompts (EndTask r # es) = prompts es" "end_requests (EndTask r # es) = Suc (end_requests es)"
  by (simp_all add: prompts_def end_requests_def)

text \<open>One silent event: the count grows by the prompts issued until it reaches the limit.\<close>

definition capped :: "int \<Rightarrow> nat" where
  "capped c = nat (min c maxIdlePrompts)"

lemma silent_step:
  assumes "silent e" and c: "0 \<le> ui_idlePromptCount p" "ui_idlePromptCount p < 2 ^ 31 - 1"
  shows "ui_idlePromptCount p \<le> ui_idlePromptCount (fst (idle_step p e))"
    and "ui_idlePromptCount (fst (idle_step p e)) \<le> ui_idlePromptCount p + 1"
    and "capped (ui_idlePromptCount (fst (idle_step p e))) =
      capped (ui_idlePromptCount p) + prompts (snd (idle_step p e))"
    and "end_requests (snd (idle_step p e)) =
      (if ui_idlePromptCount p < maxIdlePrompts \<and> maxIdlePrompts \<le> ui_idlePromptCount (fst (idle_step p e))
       then 1 else 0)"
proof -
  let ?c' = "ui_idlePromptCount (fst (idle_step p e))"
  have wrap: "wrap32 (ui_idlePromptCount p + 1) = ui_idlePromptCount p + 1"
    using c by (simp add: wrap32_id)
  have fire: "ui_idlePromptCount p \<le> ?c' \<and> ?c' \<le> ui_idlePromptCount p + 1
      \<and> capped ?c' = capped (ui_idlePromptCount p) + prompts (snd (idle_step p e))
      \<and> end_requests (snd (idle_step p e)) =
        (if ui_idlePromptCount p < maxIdlePrompts \<and> maxIdlePrompts \<le> ?c' then 1 else 0)"
  proof (cases e)
    case (IdleFrame now f d)
    with assms show ?thesis
      by (cases f) (auto simp: cancelIdleTimer_def markActivity_def startIdleTimer_def Let_def)
  next
    case (IdleExpire now)
    then show ?thesis using c by (auto simp: idleExpire_def split: option.split)
  next
    case IdleCallback
    then show ?thesis using c
      by (auto simp: idleCallback_def Let_def wrap capped_def maxIdlePrompts_def)
  qed
  then show "ui_idlePromptCount p \<le> ?c'" "?c' \<le> ui_idlePromptCount p + 1"
    "capped ?c' = capped (ui_idlePromptCount p) + prompts (snd (idle_step p e))"
    "end_requests (snd (idle_step p e)) =
      (if ui_idlePromptCount p < maxIdlePrompts \<and> maxIdlePrompts \<le> ?c' then 1 else 0)"
    by simp_all
qed

lemma silent_run:
  assumes "\<forall>e \<in> set es. silent e" and "0 \<le> ui_idlePromptCount p"
    and "ui_idlePromptCount p + int (length es) < 2 ^ 31"
  shows "ui_idlePromptCount p \<le> ui_idlePromptCount (fst (idle_run p es))
    \<and> capped (ui_idlePromptCount (fst (idle_run p es))) =
        capped (ui_idlePromptCount p) + prompts (snd (idle_run p es))
    \<and> end_requests (snd (idle_run p es)) =
        (if ui_idlePromptCount p < maxIdlePrompts
            \<and> maxIdlePrompts \<le> ui_idlePromptCount (fst (idle_run p es)) then 1 else 0)"
  using assms
proof (induction es arbitrary: p)
  case (Cons e es)
  let ?q = "fst (idle_step p e)"
  have e: "silent e" "0 \<le> ui_idlePromptCount p" "ui_idlePromptCount p < 2 ^ 31 - 1"
    using Cons.prems by auto
  note st = silent_step [OF e]
  have "ui_idlePromptCount ?q + int (length es) < 2 ^ 31" "0 \<le> ui_idlePromptCount ?q"
    using st(1,2) Cons.prems by auto
  with Cons.IH [of ?q] Cons.prems st show ?case
    by (simp add: split_beta Let_def)
qed simp

text \<open>
  A silent user is prompted at most seven times. From the start of a call, or from any moment
  the user has just spoken, as long as the user stays silent the processor speaks the idle prompt
  at most seven times and asks for the end of the call at most once, and it does so exactly when the
  seventh prompt has been spoken; then no timer is armed any more.
\<close>

theorem idle_prompts_bounded:
  assumes "ui_idlePromptCount p = 0" and "\<forall>e \<in> set es. silent e" and "length es < 2 ^ 31"
  shows "let (q, out) = idle_run p es
         in prompts out \<le> 7 \<and> end_requests out \<le> 1 \<and> (end_requests out = 1 \<longleftrightarrow> prompts out = 7)
          \<and> (prompts out = 7 \<longrightarrow> ui_armed (startIdleTimer now q) = None)"
proof -
  let ?c = "ui_idlePromptCount (fst (idle_run p es))"
  have run: "0 \<le> ?c" "capped ?c = prompts (snd (idle_run p es))"
    "end_requests (snd (idle_run p es)) = (if maxIdlePrompts \<le> ?c then 1 else 0)"
    using silent_run [of es p] assms by (simp_all add: capped_def maxIdlePrompts_def)
  have "capped ?c \<le> 7" "capped ?c = 7 \<longleftrightarrow> maxIdlePrompts \<le> ?c"
    using run(1) by (auto simp: capped_def maxIdlePrompts_def)
  with run show ?thesis
    by (auto simp: split_beta startIdleTimer_def cancelIdleTimer_def Let_def)
qed

theorem idle_prompts_bounded_witness:
  "let p = NewUserIdleProcessor;
       es = concat (replicate 7 [IdleFrame 1 BotStoppedSpeakingFrame Upstream, IdleExpire (1 + idleTimeout), IdleCallback])
   in ui_idlePromptCount p = 0 \<and> (\<forall>e \<in> set es. silent e) \<and> length es < 2 ^ 31
    \<and> prompts (snd (idle_run p es)) = 7 \<and> end_requests (snd (idle_run p es)) = 1"
proof -
  let ?p = "NewUserIdleProcessor"
  let ?es = "concat (replicate 7 [IdleFrame 1 BotStoppedSpeakingFrame Upstream, IdleExpire (1 + idleTimeout), IdleCallback])"
  have seven: "replicate 7 x = [x, x, x, x, x, x, x]" for x :: "idle_event list"
    by (simp add: numeral_eq_Suc)
  have h: "ui_idlePromptCount ?p = 0" "\<forall>e \<in> set ?es. silent e" "length ?es < 2 ^ 31"
    by (simp_all add: NewUserIdleProcessor_def seven)
  have "prompts (snd (idle_run ?p ?es)) = 7"
    unfolding seven
    by (simp add: NewUserIdleProcessor_def startIdleTimer_def cancelIdleTimer_def markActivity_def
        idleExpire_def idleCallback_def maxIdlePrompts_def wrap32_def)
  with idle_prompts_bounded [OF h] h show ?thesis by (simp add: split_beta Let_def)
qed

interpretation user_idle_chain: end_forwarder "ui_process now" for now
proof unfold_locales
  fix f r d' s d
  assume "\<not> is_end f"
  then show "(EndFrame r, d') \<notin> set (pushes (snd (ui_process now s f d)))"
    by (cases f) auto
qed simp

section \<open>TalkTimeMonitoringProcessor\<close>

definition defaultMaxTalkTime :: duration where "defaultMaxTalkTime = 120 * second"

definition talkTimeExceededPrompt :: string where
  "talkTimeExceededPrompt = ''Your talk time is exhausted now. Ending the call.''"

text \<open>\<open>tt_started\<close> is the closing of \<open>startUserCh\<close>; the timer goroutine waits for it, then for
  its deadline, then returns.\<close>

datatype talk_timer = AwaitingSpeech | Counting gotime | TimerDone

record talk_time =
  tt_maxTalkTime :: duration
  tt_ending :: bool
  tt_started :: bool
  tt_timer :: talk_timer

definition NewTalkTimeMonitoringProcessorWithMaxTalkTime :: "duration \<Rightarrow> talk_time" where
  "NewTalkTimeMonitoringProcessorWithMaxTalkTime maxTalkTime =
     \<lparr>tt_maxTalkTime = maxTalkTime, tt_ending = False, tt_started = False, tt_timer = AwaitingSpeech\<rparr>"

definition NewTalkTimeMonitoringProcessor :: talk_time where
  "NewTalkTimeMonitoringProcessor = NewTalkTimeMonitoringProcessorWithMaxTalkTime defaultMaxTalkTime"

definition armOnFirstSpeech :: "talk_time \<Rightarrow> talk_time" where
  "armOnFirstSpeech p = (if tt_started p then p else p\<lparr>tt_started := True\<rparr>)"

text \<open>One turn of \<open>runTimer\<close> at a time: the outcomes of the select it stands at.\<close>

definition runTimer :: "gotime \<Rightarrow> bool \<Rightarrow> talk_time \<Rightarrow> (talk_time \<times> effect list) list" where
  "runTimer now ctxDone p =
     (let gone = (if ctxDone then [(p\<lparr>tt_timer := TimerDone\<rparr>, [])] else [])
      in case tt_timer p of
           AwaitingSpeech \<Rightarrow>
             gone @ (if tt_started p then [(p\<lparr>tt_timer := Counting (now + tt_maxTalkTime p)\<rparr>, [])] else [])
         | Counting deadline \<Rightarrow>
             gone @
             (if deadline \<le> now then
                (if tt_ending p then [(p\<lparr>tt_timer := TimerDone\<rparr>, [])]
                 else [(p\<lparr>tt_timer := TimerDone, tt_ending := True\<rparr>,
                        [UI (ServerMessage (MapPayload [(''type'', JsonValue (JStr ''talktime_exhausted''))])) now,
                         Push InterruptFrame Downstream,
                         Push (TTSSpeakFrame talkTimeExceededPrompt) Downstream,
                         EndTask EndReasonTalkTimeExhausted])])
              else [])
         | TimerDone \<Rightarrow> [])"

fun tt_process :: "talk_time \<Rightarrow> frame \<Rightarrow> direction \<Rightarrow> talk_time \<times> effect list" where
  "tt_process p (EndFrame reason) dir = (p, [Push (EndFrame reason) dir])"
| "tt_process p InterruptFrame dir = (if tt_ending p then (p, []) else (p, [Push InterruptFrame dir]))"
| "tt_process p (LLMMessagesFrame ms) dir = (armOnFirstSpeech p, [Push (LLMMessagesFrame ms) dir])"
| "tt_process p frame dir = (if tt_ending p \<and> dir = Downstream then (p, []) else (p, [Push frame dir]))"

interpretation talk_chain: end_forwarder tt_process
proof unfold_locales
  fix f r d' s d
  assume "\<not> is_end f"
  then show "(EndFrame r, d') \<notin> set (pushes (snd (tt_process s f d)))"
    by (cases f) auto
qed simp

interpretation talk_once: one_shot "\<lambda>(u :: unit). armOnFirstSpeech" "\<lambda>u p. \<not> tt_started p" tt_started
  by unfold_locales (auto simp: armOnFirstSpeech_def)

text \<open>
  The talk-time gate. While the closing prompt is on its way nothing else gets through
  downstream: every frame but an \<open>EndFrame\<close> and an \<open>LLMMessagesFrame\<close> is dropped, in
  particular the interrupts; those two, and everything upstream except an interrupt, still pass.
\<close>

theorem talk_time_gate:
  assumes "tt_ending p"
  shows "pushes (snd (tt_process p f d)) =
    (if is_end f \<or> (\<exists>ms. f = LLMMessagesFrame ms) \<or> (d = Upstream \<and> f \<noteq> InterruptFrame)
     then [(f, d)] else [])"
  using assms by (cases d; cases f) auto

theorem talk_time_gate_witness:
  "let p = NewTalkTimeMonitoringProcessor\<lparr>tt_ending := True\<rparr> in tt_ending p
    \<and> pushes (snd (tt_process p InterruptFrame Downstream)) = []
    \<and> pushes (snd (tt_process p (LLMMessagesFrame []) Downstream)) = [(LLMMessagesFrame [], Downstream)]"
proof -
  let ?p = "NewTalkTimeMonitoringProcessor\<lparr>tt_ending := True\<rparr>"
  have e: "tt_ending ?p" by simp
  show ?thesis
    using talk_time_gate [OF e, of InterruptFrame Downstream] talk_time_gate [OF e, of "LLMMessagesFrame []" Downstream] e
    by (simp add: Let_def)
qed

text \<open>A talk-time call: frames, and turns of the timer, in any order.\<close>

inductive tt_step :: "talk_time \<Rightarrow> effect list \<Rightarrow> talk_time \<Rightarrow> bool" where
  frame: "tt_process p f d = (p', es) \<Longrightarrow> tt_step p es p'"
| timer: "(p', es) \<in> set (runTimer now ctxDone p) \<Longrightarrow> tt_step p es p'"

inductive tt_run :: "duration \<Rightarrow> talk_time \<Rightarrow> effect list \<Rightarrow> bool" for m where
  init: "tt_run m (NewTalkTimeMonitoringProcessorWithMaxTalkTime m) []"
| step: "tt_run m p es \<Longrightarrow> tt_step p es' p' \<Longrightarrow> tt_run m p' (es @ es')"

definition tt_inv :: "duration \<Rightarrow> talk_time \<Rightarrow> effect list \<Rightarrow> bool" where
  "tt_inv m p es \<longleftrightarrow> tt_maxTalkTime p = m
     \<and> end_requests es = (if tt_ending p then 1 else 0)
     \<and> (tt_ending p \<longrightarrow> tt_timer p = TimerDone \<and> tt_started p)
     \<and> (tt_timer p \<in> range Counting \<longrightarrow> tt_started p)
     \<and> (tt_started p \<longrightarrow> (\<exists>ms d. Push (LLMMessagesFrame ms) d \<in> set es))"

lemma tt_process_ends: "end_requests (snd (tt_process p f d)) = 0"
  by (cases f) auto

lemma tt_process_state:
  "fst (tt_process p f d) = (if (\<exists>ms. f = LLMMessagesFrame ms) then p\<lparr>tt_started := True\<rparr> else p)"
  by (cases f) (auto simp: armOnFirstSpeech_def)

lemma tt_run_inv: "tt_run m p es \<Longrightarrow> tt_inv m p es"
proof (induction rule: tt_run.induct)
  case init
  then show ?case by (auto simp: tt_inv_def NewTalkTimeMonitoringProcessorWithMaxTalkTime_def)
next
  case (step p es es' p')
  from step.hyps(2) step.IH show ?case
  proof (cases rule: tt_step.cases)
    case (frame f d)
    then have "p' = fst (tt_process p f d)" "es' = snd (tt_process p f d)" by simp_all
    show ?thesis
    proof (cases "\<exists>ms. f = LLMMessagesFrame ms")
      case True
      then obtain ms where "Push (LLMMessagesFrame ms) d \<in> set es'"
        using \<open>es' = _\<close> by auto
      with True step.IH tt_process_ends [of p f d] \<open>p' = _\<close> \<open>es' = snd _\<close> show ?thesis
        by (auto simp: tt_inv_def tt_process_state)
    next
      case False
      with step.IH tt_process_ends [of p f d] \<open>p' = _\<close> \<open>es' = snd _\<close> show ?thesis
        by (auto simp: tt_inv_def tt_process_state)
    qed
  next
    case (timer now ctxDone)
    with step.IH show ?thesis
      by (auto simp: tt_inv_def runTimer_def Let_def end_requests_def split: talk_timer.splits if_splits)
  qed
qed

text \<open>
  The talk-time budget ends a call once and only after speech. In any interleaving of frames
  and timer turns the monitor asks for the end of the call at most once; it does so exactly when it
  enters its ending state, and only if a committed user turn passed it before.
\<close>

theorem talk_time_ends_once:
  assumes "tt_run m p es"
  shows "end_requests es = (if tt_ending p then 1 else 0)
    \<and> (tt_ending p \<longrightarrow> (\<exists>ms d. Push (LLMMessagesFrame ms) d \<in> set es))"
  using tt_run_inv [OF assms] by (auto simp: tt_inv_def)

theorem talk_time_ends_once_witness:
  "\<exists>p es. tt_run 5 p es \<and> tt_ending p \<and> end_requests es = 1"
proof -
  let ?p0 = "NewTalkTimeMonitoringProcessorWithMaxTalkTime 5"
  let ?p1 = "?p0\<lparr>tt_started := True\<rparr>"
  let ?out = "[UI (ServerMessage (MapPayload [(''type'', JsonValue (JStr ''talktime_exhausted''))])) 15,
    Push InterruptFrame Downstream, Push (TTSSpeakFrame talkTimeExceededPrompt) Downstream,
    EndTask EndReasonTalkTimeExhausted]"
  have "tt_run 5 ?p1 ([] @ [Push (LLMMessagesFrame []) Downstream])"
    by (rule tt_run.step [OF tt_run.init tt_step.frame [where f = "LLMMessagesFrame []" and d = Downstream]])
       (simp add: armOnFirstSpeech_def NewTalkTimeMonitoringProcessorWithMaxTalkTime_def)
  then have "tt_run 5 (?p1\<lparr>tt_timer := Counting 15\<rparr>) (([] @ [Push (LLMMessagesFrame []) Downstream]) @ [])"
    by (rule tt_run.step [OF _ tt_step.timer [where now = 10 and ctxDone = False]])
       (simp add: runTimer_def NewTalkTimeMonitoringProcessorWithMaxTalkTime_def)
  then have r: "tt_run 5 (?p1\<lparr>tt_timer := TimerDone, tt_ending := True\<rparr>)
      ((([] @ [Push (LLMMessagesFrame []) Downstream]) @ []) @ ?out)"
    by (rule tt_run.step [OF _ tt_step.timer [where now = 15 and ctxDone = False]])
       (simp add: runTimer_def NewTalkTimeMonitoringProcessorWithMaxTalkTime_def)
  from talk_time_ends_once [OF r] r show ?thesis by fastforce
qed

end
