(* ===== verification/AudioFmt.thy ===== *)
theory AudioFmt
  imports Frames GoFloat
begin

text \<open>
  Samples and bytes: 16-bit little-endian PCM, the frame sizes (\<open>audio_format.go\<close>), the resampler
  and the stereo fold of the background loop (\<open>playback_sink_processor.go\<close>), and the mu-law encoder
  of the telephone path (\<open>g711.go\<close>). An \<open>int16\<close> is an \<open>int\<close> in its range.
\<close>

unbundle bit_operations_syntax

section \<open>PCM\<close>

text \<open>\<open>binary.LittleEndian.Uint16\<close> read as \<open>int16\<close>; an odd last byte is not a sample.\<close>

fun pcm_samples :: "byte list \<Rightarrow> int list" where
  "pcm_samples (lo # hi # rest) = sint (word_cat hi lo :: 16 word) # pcm_samples rest"
| "pcm_samples _ = []"

text \<open>\<open>binary.LittleEndian.PutUint16\<close> of every sample.\<close>

fun pcm_bytes :: "int list \<Rightarrow> byte list" where
  "pcm_bytes [] = []"
| "pcm_bytes (s # ss) =
     (let w = (word_of_int s :: 16 word) in [ucast w, ucast (drop_bit 8 w)] @ pcm_bytes ss)"

definition is_int16 :: "int \<Rightarrow> bool" where
  "is_int16 s = (- 32768 \<le> s \<and> s < 32768)"

lemma pcm_bytes_length [simp]: "length (pcm_bytes ss) = 2 * length ss"
  by (induction ss) (simp_all add: Let_def)

lemma word16_split: "(word_cat (ucast (drop_bit 8 w) :: byte) (ucast w :: byte) :: 16 word) = w"
  by (rule bit_word_eqI) (auto simp: bit_word_cat_iff bit_ucast_iff bit_drop_bit_eq)

lemma pcm_samples_int16: "s \<in> set (pcm_samples bs) \<Longrightarrow> is_int16 s"
proof (induction bs rule: pcm_samples.induct)
  case (1 lo hi rest)
  have "- 32768 \<le> sint (w :: 16 word) \<and> sint w < 32768" for w
    using sint_range_size [of w] by (simp add: word_size)
  with 1 show ?case by (auto simp: is_int16_def)
qed simp_all

text \<open>
  Samples survive the wire format. Encoding any 16-bit samples as little-endian bytes and
  decoding them gives the samples back.
\<close>

theorem pcm_roundtrip:
  assumes "\<forall>s \<in> set ss. is_int16 s"
  shows "pcm_samples (pcm_bytes ss) = ss"
  using assms
proof (induction ss)
  case (Cons s ss)
  have "sint (word_of_int s :: 16 word) = s"
    using Cons.prems by (auto simp: is_int16_def sint_sbintrunc' signed_take_bit_int_eq_self)
  with Cons show ?case by (simp add: Let_def word16_split)
qed simp

theorem pcm_roundtrip_witness:
  "list_all is_int16 [0, 1, -1, 32767, -32768] \<and>
   pcm_samples (pcm_bytes [0, 1, -1, 32767, -32768]) = [0, 1, -1, 32767, -32768]"
proof -
  have h: "\<forall>s \<in> set [0, 1, -1, 32767, -32768]. is_int16 s" by (simp add: is_int16_def)
  from pcm_roundtrip [OF h] h show ?thesis by (simp add: list_all_iff)
qed

section \<open>Frame sizes\<close>

definition defaultOutputSampleRate :: int where "defaultOutputSampleRate = 24000"
definition playbackFrameDuration :: duration where "playbackFrameDuration = 20 * millisecond"
definition pcmBytesPerSample :: int where "pcmBytesPerSample = 2"

definition framePCM :: int where
  "framePCM = quot (defaultOutputSampleRate * quot playbackFrameDuration millisecond) 1000"

definition framePCMBytes :: int where "framePCMBytes = framePCM * pcmBytesPerSample"

text \<open>\<open>None\<close> is a task without a room.\<close>

definition outputSampleRateFromRoom :: "int option \<Rightarrow> int" where
  "outputSampleRateFromRoom room =
     (case room of None \<Rightarrow> defaultOutputSampleRate
      | Some rate \<Rightarrow> if rate \<le> 0 then defaultOutputSampleRate else rate)"

definition pcmSamplesPerFrameForRate :: "int \<Rightarrow> int" where
  "pcmSamplesPerFrameForRate sampleRate =
     (let rate = (if sampleRate \<le> 0 then defaultOutputSampleRate else sampleRate)
      in quot (wrap64 (rate * quot playbackFrameDuration millisecond)) 1000)"

definition pcmFrameBytesForRate :: "int \<Rightarrow> int" where
  "pcmFrameBytesForRate sampleRate = wrap64 (pcmSamplesPerFrameForRate sampleRate * pcmBytesPerSample)"

lemma frame_sizes: "framePCM = 480" "framePCMBytes = 960"
  by (simp_all add: framePCM_def framePCMBytes_def defaultOutputSampleRate_def playbackFrameDuration_def
      millisecond_def pcmBytesPerSample_def quot_def)

section \<open>The background loop\<close>

text \<open>The left and right channels of each four bytes, averaged with Go's truncating division.\<close>

fun stereo_to_mono :: "int list \<Rightarrow> int list" where
  "stereo_to_mono (left # right # rest) = quot (left + right) 2 # stereo_to_mono rest"
| "stereo_to_mono _ = []"

definition resample_at :: "int list \<Rightarrow> int \<Rightarrow> int \<Rightarrow> int \<Rightarrow> int" where
  "resample_at samples sourceRate targetRate i =
     (let posNum = i * sourceRate;
          idx = quot posNum targetRate
      in if idx \<ge> int (length samples) - 1 then samples ! (length samples - 1)
         else let r = rem posNum targetRate;
                  a = samples ! nat idx;
                  b = samples ! (nat idx + 1)
              in wrap16 (quot (a * (targetRate - r) + b * r) targetRate))"

definition resampleMonoPCM :: "int list \<Rightarrow> int \<Rightarrow> int \<Rightarrow> int list" where
  "resampleMonoPCM samples sourceRate targetRate =
     (if length samples = 0 \<or> sourceRate \<le> 0 \<or> targetRate \<le> 0 \<or> sourceRate = targetRate then samples
      else let outLen = quot (int (length samples) * targetRate + quot sourceRate 2) sourceRate
           in if outLen \<le> 0 then []
              else map (resample_at samples sourceRate targetRate) (map int [0..<nat outLen]))"

text \<open>\<open>loadBackgroundPCM\<close> after the MP3 decoder, which yields raw stereo bytes and a rate, or fails.\<close>

definition loadBackgroundPCM :: "(byte list \<times> int) option \<Rightarrow> int \<Rightarrow> int list" where
  "loadBackgroundPCM decoded targetSampleRate =
     (case decoded of None \<Rightarrow> []
      | Some (raw, sourceSampleRate) \<Rightarrow>
          (let mono = stereo_to_mono (pcm_samples raw)
           in if targetSampleRate > 0 \<and> sourceSampleRate > 0 \<and> targetSampleRate \<noteq> sourceSampleRate
              then resampleMonoPCM mono sourceSampleRate targetSampleRate else mono))"

lemma quot_between:
  assumes "0 < t" and "lo * t \<le> x" and "x \<le> hi * t"
  shows "lo \<le> quot x t \<and> quot x t \<le> hi"
proof (cases "0 \<le> x")
  case True
  have "lo \<le> x div t" using assms by (metis nonzero_mult_div_cancel_right less_irrefl zdiv_mono1)
  moreover have "x div t \<le> hi" using assms by (metis nonzero_mult_div_cancel_right less_irrefl zdiv_mono1)
  ultimately show ?thesis using True assms(1) by (simp add: quot_nonneg)
next
  case False
  then have q: "quot x t = - ((- x) div t)" using assms(1) by (simp add: quot_def)
  have "- hi \<le> (- x) div t" "(- x) div t \<le> - lo"
  proof -
    have "(- hi) * t div t = - hi" "(- lo) * t div t = - lo"
      by (rule nonzero_mult_div_cancel_right, use assms(1) in simp)+
    moreover have "(- hi) * t div t \<le> (- x) div t" "(- x) div t \<le> (- lo) * t div t"
      using assms by (auto intro!: zdiv_mono1)
    ultimately show "- hi \<le> (- x) div t" "(- x) div t \<le> - lo" by simp_all
  qed
  then show ?thesis by (simp add: q)
qed

text \<open>
  The resampler interpolates. For 16-bit input and positive rates every output sample lies
  between the least and the greatest input sample, so no 16-bit conversion wraps, and the output
  has the length of the input scaled by the rates and rounded.
\<close>

theorem resample_interpolates:
  assumes "\<forall>s \<in> set samples. lo \<le> s \<and> s \<le> hi" and "- 32768 \<le> lo" and "hi < 32768"
    and "samples \<noteq> []" and "0 < src" and "0 < dst" and "src \<noteq> dst"
  shows "(\<forall>s \<in> set (resampleMonoPCM samples src dst). lo \<le> s \<and> s \<le> hi)
    \<and> int (length (resampleMonoPCM samples src dst)) = (int (length samples) * dst + src div 2) div src"
proof -
  have pt: "lo \<le> resample_at samples src dst i \<and> resample_at samples src dst i \<le> hi" if i: "0 \<le> i" for i
  proof (cases "quot (i * src) dst \<ge> int (length samples) - 1")
    case True
    then show ?thesis using assms by (simp add: resample_at_def Let_def)
  next
    case False
    define idx where "idx = quot (i * src) dst"
    define r where "r = rem (i * src) dst"
    have idx: "0 \<le> idx" using i assms by (simp add: idx_def quot_nonneg pos_imp_zdiv_nonneg_iff)
    have r: "0 \<le> r" "r < dst" using i assms by (simp_all add: r_def rem_nonneg)
    let ?a = "samples ! nat idx" and ?b = "samples ! (nat idx + 1)"
    have "nat idx + 1 < length samples" using False idx by (simp add: idx_def [symmetric])
    then have a: "lo \<le> ?a" "?a \<le> hi" and b: "lo \<le> ?b" "?b \<le> hi"
      using assms(1) by (simp_all add: nth_mem)
    have "lo * (dst - r) \<le> ?a * (dst - r)" "?a * (dst - r) \<le> hi * (dst - r)"
      "lo * r \<le> ?b * r" "?b * r \<le> hi * r"
      using a b r by (simp_all add: mult_right_mono)
    then have "lo * dst \<le> ?a * (dst - r) + ?b * r" "?a * (dst - r) + ?b * r \<le> hi * dst"
      by (simp_all add: algebra_simps)
    from quot_between [OF assms(6) this]
    have "lo \<le> quot (?a * (dst - r) + ?b * r) dst \<and> quot (?a * (dst - r) + ?b * r) dst \<le> hi" .
    with False assms show ?thesis
      by (simp add: resample_at_def Let_def idx_def [symmetric] r_def [symmetric] wrap16_id)
  qed
  have len: "quot (int (length samples) * dst + quot src 2) src = (int (length samples) * dst + src div 2) div src"
    using assms by (simp add: quot_nonneg)
  have "0 \<le> (int (length samples) * dst + src div 2) div src"
    using assms by (simp add: pos_imp_zdiv_nonneg_iff)
  with assms pt show ?thesis
    by (auto simp: resampleMonoPCM_def len Let_def)
qed

theorem resample_interpolates_witness:
  "list_all (\<lambda>s. -7 \<le> s \<and> s \<le> 10) (resampleMonoPCM [0, 10, -7] 2 3)
   \<and> int (length (resampleMonoPCM [0, 10, -7] 2 3)) = 5"
  using resample_interpolates [of "[0, 10, -7]" "-7" 10 2 3] by (simp add: list_all_iff)

section \<open>Mu-law\<close>

definition g711ULawSegmentEnds :: "int list" where
  "g711ULawSegmentEnds = [0x00FF, 0x01FF, 0x03FF, 0x07FF, 0x0FFF, 0x1FFF, 0x3FFF, 0x7FFF]"

text \<open>The loop over the segment ends: the first that is not below the value, or their number.\<close>

fun find_segment :: "int \<Rightarrow> nat \<Rightarrow> int list \<Rightarrow> nat" where
  "find_segment pcm k [] = k"
| "find_segment pcm k (e # es) = (if pcm \<le> e then k else find_segment pcm (k + 1) es)"

definition linear16ToULaw :: "int \<Rightarrow> byte" where
  "linear16ToULaw sample =
     (let mask = (if sample < 0 then 0x7F else 0xFF);
          pcm0 = (if sample < 0 then - sample else sample);
          pcm1 = (if pcm0 > 32635 then 32635 else pcm0);
          pcm = pcm1 + 0x84;
          segment = find_segment pcm 0 g711ULawSegmentEnds
      in if segment \<ge> length g711ULawSegmentEnds then word_of_int (0x7F XOR mask)
         else let uval = push_bit 4 (int segment) OR (drop_bit (segment + 3) pcm AND 0x0F)
              in word_of_int (uval XOR mask))"

text \<open>An odd last byte is cut off.\<close>

definition pcm16BytesToPCMU :: "byte list \<Rightarrow> byte list" where
  "pcm16BytesToPCMU pcm = map linear16ToULaw (pcm_samples pcm)"

text \<open>
  The decoder of G.711, as the specification: the complemented byte is a sign bit, three bits of
  segment and four of mantissa.
\<close>

definition ulaw_decode :: "byte \<Rightarrow> int" where
  "ulaw_decode b =
     (let v = 255 - uint b;
          magnitude = ((v mod 16) * 8 + 0x84) * 2 ^ nat (v div 16 mod 8) - 0x84
      in if v \<ge> 128 then - magnitude else magnitude)"

definition clipped :: "int \<Rightarrow> int" where
  "clipped s = max (- 32635) (min 32635 s)"

lemma find_segment_spec:
  assumes "132 \<le> pcm" and "pcm \<le> 0x7FFF"
  shows "find_segment pcm 0 g711ULawSegmentEnds < 8
    \<and> (find_segment pcm 0 g711ULawSegmentEnds > 0 \<or> 128 \<le> pcm)
    \<and> 2 ^ (find_segment pcm 0 g711ULawSegmentEnds + 7) \<le> pcm
    \<and> pcm < 2 ^ (find_segment pcm 0 g711ULawSegmentEnds + 8)"
  using assms by (simp add: g711ULawSegmentEnds_def)

lemma uval_eq:
  assumes "k < 8" and "2 ^ (k + 7) \<le> (pcm :: int)" and "pcm < 2 ^ (k + 8)"
  shows "push_bit 4 (int k) OR (drop_bit (k + 3) pcm AND 0x0F) = 16 * int k + (pcm div 2 ^ (k + 3) - 16)"
    and "16 \<le> pcm div 2 ^ (k + 3)" and "pcm div 2 ^ (k + 3) < 32"
proof -
  have p: "(2::int) ^ (k + 7) = 16 * 2 ^ (k + 3)" "(2::int) ^ (k + 8) = 32 * 2 ^ (k + 3)"
    by (simp_all add: power_add)
  show lo: "16 \<le> pcm div 2 ^ (k + 3)"
    using zdiv_mono1 [OF assms(2), of "2 ^ (k + 3)"] by (simp add: p)
  show hi: "pcm div 2 ^ (k + 3) < 32"
  proof (rule ccontr)
    assume "\<not> pcm div 2 ^ (k + 3) < 32"
    then have "32 * 2 ^ (k + 3) \<le> pcm div 2 ^ (k + 3) * 2 ^ (k + 3)" by simp
    also have "\<dots> \<le> pcm"
    proof -
      have "0 \<le> pcm mod 2 ^ (k + 3)" by simp
      then show ?thesis using div_mult_mod_eq [of pcm "2 ^ (k + 3)"] by linarith
    qed
    finally show False using assms(3) by (simp add: p)
  qed
  have m: "drop_bit (k + 3) pcm AND 0x0F = pcm div 2 ^ (k + 3) - 16"
  proof -
    have "drop_bit (k + 3) pcm AND 0x0F = pcm div 2 ^ (k + 3) mod 16"
      using take_bit_eq_mask [of 4 "drop_bit (k + 3) pcm"]
      by (simp add: mask_eq_exp_minus_1 take_bit_eq_mod drop_bit_eq_div)
    moreover have "x mod 16 = x - 16" if "16 \<le> x" "x < 32" for x :: int using that by presburger
    ultimately show ?thesis using lo hi by simp
  qed
  have "push_bit 4 (int k) AND (pcm div 2 ^ (k + 3) - 16) = 0"
  proof -
    have "take_bit 4 (pcm div 2 ^ (k + 3) - 16) = pcm div 2 ^ (k + 3) - 16"
      using lo hi by (simp add: take_bit_int_eq_self_iff)
    moreover have "push_bit 4 (int k) AND take_bit 4 y = 0" for y
      by (rule bit_eqI) (auto simp: bit_simps)
    ultimately show ?thesis by metis
  qed
  then show "push_bit 4 (int k) OR (drop_bit (k + 3) pcm AND 0x0F) = 16 * int k + (pcm div 2 ^ (k + 3) - 16)"
    by (simp add: m push_bit_eq_mult flip: disjunctive_add_eq_or)
qed

lemma complement_7_8: "0 \<le> u \<Longrightarrow> u < 128 \<Longrightarrow> u XOR 255 = 255 - u \<and> u XOR 127 = 127 - (u :: int)"
proof -
  assume u: "0 \<le> u" "u < 128"
  have "\<forall>u \<in> set (map int [0..<128]). u XOR 255 = 255 - u \<and> u XOR 127 = 127 - u" by code_simp
  moreover have "u \<in> set (map int [0..<128])" using u by (auto simp: image_iff intro!: bexI [of _ "nat u"])
  ultimately show ?thesis by blast
qed

lemma ulaw_magnitude:
  assumes "q * d \<le> (pcm :: int)" and "pcm < (q + 1) * d" and "d = 2 * h" and "16 \<le> q" and "0 < d"
  shows "\<bar>(2 * q + 1) * h - pcm\<bar> * 32 \<le> pcm"
proof -
  have eq: "(2 * q + 1) * h = q * d + h" using assms(3) by (simp add: algebra_simps)
  have "\<bar>(2 * q + 1) * h - pcm\<bar> \<le> h" using assms unfolding eq by (simp add: algebra_simps abs_le_iff)
  moreover have "32 * h \<le> pcm"
  proof -
    have "16 * d \<le> q * d" using assms by simp
    with assms show ?thesis by linarith
  qed
  moreover have "a * 32 \<le> p" if "a \<le> b" "32 * b \<le> p" for a b p :: int using that by linarith
  ultimately show ?thesis by blast
qed

lemma low_high: "0 \<le> x \<Longrightarrow> x < 16 \<Longrightarrow> (x + 16 * y) mod 16 = x \<and> (x + 16 * y) div 16 = (y :: int)"
  by simp

text \<open>The segment and the mantissa that the encoder finds, and the byte it makes of them.\<close>

lemma ulaw_byte:
  assumes "is_int16 s" and k_def: "k = find_segment (\<bar>clipped s\<bar> + 132) 0 g711ULawSegmentEnds"
    and q_def: "q = (\<bar>clipped s\<bar> + 132) div 2 ^ (k + 3)"
  shows "k < 8" and "16 \<le> q" and "q < 32"
    and "255 - uint (linear16ToULaw s) = (q - 16) + 16 * (int k + (if s < 0 then 8 else 0))"
proof -
  define pcm where "pcm = \<bar>clipped s\<bar> + 132"
  define uval where "uval = 16 * int k + (q - 16)"
  have "132 \<le> pcm" "pcm \<le> 0x7FFF" by (auto simp: pcm_def clipped_def)
  from find_segment_spec [OF this] have k: "k < 8" "2 ^ (k + 7) \<le> pcm" "pcm < 2 ^ (k + 8)"
    by (simp_all add: k_def pcm_def)
  note u = uval_eq [OF k, folded q_def [folded pcm_def]]
  show "k < 8" "16 \<le> q" "q < 32" using k u by auto
  have ub: "0 \<le> uval" "uval < 128" using u k(1) by (simp_all add: uval_def)
  have len: "length g711ULawSegmentEnds = 8" by (simp add: g711ULawSegmentEnds_def)
  have "(let p0 = (if s < 0 then - s else s) in (if p0 > 32635 then 32635 else p0) + 0x84) = pcm"
    using assms(1) by (simp add: pcm_def clipped_def is_int16_def Let_def)
  then have "linear16ToULaw s = word_of_int (uval XOR (if s < 0 then 0x7F else 0xFF))"
    using k(1) u(1) unfolding linear16ToULaw_def Let_def
    by (simp add: k_def [folded pcm_def, symmetric] len uval_def)
  then have "255 - uint (linear16ToULaw s) = uval + (if s < 0 then 128 else 0)"
    using ub complement_7_8 [OF ub] by (simp add: uint_word_of_int)
  then show "255 - uint (linear16ToULaw s) = (q - 16) + 16 * (int k + (if s < 0 then 8 else 0))"
    by (simp add: uval_def)
qed

lemma ulaw_decoded:
  assumes "is_int16 s" and "k = find_segment (\<bar>clipped s\<bar> + 132) 0 g711ULawSegmentEnds"
    and "q = (\<bar>clipped s\<bar> + 132) div 2 ^ (k + 3)"
  shows "ulaw_decode (linear16ToULaw s) = (if s < 0 then -1 else 1) * ((2 * q + 1) * 2 ^ (k + 2) - 132)"
proof -
  note b = ulaw_byte [OF assms]
  let ?y = "int k + (if s < 0 then 8 else 0)"
  have x: "((q - 16) + 16 * ?y) mod 16 = q - 16" "((q - 16) + 16 * ?y) div 16 = ?y"
    using low_high [of "q - 16" ?y] b(2,3) by simp_all
  have "?y mod 8 = int k" using b(1) by simp
  then have y: "nat (?y mod 8) = k" by simp
  have sign: "(q - 16) + 16 * ?y \<ge> 128 \<longleftrightarrow> s < 0" using b(1-3) by auto
  have "((q - 16) * 8 + 0x84) * 2 ^ k = (2 * q + 1) * 2 ^ (k + 2)"
    by (simp add: power_add algebra_simps)
  then show ?thesis unfolding ulaw_decode_def b(4) Let_def x y sign by simp
qed

text \<open>
  The mu-law encoder is within one quantisation step. For every 16-bit sample the byte decodes,
  by G.711, to a value of the same sign that differs from the clipped sample by at most a 32nd of
  its biased magnitude; the encoder's fallback for a missing segment is never used.
\<close>

theorem ulaw_quantised:
  assumes "is_int16 s"
  shows "\<bar>ulaw_decode (linear16ToULaw s) - clipped s\<bar> * 32 \<le> \<bar>clipped s\<bar> + 132
    \<and> 0 \<le> ulaw_decode (linear16ToULaw s) * (if s < 0 then -1 else 1)
    \<and> find_segment (\<bar>clipped s\<bar> + 132) 0 g711ULawSegmentEnds < length g711ULawSegmentEnds"
proof -
  define pcm where "pcm = \<bar>clipped s\<bar> + 132"
  define k where "k = find_segment pcm 0 g711ULawSegmentEnds"
  define q where "q = pcm div 2 ^ (k + 3)"
  note b = ulaw_byte [OF assms k_def [unfolded pcm_def] q_def [unfolded pcm_def]]
  have len: "length g711ULawSegmentEnds = 8" by (simp add: g711ULawSegmentEnds_def)
  have "0 \<le> pcm mod 2 ^ (k + 3)" "pcm mod 2 ^ (k + 3) < 2 ^ (k + 3)" by simp_all
  then have "q * 2 ^ (k + 3) \<le> pcm" "pcm < (q + 1) * 2 ^ (k + 3)"
    using div_mult_mod_eq [of pcm "2 ^ (k + 3)"] unfolding q_def distrib_right by linarith+
  then have near: "\<bar>(2 * q + 1) * 2 ^ (k + 2) - pcm\<bar> * 32 \<le> pcm"
    by (rule ulaw_magnitude) (use b in \<open>simp_all add: power_add\<close>)
  have "33 * 4 \<le> (2 * q + 1) * 2 ^ (k + 2)"
    by (rule mult_mono) (use b in \<open>simp_all add: power_add\<close>)
  moreover have "clipped s = (if s < 0 then -1 else 1) * (pcm - 132)" "\<bar>clipped s\<bar> + 132 = pcm"
    by (auto simp: pcm_def clipped_def)
  moreover note near ulaw_decoded [OF assms k_def [unfolded pcm_def] q_def [unfolded pcm_def]]
  ultimately show ?thesis
    using b(1) by (simp add: k_def len abs_minus_commute)
qed

theorem ulaw_quantised_witness:
  "is_int16 (-32768) \<and> \<bar>ulaw_decode (linear16ToULaw (-32768)) - clipped (-32768)\<bar> * 32 \<le> 32767"
proof -
  have h: "is_int16 (-32768)" by (simp add: is_int16_def)
  from ulaw_quantised [OF h] h show ?thesis by (simp add: clipped_def)
qed

end
