(* ===== verification/Source.thy ===== *)
theory Source
  imports AudioFmt
begin

text \<open>
  The head of the chain: the call statistics (\<open>call_stats_tracker.go\<close>), the audio source
  (\<open>audio_source_processor.go\<close>) and speech-to-text (\<open>stt_processor.go\<close>). The speech service is a
  parameter: the outcome of each dial, and what each read returns.
\<close>

section \<open>callStatsTracker\<close>

record call_stats =
  cs_joinedAt :: gotime
  cs_leftAt :: gotime
  cs_firstAudioAt :: gotime
  cs_total :: duration
  cs_present :: bool

definition newCallStatsTracker :: call_stats where
  "newCallStatsTracker =
     \<lparr>cs_joinedAt = 0, cs_leftAt = 0, cs_firstAudioAt = 0, cs_total = 0, cs_present = False\<rparr>"

definition or_now :: "gotime \<Rightarrow> gotime \<Rightarrow> gotime" where
  "or_now now at0 = (if at0 = 0 then now else at0)"

definition MarkUserJoined :: "gotime \<Rightarrow> gotime \<Rightarrow> call_stats \<Rightarrow> call_stats" where
  "MarkUserJoined now at0 p =
     (let tm = or_now now at0
      in if cs_present p then p else p\<lparr>cs_present := True, cs_joinedAt := tm, cs_leftAt := 0\<rparr>)"

definition MarkUserLeft :: "gotime \<Rightarrow> gotime \<Rightarrow> call_stats \<Rightarrow> call_stats" where
  "MarkUserLeft now at0 p =
     (let tm = or_now now at0
      in if \<not> cs_present p then p
         else if cs_joinedAt p = 0 \<or> tm < cs_joinedAt p then p\<lparr>cs_leftAt := tm, cs_present := False\<rparr>
         else p\<lparr>cs_total := wrap64 (cs_total p + time_sub tm (cs_joinedAt p)),
                cs_leftAt := tm, cs_present := False\<rparr>)"

definition MarkFirstUserAudio :: "gotime \<Rightarrow> gotime \<Rightarrow> call_stats \<Rightarrow> bool \<times> call_stats" where
  "MarkFirstUserAudio now at0 p =
     (let tm = or_now now at0
      in if cs_firstAudioAt p \<noteq> 0 then (False, p) else (True, p\<lparr>cs_firstAudioAt := tm\<rparr>))"

definition total_duration :: "gotime \<Rightarrow> gotime \<Rightarrow> call_stats \<Rightarrow> duration" where
  "total_duration now at0 p =
     (let tm = or_now now at0
      in if cs_present p \<and> cs_joinedAt p \<noteq> 0 \<and> cs_joinedAt p < tm
         then wrap64 (cs_total p + time_sub tm (cs_joinedAt p)) else cs_total p)"

text \<open>\<open>Duration.Seconds\<close>: whole seconds and the nanoseconds left, added as floats.\<close>

definition duration_seconds :: "duration \<Rightarrow> rat" where
  "duration_seconds d = fadd (float_of_int (quot d second)) (fdiv (float_of_int (rem d second)) 1000000000)"

definition TotalDurationSec :: "gotime \<Rightarrow> gotime \<Rightarrow> call_stats \<Rightarrow> rat" where
  "TotalDurationSec now at0 p = duration_seconds (total_duration now at0 p)"

text \<open>A history of joins and leaves, and the time a user was present according to it.\<close>

datatype presence = Joined gotime | Left gotime

fun presence_time :: "presence \<Rightarrow> gotime" where
  "presence_time (Joined t) = t"
| "presence_time (Left t) = t"

fun cs_step :: "call_stats \<Rightarrow> presence \<Rightarrow> call_stats" where
  "cs_step p (Joined t) = MarkUserJoined t t p"
| "cs_step p (Left t) = MarkUserLeft t t p"

fun timeline :: "gotime \<Rightarrow> presence list \<Rightarrow> gotime \<Rightarrow> bool" where
  "timeline t [] end = (t \<le> end)"
| "timeline t (e # es) end = (t \<le> presence_time e \<and> timeline (presence_time e) es end)"

text \<open>The reference: sum, over the pieces between events, of those in which the user is present.\<close>

fun present_time :: "bool \<Rightarrow> gotime \<Rightarrow> presence list \<Rightarrow> gotime \<Rightarrow> int" where
  "present_time here t [] end = (if here then end - t else 0)"
| "present_time here t (e # es) end =
     (if here then presence_time e - t else 0)
     + present_time (case e of Joined _ \<Rightarrow> True | Left _ \<Rightarrow> False) (presence_time e) es end"

lemma timeline_le: "timeline t es end \<Longrightarrow> t \<le> end"
  by (induction t es "end" rule: timeline.induct) auto

lemma call_stats_sum:
  assumes "timeline t es end" and "0 < t" and "end < 2 ^ 62"
    and "0 \<le> cs_total p" "cs_total p \<le> t"
    and "cs_present p \<Longrightarrow> 0 < cs_joinedAt p \<and> cs_joinedAt p \<le> t \<and> cs_total p + (t - cs_joinedAt p) \<le> t"
  shows "total_duration end end (foldl cs_step p es) =
    cs_total p + (if cs_present p then t - cs_joinedAt p else 0) + present_time (cs_present p) t es end"
  using assms
proof (induction es arbitrary: p t)
  case Nil
  then have b: "t \<le> end" "end < 2 ^ 62" by simp_all
  show ?case
  proof (cases "cs_present p")
    case True
    with Nil have "0 < cs_joinedAt p" "cs_joinedAt p \<le> t" "cs_total p + (t - cs_joinedAt p) \<le> t" by auto
    with True b Nil show ?thesis
      by (auto simp: total_duration_def or_now_def time_sub_def wrap64_id)
  qed (simp add: total_duration_def)
next
  case (Cons e es)
  let ?t = "presence_time e"
  have t: "t \<le> ?t" "timeline ?t es end" "?t \<le> end" using Cons.prems timeline_le by auto
  show ?case
  proof (cases e)
    case (Joined tm)
    have "foldl cs_step p (e # es) = foldl cs_step (cs_step p e) es" by simp
    moreover have "total_duration end end (foldl cs_step (cs_step p e) es) =
      cs_total (cs_step p e) + (if cs_present (cs_step p e) then ?t - cs_joinedAt (cs_step p e) else 0)
      + present_time (cs_present (cs_step p e)) ?t es end"
      by (rule Cons.IH) (use Cons.prems t in \<open>auto simp: Joined MarkUserJoined_def or_now_def Let_def\<close>)
    ultimately show ?thesis using Cons.prems t
      by (auto simp: Joined MarkUserJoined_def or_now_def Let_def)
  next
    case (Left tm)
    have st: "cs_step p e = (if cs_present p then p\<lparr>cs_total := cs_total p + (tm - cs_joinedAt p),
        cs_leftAt := tm, cs_present := False\<rparr> else p)"
    proof (cases "cs_present p")
      case True
      with Cons.prems have "0 < cs_joinedAt p" "cs_joinedAt p \<le> t" "cs_total p + (t - cs_joinedAt p) \<le> t" by auto
      with True Cons.prems t show ?thesis
        by (simp add: Left MarkUserLeft_def or_now_def time_sub_def wrap64_id Let_def)
    qed (simp add: Left MarkUserLeft_def)
    have "total_duration end end (foldl cs_step (cs_step p e) es) =
      cs_total (cs_step p e) + (if cs_present (cs_step p e) then ?t - cs_joinedAt (cs_step p e) else 0)
      + present_time (cs_present (cs_step p e)) ?t es end"
      by (rule Cons.IH) (use Cons.prems t st in \<open>auto simp: Left\<close>)
    then show ?thesis using Cons.prems t by (simp add: st) (simp add: Left)
  qed
qed

text \<open>
  The reported call duration is the time a user was really present. For any history of joins and
  leaves in time order, repeated joins and leaves included, the total at the end equals the sum of
  the stretches in which a user was in the room.
\<close>

theorem call_duration_correct:
  assumes "timeline t es end" and "0 < t" and "end < 2 ^ 62"
  shows "total_duration end end (foldl cs_step newCallStatsTracker es) = present_time False t es end"
  using call_stats_sum [OF assms, of newCallStatsTracker] assms(2) by (simp add: newCallStatsTracker_def)

theorem call_duration_correct_witness:
  "timeline 1 [Joined 10, Joined 12, Left 20, Left 25, Joined 30] 35 \<and>
   total_duration 35 35 (foldl cs_step newCallStatsTracker [Joined 10, Joined 12, Left 20, Left 25, Joined 30]) = 15"
  using call_duration_correct [of 1 "[Joined 10, Joined 12, Left 20, Left 25, Joined 30]" 35] by simp

text \<open>A real instant is not Go's zero time: for such instants the first mark is the only one.\<close>

interpretation first_audio: one_shot "\<lambda>t p. snd (MarkFirstUserAudio t t p)"
  "\<lambda>t p. t \<noteq> 0 \<and> fst (MarkFirstUserAudio t t p)" "\<lambda>p. cs_firstAudioAt p \<noteq> 0"
  by unfold_locales (auto simp: MarkFirstUserAudio_def or_now_def Let_def split: if_splits)

section \<open>AudioSourceProcessor\<close>

fun hasAudibleSamples :: "int list \<Rightarrow> bool" where
  "hasAudibleSamples [] = False"
| "hasAudibleSamples (sample # samples) =
     (let v = (if sample < 0 then - sample else sample)
      in if v > 1000 then True else hasAudibleSamples samples)"

definition maybeMarkFirstUserAudio :: "gotime \<Rightarrow> call_stats \<Rightarrow> int list \<Rightarrow> call_stats \<times> effect list" where
  "maybeMarkFirstUserAudio now p samples =
     (if \<not> hasAudibleSamples samples then (p, [])
      else let (marked, p') = MarkFirstUserAudio now now p
           in (p', if marked then [Fire (FirstUserAudio now)] else []))"

definition PushPCM :: "gotime \<Rightarrow> call_stats \<Rightarrow> byte list \<Rightarrow> call_stats \<times> effect list" where
  "PushPCM now p pcmBytes =
     (if length pcmBytes = 0 then (p, [])
      else let (p', es) = maybeMarkFirstUserAudio now p (pcm_samples pcmBytes)
           in (p', es @ [Push (AudioFrame pcmBytes) Downstream]))"

fun as_process :: "unit \<Rightarrow> frame \<Rightarrow> direction \<Rightarrow> unit \<times> effect list" where
  "as_process a frame dir = (a, [Push frame dir])"

interpretation audio_source_chain: end_forwarder as_process
  by unfold_locales auto

lemma hasAudibleSamples_iff: "hasAudibleSamples xs \<longleftrightarrow> (\<exists>s \<in> set xs. \<bar>s\<bar> > 1000)"
  by (induction xs) (auto simp: Let_def)

section \<open>STTProcessor\<close>

text \<open>The configuration sent first on every connection.\<close>

definition sttConfigPayload :: "(string \<Rightarrow> string) \<Rightarrow> (string \<times> json) list" where
  "sttConfigPayload getenv =
     [(''api_key'', JStr (getenv ''SONIOX_API_KEY'')), (''model'', JStr ''stt-rt-v4''), (''audio_format'', JStr ''s16le''),
      (''sample_rate'', JNum ''16000''), (''num_channels'', JNum ''1''), (''language_hints'', JArr [JStr ''hi'']),
      (''enable_endpoint_detection'', JBool True), (''max_endpoint_delay_ms'', JNum ''300'')]"

definition sttConnectRetryDelays :: "duration list" where
  "sttConnectRetryDelays = [second, 2 * second]"

definition audioFramesCapacity :: nat where "audioFramesCapacity = 100"

text \<open>
  \<open>connect\<close>. The world gives for each attempt the dial's error, if any, and whether the context is
  found cancelled at the attempt's start or during the wait after it. The result is the error or
  success, with the number of dials made.
\<close>

record stt_world =
  sw_dial :: "nat \<Rightarrow> string option"
  sw_ctxAt :: "nat \<Rightarrow> bool"
  sw_ctxWait :: "nat \<Rightarrow> bool"

abbreviation "context_canceled \<equiv> ''context canceled''"

function connect_from :: "stt_world \<Rightarrow> nat \<Rightarrow> nat \<Rightarrow> (string + unit) \<times> nat" where
  "connect_from w attempt dials =
     (let maxAttempts = length sttConnectRetryDelays + 1
      in if attempt > maxAttempts then (Inr (), dials)
         else if sw_ctxAt w attempt then (Inl context_canceled, dials)
         else case sw_dial w attempt of
                None \<Rightarrow> (Inr (), dials + 1)
              | Some err \<Rightarrow>
                  if attempt = maxAttempts then (Inl err, dials + 1)
                  else if sw_ctxWait w attempt then (Inl context_canceled, dials + 1)
                  else connect_from w (attempt + 1) (dials + 1))"
  by auto
termination
  by (relation "measure (\<lambda>(w, attempt, dials). length sttConnectRetryDelays + 2 - attempt)") auto

declare connect_from.simps [simp del]

definition connect :: "stt_world \<Rightarrow> (string + unit) \<times> nat" where
  "connect w = connect_from w 1 0"

text \<open>
  Connecting is bounded and its outcome is exact. With a context that stays alive the speech
  client dials at most three times, connects exactly when one of the three dials succeeds, stops at
  the first that does, and otherwise reports the error of the last.
\<close>

theorem connect_exact:
  assumes "\<And>n. \<not> sw_ctxAt w n" and "\<And>n. \<not> sw_ctxWait w n"
  shows "connect w =
    (if sw_dial w 1 = None then (Inr (), 1)
     else if sw_dial w 2 = None then (Inr (), 2)
     else if sw_dial w 3 = None then (Inr (), 3)
     else (Inl (the (sw_dial w 3)), 3))"
  using assms
  by (auto simp: connect_def connect_from.simps sttConnectRetryDelays_def numeral_2_eq_2 numeral_3_eq_3
      split: option.split)

theorem connect_exact_witness:
  "connect \<lparr>sw_dial = (\<lambda>n. if n < 3 then Some ''refused'' else None), sw_ctxAt = (\<lambda>n. False),
     sw_ctxWait = (\<lambda>n. False)\<rparr> = (Inr (), 3)"
  using connect_exact [of "\<lparr>sw_dial = (\<lambda>n. if n < 3 then Some ''refused'' else None),
     sw_ctxAt = (\<lambda>n. False), sw_ctxWait = (\<lambda>n. False)\<rparr>"] by simp

definition handleConnectExhausted :: "string \<Rightarrow> bool \<Rightarrow> effect list" where
  "handleConnectExhausted err ctxDone =
     (if ctxDone then []
      else [Push (ErrorFrame (''Soniox connection failed after '' @
              int_str (int (length sttConnectRetryDelays + 1)) @ '' attempts: '' @ err) True ''STT'') Upstream])"

text \<open>
  \<open>read\<close>. What one turn of the loop meets: a cancelled context, a message whose tokens decode (or
  not), or a read error followed by a reconnection.
\<close>

record soniox_token =
  st_Text :: string
  st_IsFinal :: bool

datatype stt_input =
    CtxDone
  | Message "(soniox_token list \<times> bool) option"
  | ReadError bool stt_world bool

fun read :: "int \<Rightarrow> stt_input list \<Rightarrow> effect list" where
  "read responseID [] = []"
| "read responseID (CtxDone # ins) = []"
| "read responseID (Message None # ins) = read responseID ins"
| "read responseID (Message (Some (tokens, finished)) # ins) =
     (let responseID' = wrap64 (responseID + 1)
      in map (\<lambda>tok. Push (TranscriptFrame (st_Text tok) (st_IsFinal tok) responseID' finished) Downstream) tokens
         @ read responseID' ins)"
| "read responseID (ReadError ctxDone w ctxDone' # ins) =
     (if ctxDone then []
      else case fst (connect w) of
             Inl err \<Rightarrow> handleConnectExhausted err ctxDone'
           | Inr _ \<Rightarrow> read responseID ins)"

text \<open>\<open>runReader\<close>: connect, close \<open>connected\<close>, read.\<close>

definition runReader :: "stt_world \<Rightarrow> bool \<Rightarrow> stt_input list \<Rightarrow> bool \<times> effect list" where
  "runReader w ctxDone ins =
     (case fst (connect w) of
        Inl err \<Rightarrow> (False, handleConnectExhausted err ctxDone)
      | Inr _ \<Rightarrow> (True, read 0 ins))"

text \<open>The state of the processor proper: the audio channel and the shutdown.\<close>

record stt =
  stt_audioFrames :: "byte list list"
  stt_connected :: bool
  stt_ctxDone :: bool
  stt_closed :: bool

definition stt_Stop :: "stt \<Rightarrow> stt" where
  "stt_Stop s = s\<lparr>stt_ctxDone := True, stt_closed := True\<rparr>"

text \<open>\<open>runWriter\<close>: one turn; the bytes written to the socket, or nothing.\<close>

definition runWriter :: "stt \<Rightarrow> (stt \<times> byte list option) list" where
  "runWriter s =
     (if \<not> stt_connected s \<or> stt_ctxDone s then []
      else case stt_audioFrames s of [] \<Rightarrow> []
           | audio # rest \<Rightarrow> [(s\<lparr>stt_audioFrames := rest\<rparr>, Some audio)])"

text \<open>An audio frame waits for room in the channel; with the context cancelled it is dropped.\<close>

fun stt_process :: "stt \<Rightarrow> frame \<Rightarrow> direction \<Rightarrow> (stt \<times> effect list) list" where
  "stt_process s (AudioFrame data) dir =
     (if length (stt_audioFrames s) < audioFramesCapacity
      then [(s\<lparr>stt_audioFrames := stt_audioFrames s @ [data]\<rparr>, [])] else []) @
     (if stt_ctxDone s then [(s, [])] else [])"
| "stt_process s (EndFrame reason) dir = [(stt_Stop s, [Push (EndFrame reason) dir])]"
| "stt_process s frame dir = [(s, [Push frame dir])]"

text \<open>The response ids of the transcripts a reader pushes.\<close>

definition response_ids :: "effect list \<Rightarrow> int list" where
  "response_ids es =
     concat (map (\<lambda>e. case e of Push (TranscriptFrame _ _ rid _) _ \<Rightarrow> [rid] | _ \<Rightarrow> []) es)"

lemma response_ids_append [simp]: "response_ids (xs @ ys) = response_ids xs @ response_ids ys"
  by (simp add: response_ids_def)

lemma read_ids:
  assumes "0 \<le> rid" and "rid + int (length ins) < 2 ^ 63"
  shows "sorted (response_ids (read rid ins)) \<and> (\<forall>i \<in> set (response_ids (read rid ins)). rid < i)"
  using assms
proof (induction rid ins rule: read.induct)
  case (4 rid tokens finished ins)
  have w: "wrap64 (rid + 1) = rid + 1" using 4(2,3) by (simp add: wrap64_id)
  have ids: "response_ids (map (\<lambda>tok. Push (TranscriptFrame (st_Text tok) (st_IsFinal tok) i finished) Downstream) tokens)
      = replicate (length tokens) i" for i
    by (induction tokens) (simp_all add: response_ids_def)
  have "sorted (response_ids (read (rid + 1) ins)) \<and> (\<forall>i \<in> set (response_ids (read (rid + 1) ins)). rid + 1 < i)"
    using 4(1) [OF refl] 4(2,3) by (simp add: w)
  then show ?case by (force simp: Let_def w ids sorted_append)
next
  case (5 rid ctxDone w ctxDone' ins)
  then show ?case
    by (auto simp: handleConnectExhausted_def response_ids_def split: sum.split)
qed (simp_all add: response_ids_def)

text \<open>
  Response ids order the transcript. The ids the reader stamps on the transcripts of one call
  never decrease and are all positive, so the aggregator's reset value 0 never names a response.
\<close>

theorem response_ids_increase:
  assumes "int (length ins) < 2 ^ 63"
  shows "sorted (response_ids (snd (runReader w c ins))) \<and> (\<forall>i \<in> set (response_ids (snd (runReader w c ins))). 0 < i)"
  using read_ids [of 0 ins] assms
  by (auto simp: runReader_def handleConnectExhausted_def response_ids_def split: sum.split)

theorem response_ids_increase_witness:
  "let w = \<lparr>sw_dial = (\<lambda>n. None), sw_ctxAt = (\<lambda>n. False), sw_ctxWait = (\<lambda>n. False)\<rparr>;
       t = \<lparr>st_Text = ''hi'', st_IsFinal = False\<rparr>;
       ins = [Message (Some ([t], False)), Message None, Message (Some ([t, t], False))]
   in int (length ins) < 2 ^ 63 \<and> sorted (response_ids (snd (runReader w False ins)))"
  using response_ids_increase [of "[Message (Some ([\<lparr>st_Text = ''hi'', st_IsFinal = False\<rparr>], False)),
    Message None, Message (Some ([\<lparr>st_Text = ''hi'', st_IsFinal = False\<rparr>, \<lparr>st_Text = ''hi'', st_IsFinal = False\<rparr>], False))]"
    "\<lparr>sw_dial = (\<lambda>n. None), sw_ctxAt = (\<lambda>n. False), sw_ctxWait = (\<lambda>n. False)\<rparr>" False]
  by (simp add: Let_def)

end
