(* ===== verification/Observers.thy ===== *)
theory Observers
  imports Frames GoFloat
begin

text \<open>
  What watches a call: the call-event dispatcher (\<open>call_events.go\<close>), the metric timers and the
  per-turn snapshot (\<open>metrics.go\<close>), the UI event sender with the debug log (\<open>ui_events.go\<close>,
  \<open>debug_logs.go\<close>), and the audio timing aggregator (\<open>audio_timing.go\<close>).
\<close>

section \<open>callEventDispatcher\<close>

definition callEventQueueSize :: nat where "callEventQueueSize = 512"

datatype event_kind =
    OnBotJoined | OnUserJoined | OnUserFirstSpeech | OnBotFirstSpeech | OnFirstUserAudio
  | OnUserTurnCommitted | OnAssistantTurnCommitted | OnToolResultCommitted

fun kind_of :: "call_event \<Rightarrow> event_kind" where
  "kind_of (BotJoined _) = OnBotJoined"
| "kind_of (UserJoined _) = OnUserJoined"
| "kind_of (UserFirstSpeech _) = OnUserFirstSpeech"
| "kind_of (BotFirstSpeech _) = OnBotFirstSpeech"
| "kind_of (FirstUserAudio _) = OnFirstUserAudio"
| "kind_of (UserTurnCommitted _ _ _) = OnUserTurnCommitted"
| "kind_of (AssistantTurnCommitted _ _ _ _) = OnAssistantTurnCommitted"
| "kind_of (ToolResultCommitted _ _ _) = OnToolResultCommitted"

text \<open>The kinds guarded by a \<open>sync.Once\<close>.\<close>

fun once_kind :: "event_kind \<Rightarrow> bool" where
  "once_kind OnUserTurnCommitted = False"
| "once_kind OnAssistantTurnCommitted = False"
| "once_kind OnToolResultCommitted = False"
| "once_kind _ = True"

text \<open>\<open>cd_handlers\<close>: the callbacks that are not nil; \<open>cd_onces\<close>: the guards already used.\<close>

record dispatcher =
  cd_handlers :: "event_kind list"
  cd_onces :: "event_kind list"
  cd_queue :: "call_event list"
  cd_closing :: bool

definition newCallEventDispatcher :: "event_kind list \<Rightarrow> dispatcher" where
  "newCallEventDispatcher handlers =
     \<lparr>cd_handlers = handlers, cd_onces = [], cd_queue = [], cd_closing = False\<rparr>"

definition dispatch :: "call_event \<Rightarrow> dispatcher \<Rightarrow> dispatcher" where
  "dispatch ev d =
     (if cd_closing d then d
      else if length (cd_queue d) < callEventQueueSize then d\<lparr>cd_queue := cd_queue d @ [ev]\<rparr>
      else d)"

definition fire :: "call_event \<Rightarrow> dispatcher \<Rightarrow> dispatcher" where
  "fire ev d =
     (if kind_of ev \<notin> set (cd_handlers d) then d
      else if once_kind (kind_of ev) then
        (if kind_of ev \<in> set (cd_onces d) then d
         else dispatch ev (d\<lparr>cd_onces := kind_of ev # cd_onces d\<rparr>))
      else dispatch ev d)"

text \<open>\<open>run\<close>: one task taken from the queue and run; a panic of the callback is recovered, so the
  loop goes on.\<close>

definition run_next :: "dispatcher \<Rightarrow> dispatcher \<times> call_event list" where
  "run_next d =
     (case cd_queue d of [] \<Rightarrow> (d, []) | ev # rest \<Rightarrow> (d\<lparr>cd_queue := rest\<rparr>, [ev]))"

text \<open>\<open>stopAndDrain\<close>: close the queue, then wait until the loop has run what is left in it.\<close>

definition stopAndDrain :: "dispatcher \<Rightarrow> dispatcher \<times> call_event list" where
  "stopAndDrain d = (d\<lparr>cd_closing := True, cd_queue := []\<rparr>, cd_queue d)"

datatype dispatcher_op = CdFire call_event | CdRun | CdStop

fun cd_step :: "dispatcher \<Rightarrow> dispatcher_op \<Rightarrow> dispatcher \<times> call_event list" where
  "cd_step d (CdFire ev) = (fire ev d, [])"
| "cd_step d CdRun = run_next d"
| "cd_step d CdStop = stopAndDrain d"

fun cd_run :: "dispatcher \<Rightarrow> dispatcher_op list \<Rightarrow> dispatcher \<times> call_event list" where
  "cd_run d [] = (d, [])"
| "cd_run d (op # ops) =
     (let (d1, out) = cd_step d op; (d2, outs) = cd_run d1 ops in (d2, out @ outs))"

fun fired :: "dispatcher_op list \<Rightarrow> call_event list" where
  "fired [] = []"
| "fired (CdFire ev # ops) = ev # fired ops"
| "fired (op # ops) = fired ops"

text \<open>What should reach the callbacks: the events with a callback, the one-shot kinds once.\<close>

fun wanted :: "event_kind list \<Rightarrow> event_kind list \<Rightarrow> call_event list \<Rightarrow> call_event list" where
  "wanted handlers seen [] = []"
| "wanted handlers seen (ev # evs) =
     (if kind_of ev \<notin> set handlers \<or> (once_kind (kind_of ev) \<and> kind_of ev \<in> set seen)
      then wanted handlers seen evs
      else ev # wanted handlers (if once_kind (kind_of ev) then kind_of ev # seen else seen) evs)"

lemma fire_handlers [simp]: "cd_handlers (fire ev d) = cd_handlers d"
  by (simp add: fire_def dispatch_def)

lemma step_handlers [simp]: "cd_handlers (fst (cd_step d op)) = cd_handlers d"
  by (cases op) (auto simp: run_next_def stopAndDrain_def split: list.split)

lemma subseq_append_mono: "subseq a b \<Longrightarrow> subseq (x @ a) (x @ b)"
  by (simp add: subseq_append')

lemma cd_run_subseq:
  "subseq (snd (cd_run d ops) @ cd_queue (fst (cd_run d ops)))
     (cd_queue d @ wanted (cd_handlers d) (cd_onces d) (fired ops))"
proof (induction ops arbitrary: d)
  case (Cons op ops)
  let ?d = "fst (cd_step d op)"
  note IH = Cons.IH [of ?d]
  show ?case
  proof (cases op)
    case (CdFire ev)
    have "subseq (cd_queue ?d @ wanted (cd_handlers d) (cd_onces ?d) (fired ops))
        (cd_queue d @ wanted (cd_handlers d) (cd_onces d) (fired (op # ops)))"
      by (auto simp: CdFire fire_def dispatch_def subseq_append')
    moreover have "snd (cd_run d (op # ops)) = snd (cd_run ?d ops)" "fst (cd_run d (op # ops)) = fst (cd_run ?d ops)"
      by (simp_all add: CdFire split_beta Let_def)
    ultimately show ?thesis using IH step_handlers [of d op] by (metis subseq_order.order_trans)
  next
    case CdRun
    show ?thesis
    proof (cases "cd_queue d")
      case Nil
      then show ?thesis using IH by (simp add: CdRun run_next_def split_beta Let_def)
    next
      case (Cons ev rest)
      then show ?thesis using IH by (simp add: CdRun run_next_def split_beta Let_def)
    qed
  next
    case CdStop
    then show ?thesis using IH by (simp add: stopAndDrain_def split_beta Let_def subseq_append')
  qed
qed simp

lemma wanted_once:
  assumes "once_kind k"
  shows "length (filter (\<lambda>ev. kind_of ev = k) (wanted hs seen evs)) \<le> (if k \<in> set seen then 0 else 1)"
  using assms by (induction hs seen evs rule: wanted.induct) (auto split: if_splits)

lemma subseq_filter_length: "subseq xs ys \<Longrightarrow> length (filter P xs) \<le> length (filter P ys)"
  by (meson list_emb_length subseq_filter)

text \<open>
  Delivery of call events. Whatever the interleaving of events, callback runs and the shutdown,
  the callbacks see the wanted events in the order they were fired: no event is invented, repeated
  or overtaken, an event without a callback is ignored, and each of the five timeline events is
  delivered at most once.
\<close>

theorem call_events_ordered:
  "subseq (snd (cd_run (newCallEventDispatcher hs) ops)) (wanted hs [] (fired ops))
   \<and> (once_kind k \<longrightarrow> length (filter (\<lambda>ev. kind_of ev = k) (snd (cd_run (newCallEventDispatcher hs) ops))) \<le> 1)"
proof -
  let ?out = "snd (cd_run (newCallEventDispatcher hs) ops)"
  have "subseq (?out @ cd_queue (fst (cd_run (newCallEventDispatcher hs) ops))) (wanted hs [] (fired ops))"
    using cd_run_subseq [of "newCallEventDispatcher hs" ops] by (simp add: newCallEventDispatcher_def)
  then have s: "subseq ?out (wanted hs [] (fired ops))"
    by (rule subseq_order.order_trans [rotated]) (simp add: list_emb_append2 subseq_rev_drop_many)
  show ?thesis
    using s wanted_once [of k hs "[]" "fired ops"] subseq_filter_length [OF s, of "\<lambda>ev. kind_of ev = k"] by auto
qed

theorem call_events_ordered_witness:
  "let out = snd (cd_run (newCallEventDispatcher [OnBotJoined, OnUserTurnCommitted])
      [CdFire (BotJoined 1), CdFire (UserTurnCommitted ''a'' 2 []), CdRun, CdFire (BotJoined 3), CdRun, CdRun])
   in subseq out [BotJoined 1, UserTurnCommitted ''a'' 2 []] \<and> length (filter (\<lambda>ev. kind_of ev = OnBotJoined) out) \<le> 1"
  using call_events_ordered [of "[OnBotJoined, OnUserTurnCommitted]"
      "[CdFire (BotJoined 1), CdFire (UserTurnCommitted ''a'' 2 []), CdRun, CdFire (BotJoined 3), CdRun, CdRun]" OnBotJoined]
  by (simp add: Let_def)

definition no_stop :: "dispatcher_op list \<Rightarrow> bool" where
  "no_stop ops = (CdStop \<notin> set ops)"

lemma cd_run_all:
  assumes "no_stop ops" and "\<not> cd_closing d" and "length (cd_queue d) + length (fired ops) \<le> callEventQueueSize"
  shows "snd (cd_run d ops) @ cd_queue (fst (cd_run d ops)) =
      cd_queue d @ wanted (cd_handlers d) (cd_onces d) (fired ops)
    \<and> \<not> cd_closing (fst (cd_run d ops))"
  using assms
proof (induction ops arbitrary: d)
  case (Cons op ops)
  let ?d = "fst (cd_step d op)"
  have open_d: "\<not> cd_closing ?d" and room: "length (cd_queue ?d) + length (fired ops) \<le> callEventQueueSize"
    using Cons.prems
    by (cases op; auto simp: no_stop_def fire_def dispatch_def run_next_def split: list.split)+
  have IH: "snd (cd_run ?d ops) @ cd_queue (fst (cd_run ?d ops)) =
      cd_queue ?d @ wanted (cd_handlers d) (cd_onces ?d) (fired ops)
    \<and> \<not> cd_closing (fst (cd_run ?d ops))"
    using Cons.IH [OF _ open_d room] Cons.prems(1) by (simp add: no_stop_def)
  show ?case
  proof (cases op)
    case (CdFire ev)
    then show ?thesis using IH Cons.prems
      by (auto simp: fire_def dispatch_def split_beta Let_def)
  next
    case CdRun
    then show ?thesis using IH
      by (cases "cd_queue d") (auto simp: run_next_def split_beta Let_def)
  qed (use Cons.prems in \<open>simp add: no_stop_def\<close>)
qed simp

lemma cd_run_append:
  "cd_run d (xs @ ys) =
     (let (d1, out1) = cd_run d xs; (d2, out2) = cd_run d1 ys in (d2, out1 @ out2))"
  by (induction xs arbitrary: d) (simp_all add: split_beta Let_def)

lemma closed_silent:
  "cd_closing d \<Longrightarrow> cd_queue d = [] \<Longrightarrow> snd (cd_run d ops) = []"
proof (induction ops arbitrary: d)
  case (Cons op ops)
  have "cd_closing (fst (cd_step d op)) \<and> cd_queue (fst (cd_step d op)) = [] \<and> snd (cd_step d op) = []"
    using Cons.prems by (cases op) (auto simp: fire_def dispatch_def run_next_def stopAndDrain_def)
  with Cons.IH [of "fst (cd_step d op)"] show ?case by (simp add: split_beta Let_def)
qed simp

text \<open>
  C40: the shutdown loses no event and admits none. If at most 512 events were fired before
  \<open>stopAndDrain\<close>, every wanted one has been delivered when it returns, however slow the callbacks
  were, and nothing fired afterwards is delivered.
\<close>

theorem call_events_drained:
  assumes "no_stop ops" and "length (fired ops) \<le> 512"
  shows "snd (cd_run (newCallEventDispatcher hs) (ops @ CdStop # later)) = wanted hs [] (fired ops)"
proof -
  let ?r = "cd_run (newCallEventDispatcher hs) ops"
  have "snd ?r @ cd_queue (fst ?r) = wanted hs [] (fired ops)"
    using cd_run_all [of ops "newCallEventDispatcher hs"] assms
    by (simp add: newCallEventDispatcher_def callEventQueueSize_def)
  moreover have "snd (cd_run (fst (stopAndDrain (fst ?r))) later) = []"
    by (rule closed_silent) (simp_all add: stopAndDrain_def)
  ultimately show ?thesis by (simp add: cd_run_append split_beta Let_def stopAndDrain_def)
qed

theorem call_events_drained_witness:
  "snd (cd_run (newCallEventDispatcher [OnBotJoined, OnUserTurnCommitted])
      [CdFire (BotJoined 1), CdFire (UserTurnCommitted ''a'' 2 []), CdRun, CdFire (BotJoined 3), CdFire (UserJoined 3),
       CdFire (UserTurnCommitted ''b'' 4 []), CdStop, CdFire (UserTurnCommitted ''c'' 5 [])])
   = [BotJoined 1, UserTurnCommitted ''a'' 2 [], UserTurnCommitted ''b'' 4 []]"
  using call_events_drained [of "[CdFire (BotJoined 1), CdFire (UserTurnCommitted ''a'' 2 []), CdRun,
      CdFire (BotJoined 3), CdFire (UserJoined 3), CdFire (UserTurnCommitted ''b'' 4 [])]"
      "[OnBotJoined, OnUserTurnCommitted]" "[CdFire (UserTurnCommitted ''c'' 5 [])]"]
  by (simp add: no_stop_def)

text \<open>Each timeline event has its guard: for a fixed kind, firing it is a one-shot operation.\<close>

interpretation timeline_once: one_shot fire
  "\<lambda>ev d. kind_of ev = OnUserFirstSpeech \<and> OnUserFirstSpeech \<in> set (cd_handlers d) \<and> OnUserFirstSpeech \<notin> set (cd_onces d)"
  "\<lambda>d. OnUserFirstSpeech \<in> set (cd_onces d)"
  by unfold_locales (auto simp: fire_def dispatch_def)

lemma once_used_when_full:
  assumes "once_kind (kind_of ev)" and "\<not> cd_closing d" and "length (cd_queue d) \<ge> 512"
    and "kind_of ev' = kind_of ev" and "kind_of ev \<in> set (cd_handlers d)"
  shows "cd_queue (fire ev' ((fire ev d)\<lparr>cd_queue := q\<rparr>)) = q"
  using assms by (simp add: fire_def dispatch_def callEventQueueSize_def)

section \<open>Metrics\<close>

text \<open>\<open>ProcessorMetrics\<close>: its timers, with one entry for each label.\<close>

record processor_metrics =
  pm_processor :: string
  pm_timers :: "(metric_label \<times> gotime) list"

definition NewProcessorMetrics :: "string \<Rightarrow> processor_metrics" where
  "NewProcessorMetrics processor = \<lparr>pm_processor = processor, pm_timers = []\<rparr>"

definition StartAt :: "metric_label \<Rightarrow> gotime \<Rightarrow> processor_metrics \<Rightarrow> processor_metrics" where
  "StartAt label t m = m\<lparr>pm_timers := (label, t) # filter (\<lambda>kv. fst kv \<noteq> label) (pm_timers m)\<rparr>"

definition pm_Start :: "gotime \<Rightarrow> metric_label \<Rightarrow> processor_metrics \<Rightarrow> processor_metrics" where
  "pm_Start now label m = StartAt label now m"

definition elapsed_ms :: "gotime \<Rightarrow> gotime \<Rightarrow> rat" where
  "elapsed_ms now start = fdiv (float_of_int (quot (time_sub now start) 1000)) 1000"

definition pm_Stop :: "gotime \<Rightarrow> metric_label \<Rightarrow> processor_metrics \<Rightarrow> metrics_data option \<times> processor_metrics" where
  "pm_Stop now label m =
     (case map_of (pm_timers m) label of
        None \<Rightarrow> (None, m)
      | Some start \<Rightarrow>
          if start = 0 then (None, m)
          else (Some \<lparr>md_Processor = pm_processor m, md_Label = label, md_ValueMs = elapsed_ms now start\<rparr>,
                m\<lparr>pm_timers := filter (\<lambda>kv. fst kv \<noteq> label) (pm_timers m)\<rparr>))"

definition pm_Reset :: "processor_metrics \<Rightarrow> processor_metrics" where
  "pm_Reset m = m\<lparr>pm_timers := []\<rparr>"

definition zero_turn :: turn_metrics where
  "zero_turn = \<lparr>tm_LLMTTFBMs = 0, tm_LLMProcessingMs = 0, tm_TTSTextAggregationMs = 0,
                tm_TTSTTFBMs = 0, tm_E2ELatencyMs = 0\<rparr>"

fun absorb :: "turn_metrics \<Rightarrow> metrics_data list \<Rightarrow> turn_metrics" where
  "absorb cur [] = cur"
| "absorb cur (d # ds) =
     absorb
       (if md_Processor d = ''llm'' \<and> md_Label d = MetricTTFB then cur\<lparr>tm_LLMTTFBMs := md_ValueMs d\<rparr>
        else if md_Processor d = ''llm'' \<and> md_Label d = MetricProcessing then cur\<lparr>tm_LLMProcessingMs := md_ValueMs d\<rparr>
        else if md_Processor d = ''tts'' \<and> md_Label d = MetricTextAggregation then cur\<lparr>tm_TTSTextAggregationMs := md_ValueMs d\<rparr>
        else if md_Processor d = ''tts'' \<and> md_Label d = MetricTTFB then cur\<lparr>tm_TTSTTFBMs := md_ValueMs d\<rparr>
        else if md_Processor d = ''playback'' \<and> md_Label d = MetricE2ELatency then cur\<lparr>tm_E2ELatencyMs := md_ValueMs d\<rparr>
        else cur) ds"

definition turn_snapshotAndReset :: "turn_metrics \<Rightarrow> turn_metrics \<times> turn_metrics" where
  "turn_snapshotAndReset cur = (cur, zero_turn)"

text \<open>The last value measured by a processor under a label.\<close>

fun latest :: "rat \<Rightarrow> string \<Rightarrow> metric_label \<Rightarrow> metrics_data list \<Rightarrow> rat" where
  "latest v p l [] = v"
| "latest v p l (d # ds) = latest (if md_Processor d = p \<and> md_Label d = l then md_ValueMs d else v) p l ds"

lemma absorb_latest:
  "absorb cur ds =
     \<lparr>tm_LLMTTFBMs = latest (tm_LLMTTFBMs cur) ''llm'' MetricTTFB ds,
      tm_LLMProcessingMs = latest (tm_LLMProcessingMs cur) ''llm'' MetricProcessing ds,
      tm_TTSTextAggregationMs = latest (tm_TTSTextAggregationMs cur) ''tts'' MetricTextAggregation ds,
      tm_TTSTTFBMs = latest (tm_TTSTTFBMs cur) ''tts'' MetricTTFB ds,
      tm_E2ELatencyMs = latest (tm_E2ELatencyMs cur) ''playback'' MetricE2ELatency ds\<rparr>"
proof (induction ds arbitrary: cur)
  case (Cons d ds)
  then show ?case by (simp split del: if_split) simp
qed simp

text \<open>
  The metrics of a turn. Over any stream of metric frames the snapshot taken at the end of a
  turn holds, for each of its five fields, the last value its own processor reported since the
  previous snapshot, and zero when there was none.
\<close>

theorem turn_metrics_latest:
  "fst (turn_snapshotAndReset (fold (\<lambda>ds cur. absorb cur ds) dss (snd (turn_snapshotAndReset prev)))) =
     \<lparr>tm_LLMTTFBMs = latest 0 ''llm'' MetricTTFB (concat dss),
      tm_LLMProcessingMs = latest 0 ''llm'' MetricProcessing (concat dss),
      tm_TTSTextAggregationMs = latest 0 ''tts'' MetricTextAggregation (concat dss),
      tm_TTSTTFBMs = latest 0 ''tts'' MetricTTFB (concat dss),
      tm_E2ELatencyMs = latest 0 ''playback'' MetricE2ELatency (concat dss)\<rparr>"
proof -
  have app: "absorb (absorb cur xs) ys = absorb cur (xs @ ys)" for cur xs ys
    by (induction cur xs rule: absorb.induct) simp_all
  have "fold (\<lambda>ds cur. absorb cur ds) dss cur = absorb cur (concat dss)" for cur
    by (induction dss arbitrary: cur) (simp_all add: app)
  then show ?thesis
    by (simp add: turn_snapshotAndReset_def zero_turn_def absorb_latest)
qed

lemma pm_Stop_consumes:
  "pm_Stop now label m = (Some d, m') \<Longrightarrow> pm_Stop now' label m' = (None, m')"
  by (auto simp: pm_Stop_def split: option.splits if_splits dest!: map_of_SomeD)

section \<open>Timestamps of the debug log\<close>

text \<open>
  \<open>rtviTimestamp\<close> formats a time in UTC with milliseconds. The calendar is the proleptic Gregorian
  one, counted from 1 January of year 1, Go's zero time.
\<close>

definition days_to_year_day :: "int \<Rightarrow> int \<times> int" where
  "days_to_year_day n =
     (let n400 = n div 146097; r = n mod 146097;
          n100 = min 3 (r div 36524); r1 = r - n100 * 36524;
          n4 = r1 div 1461; r2 = r1 mod 1461;
          n1 = min 3 (r2 div 365)
      in (400 * n400 + 100 * n100 + 4 * n4 + n1 + 1, r2 - n1 * 365))"

definition leap :: "int \<Rightarrow> bool" where
  "leap y = (y mod 4 = 0 \<and> (y mod 100 \<noteq> 0 \<or> y mod 400 = 0))"

fun month_day :: "int \<Rightarrow> int list \<Rightarrow> int \<Rightarrow> int \<times> int" where
  "month_day m [] d = (m, d + 1)"
| "month_day m (len # lens) d = (if d < len then (m, d + 1) else month_day (m + 1) lens (d - len))"

definition pad :: "nat \<Rightarrow> int \<Rightarrow> string" where
  "pad width n = (let s = nat_str (nat n) in replicate (width - length s) CHR ''0'' @ s)"

definition rtviTimestamp :: "gotime \<Rightarrow> gotime \<Rightarrow> string" where
  "rtviTimestamp now t0 =
     (let t = (if t0 = 0 then now else t0);
          secs = t div second;
          (y, yd) = days_to_year_day (secs div 86400);
          (mo, d) = month_day 1 [31, if leap y then 29 else 28, 31, 30, 31, 30, 31, 31, 30, 31, 30] yd;
          sod = secs mod 86400
      in pad 4 y @ ''-'' @ pad 2 mo @ ''-'' @ pad 2 d @ ''T'' @
         pad 2 (sod div 3600) @ '':'' @ pad 2 (sod div 60 mod 60) @ '':'' @ pad 2 (sod mod 60) @ ''.'' @
         pad 3 (t mod second div millisecond) @ ''+00:00'')"

section \<open>UIEventSender\<close>

definition rtviDebugLabel :: string where "rtviDebugLabel = ''rtvi-ai''"

text \<open>An entry; \<open>de_Data\<close> is \<open>None\<close> for a nil \<open>Data\<close>.\<close>

record debug_entry =
  de_Label :: string
  de_Type :: string
  de_Data :: "payload option"
  de_Timestamp :: rat

record ui_sender =
  us_room :: bool
  us_entries :: "debug_entry list"
  us_transportType :: string
  us_meetingID :: string
  us_botSessionID :: string
  us_userSessionID :: string

definition NewUIEventSender :: ui_sender where
  "NewUIEventSender = \<lparr>us_room = False, us_entries = [], us_transportType = [], us_meetingID = [],
     us_botSessionID = [], us_userSessionID = []\<rparr>"

definition SetRoom :: "bool \<Rightarrow> ui_sender \<Rightarrow> ui_sender" where
  "SetRoom room s = s\<lparr>us_room := room\<rparr>"

definition SetTransportSession :: "string \<Rightarrow> string \<Rightarrow> string \<Rightarrow> ui_sender \<Rightarrow> ui_sender" where
  "SetTransportSession transportType meetingID botSessionID s =
     (let s1 = (if transportType \<noteq> [] then s\<lparr>us_transportType := transportType\<rparr> else s);
          s2 = (if meetingID \<noteq> [] then s1\<lparr>us_meetingID := meetingID\<rparr> else s1)
      in if botSessionID \<noteq> [] then s2\<lparr>us_botSessionID := botSessionID\<rparr> else s2)"

definition SetDailyMeeting :: "string \<Rightarrow> string \<Rightarrow> ui_sender \<Rightarrow> ui_sender" where
  "SetDailyMeeting meetingID botSessionID = SetTransportSession ''daily'' meetingID botSessionID"

definition SetUserSessionID :: "string \<Rightarrow> ui_sender \<Rightarrow> ui_sender" where
  "SetUserSessionID userSessionID s =
     (if userSessionID = [] then s
      else if us_userSessionID s = [] then s\<lparr>us_userSessionID := userSessionID\<rparr> else s)"

definition TransportSession :: "ui_sender \<Rightarrow> string \<times> string \<times> string \<times> string" where
  "TransportSession s = (us_transportType s, us_meetingID s, us_botSessionID s, us_userSessionID s)"

text \<open>The seconds from Go's zero time to the Unix epoch.\<close>

definition unix_nano :: "gotime \<Rightarrow> int" where
  "unix_nano t = wrap64 (t - 62135596800 * second)"

text \<open>\<open>Emit\<close>: store the entry, then publish it if there is a room; the published entries are the
  second component.\<close>

definition Emit :: "gotime \<Rightarrow> string \<Rightarrow> payload option \<Rightarrow> gotime \<Rightarrow> ui_sender \<Rightarrow> ui_sender \<times> debug_entry list" where
  "Emit now eventType data t0 s =
     (if eventType = [] then (s, [])
      else let t = (if t0 = 0 then now else t0);
               entry = \<lparr>de_Label = rtviDebugLabel, de_Type = eventType, de_Data = data,
                        de_Timestamp = fdiv (float_of_int (unix_nano t)) (float_of_int second)\<rparr>
           in (s\<lparr>us_entries := us_entries s @ [entry]\<rparr>, if us_room s then [entry] else []))"

fun ui_apply :: "gotime \<Rightarrow> ui_event \<Rightarrow> gotime \<Rightarrow> ui_sender \<Rightarrow> ui_sender \<times> debug_entry list" where
  "ui_apply now (BotTranscription txt) t s =
     (if txt = [] then (s, []) else Emit now ''bot-transcription'' (Some (MapPayload [(''text'', JsonValue (JStr txt))])) t s)"
| "ui_apply now (UserTranscription txt final) t s =
     (if txt = [] \<and> final then (s, [])
      else Emit now ''user-transcription''
        (Some (MapPayload [(''text'', JsonValue (JStr txt)), (''user_id'', JsonValue (JStr (us_userSessionID s))),
                     (''timestamp'', JsonValue (JStr (rtviTimestamp now t))), (''final'', JsonValue (JBool final))])) t s)"
| "ui_apply now UIBotStartedSpeaking t s = Emit now ''bot-started-speaking'' None t s"
| "ui_apply now UIBotStoppedSpeaking t s = Emit now ''bot-stopped-speaking'' None t s"
| "ui_apply now (ServerMessage data) t s = Emit now ''server-message'' (Some data) t s"

definition ui_run :: "gotime \<Rightarrow> (ui_event \<times> gotime) list \<Rightarrow> ui_sender \<Rightarrow> ui_sender \<times> debug_entry list" where
  "ui_run now evs s =
     fold (\<lambda>(ev, t) (s, out). let (s', o') = ui_apply now ev t s in (s', out @ o')) evs (s, [])"

lemma ui_apply_log:
  "us_entries (fst (ui_apply now ev t s)) =
     us_entries s @ snd (ui_apply now ev t (s\<lparr>us_room := True\<rparr>))"
  "us_room (fst (ui_apply now ev t s)) = us_room s"
  "us_room s \<Longrightarrow> us_entries (fst (ui_apply now ev t s)) = us_entries s @ snd (ui_apply now ev t s)"
  by (cases ev; simp add: Emit_def Let_def)+

lemma SetRoom_entries [simp]: "us_entries (SetRoom room s) = us_entries s"
  by (simp add: SetRoom_def)

text \<open>
  The debug log is what the client was shown. With a room attached, the entries stored for
  the end-of-call upload are, in order, exactly those published to the room; without one they are
  stored all the same.
\<close>

theorem debug_log_complete:
  "let (s', out) = ui_run now evs (SetRoom room s);
       (s'', out') = ui_run now evs (SetRoom True s)
   in us_entries s' = us_entries s @ out' \<and> out = (if room then out' else [])"
proof -
  have step: "us_entries (fst (ui_apply now ev t (SetRoom room s))) = us_entries s @ snd (ui_apply now ev t (SetRoom True s))
      \<and> snd (ui_apply now ev t (SetRoom room s)) = (if room then snd (ui_apply now ev t (SetRoom True s)) else [])
      \<and> fst (ui_apply now ev t (SetRoom room s)) = SetRoom room (fst (ui_apply now ev t (SetRoom True s)))" for ev t s room
    by (cases ev) (auto simp: SetRoom_def Emit_def Let_def)
  have gen: "us_entries (fst (ui_run now evs (SetRoom room s))) = us_entries s @ snd (ui_run now evs (SetRoom True s))
      \<and> snd (ui_run now evs (SetRoom room s)) = (if room then snd (ui_run now evs (SetRoom True s)) else [])
      \<and> fst (ui_run now evs (SetRoom room s)) = SetRoom room (fst (ui_run now evs (SetRoom True s)))"
  proof (induction evs rule: rev_induct)
    case Nil
    show ?case by (simp add: ui_run_def SetRoom_def)
  next
    case (snoc e evs)
    obtain ev t where e: "e = (ev, t)" by (cases e)
    have snoc_run: "ui_run now (evs @ [e]) x =
        (fst (ui_apply now ev t (fst (ui_run now evs x))),
         snd (ui_run now evs x) @ snd (ui_apply now ev t (fst (ui_run now evs x))))" for x
      by (simp add: ui_run_def e split_beta Let_def)
    define q where "q = fst (ui_run now evs (SetRoom True s))"
    have idem: "SetRoom True q = q"
    proof -
      have "us_room (fst (ui_run now zs x)) = us_room x" for zs x
        by (induction zs rule: rev_induct) (simp_all add: ui_run_def ui_apply_log split_beta Let_def)
      then have "us_room q" by (simp add: q_def SetRoom_def)
      then show ?thesis by (simp add: SetRoom_def)
    qed
    have entries: "us_entries q = us_entries s @ snd (ui_run now evs (SetRoom True s))"
      using snoc unfolding q_def by (metis SetRoom_entries)
    show ?case
      using snoc step [of ev t room q] entries
      unfolding snoc_run q_def [symmetric] idem
      by (simp add: q_def [symmetric] idem) (metis SetRoom_entries)
  qed
  then have "us_entries (fst (ui_run now evs (SetRoom True s))) = us_entries s @ snd (ui_run now evs (SetRoom True s))"
    by (metis SetRoom_entries)
  with gen show ?thesis by (simp add: split_beta Let_def)
qed

text \<open>The first user session stays.\<close>

interpretation user_session: one_shot SetUserSessionID
  "\<lambda>i s. i \<noteq> [] \<and> us_userSessionID s = []" "\<lambda>s. us_userSessionID s \<noteq> []"
  by unfold_locales (auto simp: SetUserSessionID_def)

section \<open>audioTimingAggregator\<close>

record audio_stat =
  ast_count :: "64 word"
  ast_totalNS :: "64 word"
  ast_maxNS :: "64 word"

record audio_entry =
  ae_Name :: string
  ae_Count :: "64 word"
  ae_AvgMS :: rat
  ae_MaxMS :: rat
  ae_TotalMS :: rat

type_synonym audio_timing = "(string \<times> audio_stat) list"

definition at_record :: "string \<Rightarrow> duration \<Rightarrow> audio_timing \<Rightarrow> audio_timing" where
  "at_record name elapsed a =
     (if name = [] \<or> elapsed < 0 then a
      else let ns = word_of_int elapsed;
               st = (case map_of a name of
                       None \<Rightarrow> \<lparr>ast_count = 0, ast_totalNS = 0, ast_maxNS = 0\<rparr> | Some st \<Rightarrow> st);
               st' = \<lparr>ast_count = ast_count st + 1, ast_totalNS = ast_totalNS st + ns,
                      ast_maxNS = (if ns > ast_maxNS st then ns else ast_maxNS st)\<rparr>
           in (name, st') # filter (\<lambda>kv. fst kv \<noteq> name) a)"

definition durationMS :: "duration \<Rightarrow> rat" where
  "durationMS d = fdiv (float_of_int (quot d 1000)) 1000"

definition at_snapshotAndReset :: "audio_timing \<Rightarrow> audio_entry list \<times> audio_timing" where
  "at_snapshotAndReset a =
     (concat (map (\<lambda>(name, st).
        if ast_count st = 0 then []
        else [\<lparr>ae_Name = name, ae_Count = ast_count st,
               ae_AvgMS = durationMS (sint (ast_totalNS st div ast_count st)),
               ae_MaxMS = durationMS (sint (ast_maxNS st)),
               ae_TotalMS = durationMS (sint (ast_totalNS st))\<rparr>]) a), [])"

end
