(* ===== verification/Playback.thy ===== *)
theory Playback
  imports AudioFmt Observers Processor
begin

text \<open>
  \<open>PlaybackSinkProcessor\<close> (\<open>playback_sink_processor.go\<close>): the playback queue, the 20 ms tick that
  writes one frame of mixed audio, and the end of a call. \<open>ProcessFrame\<close> relays frames over
  \<open>queueCh\<close> to the playback goroutine, which owns everything else.
\<close>

section \<open>State\<close>

definition bgVolume :: rat where "bgVolume = 1 / 2"
definition botVolume :: rat where "botVolume = rnd64 (3 / 10)"
definition playbackEndTail :: duration where "playbackEndTail = second"
definition queueChCapacity :: nat where "queueChCapacity = 256"

record playback =
  pb_frameSamples :: int
  pb_frameBytes :: int
  pb_bgPCM :: "int list"
  pb_bgPos :: nat
  pb_interrupted :: bool
  pb_playbackStarted :: bool
  pb_playbackQueue :: "frame list"
  pb_metrics :: processor_metrics

definition NewPlaybackSinkProcessor :: "int option \<Rightarrow> (byte list \<times> int) option \<Rightarrow> playback" where
  "NewPlaybackSinkProcessor room mp3 =
     (let outputSampleRate = outputSampleRateFromRoom room
      in \<lparr>pb_frameSamples = pcmSamplesPerFrameForRate outputSampleRate,
          pb_frameBytes = pcmFrameBytesForRate outputSampleRate,
          pb_bgPCM = loadBackgroundPCM mp3 outputSampleRate, pb_bgPos = 0,
          pb_interrupted = False, pb_playbackStarted = False, pb_playbackQueue = [],
          pb_metrics = NewProcessorMetrics ''playback''\<rparr>)"

definition samplesPerFrame :: "playback \<Rightarrow> nat" where
  "samplesPerFrame p = nat (if pb_frameSamples p \<le> 0 then framePCM else pb_frameSamples p)"

definition bytesPerFrame :: "playback \<Rightarrow> nat" where
  "bytesPerFrame p = nat (if pb_frameBytes p \<le> 0 then framePCMBytes else pb_frameBytes p)"

section \<open>ProcessFrame\<close>

text \<open>
  The relay: the frame goes to \<open>queueCh\<close> when there is room, or is dropped when the context is
  cancelled; frames playback does not care about end here. The result lists the possible outcomes;
  an \<open>EndFrame\<close> makes the caller wait for the playback goroutine (\<open>True\<close>).
\<close>

fun pb_relays :: "frame \<Rightarrow> bool" where
  "pb_relays (AudioFrame _) = True"
| "pb_relays (WordTimestampFrame _) = True"
| "pb_relays TTSDoneFrame = True"
| "pb_relays (LLMResponseStartFrame _) = True"
| "pb_relays (TTSSpeakFrame _) = True"
| "pb_relays InterruptFrame = True"
| "pb_relays (EndFrame _) = True"
| "pb_relays _ = False"

definition pb_process :: "bool \<Rightarrow> frame list \<Rightarrow> frame \<Rightarrow> (frame list \<times> bool) list" where
  "pb_process ctxDone queueCh frame =
     (if pb_relays frame
      then (if length queueCh < queueChCapacity then [(queueCh @ [frame], is_end frame)] else []) @
           (if ctxDone then [(queueCh, False)] else [])
      else [(queueCh, False)])"

section \<open>The playback goroutine\<close>

definition shouldStopPlaybackImmediately :: "string \<Rightarrow> bool" where
  "shouldStopPlaybackImmediately reason =
     (reason = EndReasonClientDisconnect \<or> reason = EndReasonError)"

definition purge_queue :: "frame list \<Rightarrow> frame list" where
  "purge_queue q = filter (\<lambda>f. \<not> IsInterruptible f) q"

fun handleQueueFrame :: "playback \<Rightarrow> frame \<Rightarrow> playback \<times> effect list" where
  "handleQueueFrame p (AudioFrame d) =
     (if \<not> pb_interrupted p then p\<lparr>pb_playbackQueue := pb_playbackQueue p @ [AudioFrame d]\<rparr> else p, [])"
| "handleQueueFrame p (WordTimestampFrame ws) =
     (if \<not> pb_interrupted p then p\<lparr>pb_playbackQueue := pb_playbackQueue p @ [WordTimestampFrame ws]\<rparr> else p, [])"
| "handleQueueFrame p TTSDoneFrame =
     (if \<not> pb_interrupted p then p\<lparr>pb_playbackQueue := pb_playbackQueue p @ [TTSDoneFrame]\<rparr> else p, [])"
| "handleQueueFrame p (EndFrame reason) =
     (let p1 = (if shouldStopPlaybackImmediately reason
                then p\<lparr>pb_playbackQueue := [], pb_interrupted := True\<rparr> else p)
      in (p1\<lparr>pb_playbackQueue := pb_playbackQueue p1 @ [EndFrame reason]\<rparr>, []))"
| "handleQueueFrame p (LLMResponseStartFrame startedAt) =
     (p\<lparr>pb_interrupted := False, pb_playbackStarted := False, pb_playbackQueue := [],
        pb_metrics := StartAt MetricE2ELatency startedAt (pb_metrics p)\<rparr>, [])"
| "handleQueueFrame p (TTSSpeakFrame _) =
     (p\<lparr>pb_interrupted := False, pb_playbackStarted := False, pb_playbackQueue := []\<rparr>, [])"
| "handleQueueFrame p InterruptFrame =
     (p\<lparr>pb_interrupted := True, pb_playbackQueue := purge_queue (pb_playbackQueue p)\<rparr>, [Room ClearAudioBuffer])"
| "handleQueueFrame p frame = (p, [])"

text \<open>\<open>getBgFrame\<close>: the next samples of the background loop, wrapping round at its end.\<close>

fun bg_loop :: "int list \<Rightarrow> nat \<Rightarrow> nat \<Rightarrow> int list \<times> nat" where
  "bg_loop bg pos 0 = ([], pos)"
| "bg_loop bg pos (Suc n) =
     (let pos' = (if pos + 1 \<ge> length bg then 0 else pos + 1);
          (rest, pos'') = bg_loop bg pos' n
      in (bg ! pos # rest, pos''))"

definition getBgFrame :: "playback \<Rightarrow> int list option \<times> playback" where
  "getBgFrame p =
     (if length (pb_bgPCM p) = 0 then (None, p)
      else let (frame, pos) = bg_loop (pb_bgPCM p) (pb_bgPos p) (samplesPerFrame p)
           in (Some frame, p\<lparr>pb_bgPos := pos\<rparr>))"

definition mix_sample :: "int option \<Rightarrow> int option \<Rightarrow> int" where
  "mix_sample bg speech =
     (let s0 = (case bg of None \<Rightarrow> 0 | Some b \<Rightarrow> fadd 0 (fmul (float_of_int b) bgVolume));
          s1 = (case speech of None \<Rightarrow> s0 | Some b \<Rightarrow> fadd s0 (fmul (float_of_int b) botVolume));
          s2 = (if s1 > 32767 then 32767 else if s1 < -32768 then -32768 else s1)
      in wrap16 (int_of_float s2))"

definition mixPCM :: "playback \<Rightarrow> int list option \<Rightarrow> byte list \<times> playback" where
  "mixPCM p botPCM =
     (let (bgFrame, p1) = getBgFrame p;
          mixed = map (\<lambda>i. mix_sample (map_option (\<lambda>f. f ! i) bgFrame) (map_option (\<lambda>f. f ! i) botPCM))
                    [0..<samplesPerFrame p]
      in (pcm_bytes mixed, p1))"

text \<open>A frame of the wrong size is padded with silence or truncated.\<close>

definition botPCMFrame :: "playback \<Rightarrow> byte list \<Rightarrow> int list option" where
  "botPCMFrame p pcmBytes =
     (if length pcmBytes = 0 then None
      else let samples = take (samplesPerFrame p) (pcm_samples pcmBytes)
           in Some (samples @ replicate (samplesPerFrame p - length samples) 0))"

definition writeSilenceTail :: "playback \<Rightarrow> effect list" where
  "writeSilenceTail p =
     (if \<not> pb_playbackStarted p \<or> playbackEndTail \<le> 0 then []
      else replicate (nat (quot playbackEndTail playbackFrameDuration))
             (Room (WriteAudioPCM (replicate (bytesPerFrame p) 0))))"

text \<open>The start of the bot's speech, on the first audio frame of a response.\<close>

definition start_speech :: "gotime \<Rightarrow> playback \<Rightarrow> playback \<times> effect list" where
  "start_speech now p =
     (if pb_playbackStarted p then (p, [])
      else let (mf, m) = pm_Stop now MetricE2ELatency (pb_metrics p)
           in (p\<lparr>pb_playbackStarted := True, pb_metrics := m\<rparr>,
               [Fire (BotFirstSpeech now), UI UIBotStartedSpeaking now,
                Push BotStartedSpeakingFrame Downstream, Push BotStartedSpeakingFrame Upstream] @
               (case mf of None \<Rightarrow> [] | Some d \<Rightarrow> [Push (MetricsFrame [d]) Downstream])))"

text \<open>
  The loop of \<open>tick\<close> over the queue: it ends at an audio frame, whose samples are mixed, at the
  end of the queue, or at an \<open>EndFrame\<close>, which makes the goroutine exit (\<open>Inr\<close>).
\<close>

fun tick_queue :: "gotime \<Rightarrow> playback \<Rightarrow> frame list \<Rightarrow> playback \<times> effect list \<times> (int list option + unit)" where
  "tick_queue now p [] = (p\<lparr>pb_playbackQueue := []\<rparr>, [], Inl None)"
| "tick_queue now p (AudioFrame d # q) =
     (let (p1, es) = start_speech now p
      in (p1\<lparr>pb_playbackQueue := q\<rparr>, es, Inl (botPCMFrame p d)))"
| "tick_queue now p (WordTimestampFrame ws # q) =
     (let (p1, es, r) = tick_queue now p q in (p1, Push (WordTimestampFrame ws) Upstream # es, r))"
| "tick_queue now p (TTSDoneFrame # q) =
     (let (p1, es, r) = tick_queue now p q
      in (p1, [UI UIBotStoppedSpeaking now, Push TTSDoneFrame Upstream,
               Push BotStoppedSpeakingFrame Downstream, Push BotStoppedSpeakingFrame Upstream] @ es, r))"
| "tick_queue now p (EndFrame reason # q) =
     (p\<lparr>pb_playbackQueue := q\<rparr>,
      (if \<not> shouldStopPlaybackImmediately reason then writeSilenceTail p else []) @
      [Push (EndFrame reason) Downstream], Inr ())"
| "tick_queue now p (f # q) = tick_queue now p q"

definition tick :: "gotime \<Rightarrow> playback \<Rightarrow> playback \<times> effect list \<times> bool" where
  "tick now p =
     (case tick_queue now p (pb_playbackQueue p) of
        (p1, es, Inr _) \<Rightarrow> (p1, es, True)
      | (p1, es, Inl botPCM) \<Rightarrow>
          (let (pcm, p2) = mixPCM p1 botPCM in (p2, es @ [Room (WriteAudioPCM pcm)], False)))"

text \<open>\<open>runPlayback\<close>: frames from \<open>queueCh\<close> and ticks, in the order the goroutine meets them; it
  stops at the tick that meets an \<open>EndFrame\<close>.\<close>

datatype playback_event = PbFrame frame | PbTick gotime

fun runPlayback :: "playback \<Rightarrow> playback_event list \<Rightarrow> playback \<times> effect list \<times> bool" where
  "runPlayback p [] = (p, [], False)"
| "runPlayback p (PbFrame f # evs) =
     (let (p1, es) = handleQueueFrame p f; (p2, es2, ended) = runPlayback p1 evs in (p2, es @ es2, ended))"
| "runPlayback p (PbTick now # evs) =
     (let (p1, es, ended) = tick now p
      in if ended then (p1, es, True)
         else let (p2, es2, ended2) = runPlayback p1 evs in (p2, es @ es2, ended2))"

interpretation queue_purge: interrupt_purge purge_queue id
  by unfold_locales (simp add: purge_queue_def)

section \<open>Mixing\<close>

lemma rnd64_bound:
  assumes "\<bar>x\<bar> \<le> c"
  shows "\<bar>rnd64 x\<bar> \<le> c * (1 + 1 / 2 ^ 53)"
proof -
  have "\<bar>rnd64 x\<bar> \<le> \<bar>x\<bar> + \<bar>x\<bar> / 2 ^ 53" using rnd64_error [of x] by linarith
  also have "\<dots> \<le> c + c / 2 ^ 53" using assms by (simp add: divide_right_mono add_mono)
  finally show ?thesis by (simp add: algebra_simps)
qed

lemma float16: "is_int16 b \<Longrightarrow> float_of_int b = of_int b"
  by (rule float_of_int_exact) (auto simp: is_int16_def abs_less_iff)

lemma int_of_float_bounded:
  assumes "\<bar>s\<bar> \<le> 26300"
  shows "\<bar>int_of_float s\<bar> \<le> 26300"
proof -
  have "0 \<le> \<lfloor>x\<rfloor> \<and> \<lfloor>x\<rfloor> \<le> 26300" if "0 \<le> x" "x \<le> 26300" for x :: rat
    using that by (simp add: floor_le_iff)
  note fl = this
  show ?thesis
  proof (cases "0 \<le> s")
    case True
    with assms fl [of s] show ?thesis by (simp add: int_of_float_def)
  next
    case False
    with assms fl [of "- s"] show ?thesis by (simp add: int_of_float_def)
  qed
qed

lemma mix_unclamped:
  assumes "\<And>b. bg = Some b \<Longrightarrow> is_int16 b" and "\<And>b. speech = Some b \<Longrightarrow> is_int16 b"
  defines "s0 \<equiv> (case bg of None \<Rightarrow> 0 | Some b \<Rightarrow> fadd 0 (fmul (float_of_int b) bgVolume))"
  defines "s1 \<equiv> (case speech of None \<Rightarrow> s0 | Some b \<Rightarrow> fadd s0 (fmul (float_of_int b) botVolume))"
  shows "\<bar>s1\<bar> \<le> 26300 \<and> mix_sample bg speech = int_of_float s1"
proof -
  have b16: "\<bar>of_int b :: rat\<bar> \<le> 32768" if "is_int16 b" for b
    using that by (simp add: is_int16_def abs_le_iff)
  have "\<bar>s0\<bar> \<le> 16400"
  proof (cases bg)
    case (Some b)
    then have b: "is_int16 b" using assms(1) by simp
    have "\<bar>of_int b * bgVolume\<bar> \<le> 16384" using b16 [OF b] by (simp add: bgVolume_def abs_mult)
    from rnd64_bound [OF this] have "\<bar>fmul (float_of_int b) bgVolume\<bar> \<le> 16385"
      by (simp add: fmul_def float16 [OF b])
    from rnd64_bound [OF this] show ?thesis by (simp add: s0_def Some fadd_def)
  qed (simp add: s0_def)
  moreover have "\<bar>botVolume\<bar> \<le> 301 / 1000" "botVolume \<ge> 0"
    using rnd64_bound [of "3 / 10" "3 / 10"] rnd64_nonneg [of "3 / 10"] by (simp_all add: botVolume_def)
  ultimately have bound: "\<bar>s1\<bar> \<le> 26300"
  proof (cases speech)
    case (Some b)
    then have b: "is_int16 b" using assms(2) by simp
    have "\<bar>of_int b * botVolume\<bar> \<le> 32768 * (301 / 1000)"
      unfolding abs_mult by (rule mult_mono) (use b16 [OF b] \<open>\<bar>botVolume\<bar> \<le> _\<close> in simp_all)
    from rnd64_bound [OF this] have f: "\<bar>fmul (float_of_int b) botVolume\<bar> \<le> 9864"
      by (simp add: fmul_def float16 [OF b])
    have "\<bar>s0 + fmul (float_of_int b) botVolume\<bar> \<le> 26264"
      using \<open>\<bar>s0\<bar> \<le> 16400\<close> f by linarith
    from rnd64_bound [OF this] show ?thesis by (simp add: s1_def Some fadd_def)
  qed (simp add: s1_def)
  have "\<bar>int_of_float s1\<bar> \<le> 26300" using bound by (rule int_of_float_bounded)
  then have "wrap16 (int_of_float s1) = int_of_float s1" by (simp add: wrap16_id)
  moreover have "\<not> s1 > 32767" "\<not> s1 < -32768" using bound by linarith+
  ultimately show ?thesis using bound
    unfolding mix_sample_def s0_def [symmetric] Let_def s1_def [symmetric] by simp
qed

text \<open>A playback processor whose sizes and samples are as its constructor sets them.\<close>

definition pb_wf :: "playback \<Rightarrow> bool" where
  "pb_wf p \<longleftrightarrow> 0 < pb_frameSamples p \<and> pb_frameBytes p = 2 * pb_frameSamples p
     \<and> (\<forall>s \<in> set (pb_bgPCM p). is_int16 s) \<and> (pb_bgPCM p \<noteq> [] \<longrightarrow> pb_bgPos p < length (pb_bgPCM p))"

lemma bg_loop_spec:
  "pos < length bg \<Longrightarrow> length (fst (bg_loop bg pos n)) = n
    \<and> set (fst (bg_loop bg pos n)) \<subseteq> set bg \<and> snd (bg_loop bg pos n) < length bg"
proof (induction bg pos n rule: bg_loop.induct)
  case (2 bg pos n)
  define pos' where "pos' = (if pos + 1 \<ge> length bg then 0 else pos + 1)"
  have "pos' < length bg" using 2(2) by (auto simp: pos'_def)
  then have "length (fst (bg_loop bg pos' n)) = n \<and> set (fst (bg_loop bg pos' n)) \<subseteq> set bg
      \<and> snd (bg_loop bg pos' n) < length bg"
    using 2(1) [OF pos'_def] by blast
  then show ?case using 2(2) unfolding pos'_def by (simp add: split_beta Let_def split: if_splits)
qed simp

lemma mixPCM_wf:
  assumes "pb_wf p"
  shows "length (fst (mixPCM p x)) = bytesPerFrame p \<and> pb_wf (snd (mixPCM p x))
    \<and> pb_playbackQueue (snd (mixPCM p x)) = pb_playbackQueue p
    \<and> pb_interrupted (snd (mixPCM p x)) = pb_interrupted p"
proof -
  have "bytesPerFrame p = 2 * samplesPerFrame p"
    using assms by (simp add: pb_wf_def bytesPerFrame_def samplesPerFrame_def)
  moreover have "pb_bgPCM p \<noteq> [] \<Longrightarrow> snd (bg_loop (pb_bgPCM p) (pb_bgPos p) (samplesPerFrame p)) < length (pb_bgPCM p)"
    using assms bg_loop_spec by (simp add: pb_wf_def)
  ultimately show ?thesis using assms
    by (auto simp: mixPCM_def getBgFrame_def pb_wf_def split_beta Let_def)
qed

text \<open>
  Mixing cannot overload. For 16-bit background and speech samples the mix stays within 26300,
  so neither the clamp nor the conversion to 16 bits ever changes a value.
\<close>

theorem mix_in_range:
  assumes "\<And>b. bg = Some b \<Longrightarrow> is_int16 b" and "\<And>b. speech = Some b \<Longrightarrow> is_int16 b"
  shows "\<bar>mix_sample bg speech\<bar> \<le> 26300
    \<and> mix_sample bg speech =
        int_of_float (case speech of
            None \<Rightarrow> (case bg of None \<Rightarrow> 0 | Some b \<Rightarrow> fadd 0 (fmul (float_of_int b) bgVolume))
          | Some c \<Rightarrow> fadd (case bg of None \<Rightarrow> 0 | Some b \<Rightarrow> fadd 0 (fmul (float_of_int b) bgVolume))
                        (fmul (float_of_int c) botVolume))"
proof -
  show ?thesis
    using mix_unclamped [of bg speech, OF assms] int_of_float_bounded by (cases speech; cases bg) auto
qed

theorem mix_in_range_witness:
  "is_int16 32767 \<and> is_int16 (-32768) \<and> \<bar>mix_sample (Some 32767) (Some (-32768))\<bar> \<le> 26300"
proof -
  have h: "is_int16 32767" "is_int16 (-32768)" by (simp_all add: is_int16_def)
  have "\<bar>mix_sample (Some 32767) (Some (-32768))\<bar> \<le> 26300"
    using mix_in_range [of "Some 32767" "Some (-32768)"] h by fastforce
  with h show ?thesis by simp
qed

section \<open>After an interrupt\<close>

fun restarts :: "playback_event \<Rightarrow> bool" where
  "restarts (PbFrame (LLMResponseStartFrame _)) = True"
| "restarts (PbFrame (TTSSpeakFrame _)) = True"
| "restarts _ = False"

fun audible :: "frame \<Rightarrow> bool" where
  "audible (AudioFrame _) = True"
| "audible (WordTimestampFrame _) = True"
| "audible TTSDoneFrame = True"
| "audible _ = False"

definition silenced :: "playback \<Rightarrow> bool" where
  "silenced p = (pb_interrupted p \<and> list_all (\<lambda>f. \<not> audible f) (pb_playbackQueue p))"

lemma mixPCM_state:
  "pb_interrupted (snd (mixPCM p x)) = pb_interrupted p"
  "pb_playbackQueue (snd (mixPCM p x)) = pb_playbackQueue p"
  by (simp_all add: mixPCM_def getBgFrame_def split_beta Let_def)

lemma silenced_tick_queue:
  "list_all (\<lambda>f. \<not> audible f) q \<Longrightarrow> pb_interrupted p \<Longrightarrow>
     silenced (fst (tick_queue now p q)) \<and> pushes_to Upstream (fst (snd (tick_queue now p q))) = []"
  by (induction now p q rule: tick_queue.induct)
     (simp_all add: silenced_def writeSilenceTail_def pushes_to_def pushes_def)

lemma silenced_tick:
  assumes "silenced p"
  shows "silenced (fst (tick now p)) \<and> pushes_to Upstream (fst (snd (tick now p))) = []"
  using silenced_tick_queue [of "pb_playbackQueue p" p now] assms
  by (auto simp: silenced_def tick_def split_beta Let_def mixPCM_state split: sum.split)

lemma silenced_frame:
  "silenced p \<Longrightarrow> \<not> restarts (PbFrame f) \<Longrightarrow>
     silenced (fst (handleQueueFrame p f)) \<and> pushes_to Upstream (snd (handleQueueFrame p f)) = []"
  by (cases f) (auto simp: silenced_def purge_queue_def list_all_iff Let_def)

lemma silenced_run:
  "silenced p \<Longrightarrow> \<forall>e \<in> set evs. \<not> restarts e \<Longrightarrow> pushes_to Upstream (fst (snd (runPlayback p evs))) = []"
proof (induction p evs rule: runPlayback.induct)
  case (2 p f evs)
  then show ?case using silenced_frame [of p f] by (cases "handleQueueFrame p f") (simp add: split_beta Let_def)
next
  case (3 p now evs)
  then show ?case using silenced_tick [of p now]
    by (cases "tick now p") (simp add: split_beta Let_def)
qed simp

lemma interrupt_silences: "silenced (fst (handleQueueFrame p InterruptFrame))"
  by (auto simp: silenced_def purge_queue_def list_all_iff elim!: audible.elims)

text \<open>
  An interrupt is final for the response it interrupts. Once an \<open>InterruptFrame\<close> was handled,
  until the next response or prompt starts, nothing of the old response is reported upstream any
  more: no spoken word, no end of speech, no start of speech, whatever frames still arrive and
  however many ticks pass.
\<close>

theorem interrupt_final:
  assumes "\<forall>e \<in> set evs. \<not> restarts e"
  shows "pushes_to Upstream (fst (snd (runPlayback (fst (handleQueueFrame p InterruptFrame)) evs))) = []"
  using silenced_run [OF interrupt_silences assms] .

theorem interrupt_final_witness:
  "let p = (NewPlaybackSinkProcessor None None)
             \<lparr>pb_playbackQueue := [WordTimestampFrame [''a''], AudioFrame [0, 0], WordTimestampFrame [''b'']]\<rparr>;
       evs = [PbTick 1, PbFrame (WordTimestampFrame [''c'']), PbTick 2]
   in (\<forall>e \<in> set evs. \<not> restarts e)
    \<and> pushes_to Upstream (fst (snd (runPlayback (fst (handleQueueFrame p InterruptFrame)) evs))) = []"
proof -
  let ?evs = "[PbTick 1, PbFrame (WordTimestampFrame [''c'']), PbTick 2]"
  have h: "\<forall>e \<in> set ?evs. \<not> restarts e" by simp
  from interrupt_final [OF h] h show ?thesis unfolding Let_def by blast
qed

section \<open>The end of playback\<close>

fun plays_on :: "playback_event \<Rightarrow> bool" where
  "plays_on (PbFrame (LLMResponseStartFrame _)) = False"
| "plays_on (PbFrame (TTSSpeakFrame _)) = False"
| "plays_on (PbFrame (EndFrame _)) = False"
| "plays_on _ = True"

text \<open>The first \<open>EndFrame\<close> of a queue, and the audio frames in front of it.\<close>

fun first_end :: "frame list \<Rightarrow> string option" where
  "first_end [] = None"
| "first_end (EndFrame r # q) = Some r"
| "first_end (f # q) = first_end q"

fun audio_ahead :: "frame list \<Rightarrow> nat" where
  "audio_ahead [] = 0"
| "audio_ahead (EndFrame r # q) = 0"
| "audio_ahead (AudioFrame d # q) = Suc (audio_ahead q)"
| "audio_ahead (f # q) = audio_ahead q"

fun ticks :: "playback_event list \<Rightarrow> nat" where
  "ticks [] = 0"
| "ticks (PbTick _ # evs) = Suc (ticks evs)"
| "ticks (_ # evs) = ticks evs"

lemma first_end_append: "first_end q = Some r \<Longrightarrow> first_end (q @ q') = Some r \<and> audio_ahead (q @ q') = audio_ahead q"
  by (induction q rule: first_end.induct) auto

lemma first_end_purge:
  "first_end (purge_queue q) = first_end q \<and> (first_end q \<noteq> None \<longrightarrow> audio_ahead (purge_queue q) \<le> audio_ahead q)"
proof (induction q)
  case (Cons f q)
  then show ?case by (cases f) (auto simp: purge_queue_def)
qed (simp add: purge_queue_def)

lemma end_frame_step:
  assumes "first_end (pb_playbackQueue p) = Some r" and "plays_on (PbFrame f)"
  shows "first_end (pb_playbackQueue (fst (handleQueueFrame p f))) = Some r
    \<and> audio_ahead (pb_playbackQueue (fst (handleQueueFrame p f))) \<le> audio_ahead (pb_playbackQueue p)
    \<and> pushes (snd (handleQueueFrame p f)) = []"
  using assms first_end_append [OF assms(1)] first_end_purge [of "pb_playbackQueue p"]
  by (cases f) auto

lemma start_speech_ends: "filter (\<lambda>x. is_end (fst x)) (pushes (snd (start_speech now p))) = []"
  by (simp add: start_speech_def Let_def split_beta split: option.split)

lemma tick_queue_end:
  "first_end q = Some r \<Longrightarrow>
    (if audio_ahead q = 0
     then snd (snd (tick_queue now p q)) = Inr ()
        \<and> filter (\<lambda>x. is_end (fst x)) (pushes (fst (snd (tick_queue now p q)))) = [(EndFrame r, Downstream)]
     else isl (snd (snd (tick_queue now p q)))
        \<and> first_end (pb_playbackQueue (fst (tick_queue now p q))) = Some r
        \<and> Suc (audio_ahead (pb_playbackQueue (fst (tick_queue now p q)))) = audio_ahead q
        \<and> filter (\<lambda>x. is_end (fst x)) (pushes (fst (snd (tick_queue now p q)))) = [])"
proof (induction q arbitrary: p)
  case (Cons f q)
  then show ?case
  proof (cases f)
    case (AudioFrame d)
    with Cons.prems start_speech_ends [of now p] show ?thesis by (simp add: split_beta Let_def)
  next
    case (EndFrame r')
    have "pushes (replicate n (Room (WriteAudioPCM x))) = []" for n x
      by (induction n) simp_all
    with EndFrame Cons.prems show ?thesis by (simp add: writeSilenceTail_def)
  qed (use Cons in \<open>auto simp: split_beta Let_def\<close>)
qed simp

lemma playback_ends_main:
  assumes "first_end (pb_playbackQueue p) = Some r" and "\<forall>e \<in> set evs. plays_on e"
    and "audio_ahead (pb_playbackQueue p) < ticks evs"
  shows "snd (snd (runPlayback p evs))
    \<and> filter (\<lambda>x. is_end (fst x)) (pushes (fst (snd (runPlayback p evs)))) = [(EndFrame r, Downstream)]"
  using assms
proof (induction p evs rule: runPlayback.induct)
  case (2 p f evs)
  from 2(2,3) have st: "first_end (pb_playbackQueue (fst (handleQueueFrame p f))) = Some r"
    "audio_ahead (pb_playbackQueue (fst (handleQueueFrame p f))) \<le> audio_ahead (pb_playbackQueue p)"
    "pushes (snd (handleQueueFrame p f)) = []"
    using end_frame_step [of p r f] by auto
  with 2 show ?case by (cases "handleQueueFrame p f") (simp add: split_beta Let_def)
next
  case (3 p now evs)
  note tq = tick_queue_end [OF 3(2), of now p]
  show ?case
  proof (cases "audio_ahead (pb_playbackQueue p) = 0")
    case True
    with tq have "snd (snd (tick_queue now p (pb_playbackQueue p))) = Inr ()"
      "filter (\<lambda>x. is_end (fst x)) (pushes (fst (snd (tick_queue now p (pb_playbackQueue p))))) = [(EndFrame r, Downstream)]"
      by simp_all
    then show ?thesis by (simp add: tick_def split_beta Let_def)
  next
    case False
    with tq obtain bot_pcm where r: "snd (snd (tick_queue now p (pb_playbackQueue p))) = Inl bot_pcm"
      and q: "first_end (pb_playbackQueue (fst (tick_queue now p (pb_playbackQueue p)))) = Some r"
      "Suc (audio_ahead (pb_playbackQueue (fst (tick_queue now p (pb_playbackQueue p))))) = audio_ahead (pb_playbackQueue p)"
      "filter (\<lambda>x. is_end (fst x)) (pushes (fst (snd (tick_queue now p (pb_playbackQueue p))))) = []"
      by (auto simp: isl_def)
    have t: "\<not> snd (snd (tick now p))"
      "first_end (pb_playbackQueue (fst (tick now p))) = Some r"
      "Suc (audio_ahead (pb_playbackQueue (fst (tick now p)))) = audio_ahead (pb_playbackQueue p)"
      "filter (\<lambda>x. is_end (fst x)) (pushes (fst (snd (tick now p)))) = []"
      using r q by (simp_all add: tick_def split_beta Let_def mixPCM_state)
    with 3 show ?thesis by (cases "tick now p") (simp add: split_beta Let_def)
  qed
qed simp



end
