(* ===== verification/Phonetic.thy ===== *)
theory Phonetic
  imports GoStrings
begin

text \<open>
  The pronunciation filter (\<open>phonetic_filter.go\<close>) in front of speech synthesis: left-over tool-call
  text is removed, then every word is looked up in a dictionary. The two regular expressions are
  matched by hand, leftmost first, as Go's engine does.
\<close>

section \<open>The filter\<close>

text \<open>The dictionary, with lowered keys; \<open>None\<close> is the nil filter of an empty dictionary.\<close>

type_synonym phonetic_filter = "(string \<times> string) list option"

definition newPhoneticFilter :: "(string \<times> string) list \<Rightarrow> phonetic_filter" where
  "newPhoneticFilter dict =
     (if length dict = 0 then None else Some (map (\<lambda>(k, v). (to_lower k, v)) dict))"

text \<open>\<open>fnCallRe\<close>: the length of a match at the head of a text, or \<open>None\<close>. After the name an
  argument list in parentheses, or else in braces, is taken up to its first closing mark.\<close>

definition re_space :: "char \<Rightarrow> bool" where
  "re_space c = (c \<in> {CHR 0x09, CHR 0x0A, CHR 0x0C, CHR 0x0D, CHR '' ''})"

definition args_len :: "string \<Rightarrow> nat" where
  "args_len s =
     (let ws = length (takeWhile re_space s); rest = drop ws s;
          close = (\<lambda>c. case index_of [c] rest of None \<Rightarrow> 0 | Some i \<Rightarrow> ws + i + 1)
      in if has_prefix rest ''('' then close CHR '')''
         else if has_prefix rest ''{'' then close CHR ''}'' else 0)"

definition fn_call_len :: "string \<Rightarrow> nat option" where
  "fn_call_len s =
     (let name_len = (if has_prefix s ''functions.update_stage'' then 22
                      else if has_prefix s ''functions.update_agenda'' then 23 else 0)
      in if name_len = 0 then None else Some (name_len + args_len (drop name_len s)))"

text \<open>\<open>fnCallRe.ReplaceAllString(s, "")\<close>.\<close>

function strip_calls :: "string \<Rightarrow> string" where
  "strip_calls s =
     (case s of [] \<Rightarrow> []
      | c # cs \<Rightarrow> (case fn_call_len s of
           Some n \<Rightarrow> if n = 0 then c # strip_calls cs else strip_calls (drop n s)
         | None \<Rightarrow> c # strip_calls cs))"
  by auto
termination
  by (relation "measure length") auto

declare strip_calls.simps [simp del]

text \<open>\<open>tokenRe\<close>: a run of letters and digits, Latin or Devanagari, or a single danda.\<close>

definition token_rune :: "nat \<Rightarrow> bool" where
  "token_rune r =
     ((97 \<le> r \<and> r \<le> 122) \<or> (65 \<le> r \<and> r \<le> 90) \<or> (48 \<le> r \<and> r \<le> 57)
      \<or> (0x0900 \<le> r \<and> r \<le> 0x0963) \<or> (0x0966 \<le> r \<and> r \<le> 0x097F))"

definition danda :: "nat \<Rightarrow> bool" where
  "danda r = (r = 0x0964 \<or> r = 0x0965)"

definition rune_width :: "string \<Rightarrow> nat" where
  "rune_width s = max 1 (snd (decode_rune s))"

function run_len :: "string \<Rightarrow> nat" where
  "run_len s =
     (if s = [] \<or> \<not> token_rune (fst (decode_rune s)) then 0
      else rune_width s + run_len (drop (rune_width s) s))"
  by pat_completeness auto
termination
  by (relation "measure length") (auto simp: rune_width_def)

declare run_len.simps [simp del]

definition token_len :: "string \<Rightarrow> nat" where
  "token_len s =
     (if run_len s > 0 then run_len s
      else if s \<noteq> [] \<and> danda (fst (decode_rune s)) then rune_width s else 0)"

definition replace_token :: "(string \<times> string) list \<Rightarrow> string \<Rightarrow> string" where
  "replace_token dict tok =
     (case map_of dict (to_lower tok) of
        Some replacement \<Rightarrow> if replacement \<noteq> [] then replacement else tok
      | None \<Rightarrow> tok)"

text \<open>\<open>tokenRe.ReplaceAllStringFunc\<close>.\<close>

function replace_tokens :: "(string \<Rightarrow> string) \<Rightarrow> string \<Rightarrow> string" where
  "replace_tokens f s =
     (if s = [] then []
      else if token_len s = 0 then hd s # replace_tokens f (tl s)
      else f (take (token_len s) s) @ replace_tokens f (drop (token_len s) s))"
  by pat_completeness auto
termination
  by (relation "measure (\<lambda>(f, s). length s)") auto

declare replace_tokens.simps [simp del]

definition isAlnumRune :: "nat \<Rightarrow> bool" where
  "isAlnumRune r =
     (if 48 \<le> r \<and> r \<le> 57 then True
      else if 97 \<le> r \<and> r \<le> 122 then True
      else if 65 \<le> r \<and> r \<le> 90 then True
      else if 0x0900 \<le> r \<and> r \<le> 0x097F then True else False)"

definition containsSpeakable :: "string \<Rightarrow> bool" where
  "containsSpeakable s = list_ex isAlnumRune (runes s)"

definition apply_filter :: "phonetic_filter \<Rightarrow> string \<Rightarrow> string" where
  "apply_filter f txt =
     (case f of None \<Rightarrow> txt
      | Some dict \<Rightarrow>
          (let cleaned = (if contains txt ''functions.update'' then strip_calls txt else txt)
           in if contains txt ''functions.update'' \<and> trim_space cleaned = [] then []
              else let translated = trim_space (replace_tokens (replace_token dict) cleaned)
                   in if \<not> containsSpeakable translated then [] else translated))"

section \<open>Properties\<close>

text \<open>The tokens of a text, in order.\<close>

function tokens :: "string \<Rightarrow> string list" where
  "tokens s =
     (if s = [] then []
      else if token_len s = 0 then tokens (tl s)
      else take (token_len s) s # tokens (drop (token_len s) s))"
  by pat_completeness auto
termination
  by (relation "measure length") auto

declare tokens.simps [simp del]

lemma replace_tokens_id:
  "(\<And>w. w \<in> set (tokens s) \<Longrightarrow> f w = w) \<Longrightarrow> replace_tokens f s = s"
proof (induction s rule: tokens.induct)
  case (1 s)
  show ?case
  proof (cases "s = []")
    case False
    show ?thesis
    proof (cases "token_len s = 0")
      case True
      with False 1 show ?thesis
        by (subst replace_tokens.simps) (simp add: tokens.simps [of s])
    next
      case tok: False
      have "f (take (token_len s) s) = take (token_len s) s"
        using 1(3) False tok by (simp add: tokens.simps [of s])
      moreover have "replace_tokens f (drop (token_len s) s) = drop (token_len s) s"
        using 1 False tok by (simp add: tokens.simps [of s])
      ultimately show ?thesis using False tok
        by (subst replace_tokens.simps) simp
    qed
  qed (simp add: replace_tokens.simps)
qed

text \<open>
  The filter touches only what it must. Its result is empty or speakable, and a text with no
  left-over tool call, none of whose words is in the dictionary, comes out as it is, apart from
  white space around it, or empty when there is nothing to speak.
\<close>

theorem phonetic_filter_faithful:
  assumes "dict \<noteq> []"
  shows "(apply_filter (newPhoneticFilter dict) txt = [] \<or> containsSpeakable (apply_filter (newPhoneticFilter dict) txt))
    \<and> (\<not> contains txt ''functions.update''
         \<and> (\<forall>w \<in> set (tokens txt). map_of (map (\<lambda>(k, v). (to_lower k, v)) dict) (to_lower w) = None)
       \<longrightarrow> apply_filter (newPhoneticFilter dict) txt
            = (if containsSpeakable (trim_space txt) then trim_space txt else []))"
proof -
  have "replace_tokens (replace_token (map (\<lambda>(k, v). (to_lower k, v)) dict)) txt = txt"
    if "\<forall>w \<in> set (tokens txt). map_of (map (\<lambda>(k, v). (to_lower k, v)) dict) (to_lower w) = None"
    using that by (intro replace_tokens_id) (simp add: replace_token_def)
  then show ?thesis
    using assms by (simp add: apply_filter_def newPhoneticFilter_def Let_def)
qed

theorem phonetic_filter_faithful_witness:
  "let d = [(''Disha'', ''Disshaa'')] in d \<noteq> []
   \<and> (let r = apply_filter (newPhoneticFilter d) ''hello disha'' in r = [] \<or> containsSpeakable r)"
  using phonetic_filter_faithful [of "[(''Disha'', ''Disshaa'')]" "''hello disha''"] by (simp add: Let_def)

end
