(* ===== verification/Tts.thy ===== *)
theory Tts
  imports Phonetic AudioFmt Observers
begin

text \<open>
  \<open>TTSProcessor\<close> (\<open>tts_processor.go\<close>): the orchestrator that owns the synthesis state, sends text
  to the speech service, cuts its audio into frames, releases words as their audio is passed on, and
  holds an \<open>EndFrame\<close> back until the service is done. The service is the world: whether a write
  to the socket succeeds, and the messages that come back.
\<close>

section \<open>State\<close>

definition endsWithPunctuation :: "string \<Rightarrow> bool" where
  "endsWithPunctuation s = (if s = [] then False else is_punct (decode_last_rune s))"

record pending_word =
  pw_word :: string
  pw_start :: rat

datatype tts_event =
    AudioChunk (ev_context: string) "byte list"
  | WordTimestamps (ev_context: string) "pending_word list"
  | SynthDone (ev_context: string)

record tts =
  ts_phonetic :: phonetic_filter
  ts_outputSampleRate :: int
  ts_currentAggregation :: string
  ts_currentContextId :: string
  ts_firstTextReceived :: bool
  ts_firstSentenceSent :: bool
  ts_pcmBuffer :: "byte list"
  ts_pendingWords :: "pending_word list"
  ts_audioTimePushed :: rat
  ts_firstAudioReceived :: bool
  ts_activeContextId :: string
  ts_metrics :: processor_metrics
  ts_events :: "tts_event list"
  ts_cartesiaTextSent :: bool
  ts_pendingEnd :: "(string \<times> direction) option"
  ts_stopped :: bool

definition NewTTSProcessor :: "(string \<times> string) list \<Rightarrow> int option \<Rightarrow> tts" where
  "NewTTSProcessor phoneticDict room =
     \<lparr>ts_phonetic = newPhoneticFilter phoneticDict, ts_outputSampleRate = outputSampleRateFromRoom room,
      ts_currentAggregation = [], ts_currentContextId = [], ts_firstTextReceived = False,
      ts_firstSentenceSent = False, ts_pcmBuffer = [], ts_pendingWords = [], ts_audioTimePushed = 0,
      ts_firstAudioReceived = False, ts_activeContextId = [], ts_metrics = NewProcessorMetrics ''tts'',
      ts_events = [], ts_cartesiaTextSent = False, ts_pendingEnd = None, ts_stopped = False\<rparr>"

text \<open>
  What one handler finds in the world: the time, the random context number, and whether its write
  of text and its write of a control message succeed. What it writes to the socket is listed with
  its effects.
\<close>

record tts_env =
  tv_now :: gotime
  tv_fresh :: nat
  tv_textOk :: bool
  tv_controlOk :: bool

datatype wire = Transcript string string | Flush string | Cancel string

datatype tts_out = Out effect | Wire wire

fun out_effect :: "tts_out \<Rightarrow> effect list" where
  "out_effect (Out e) = [e]"
| "out_effect (Wire _) = []"

definition effects_of :: "tts_out list \<Rightarrow> effect list" where
  "effects_of os = concat (map out_effect os)"

definition outputRate :: "tts \<Rightarrow> int" where
  "outputRate t = (if ts_outputSampleRate t \<le> 0 then defaultOutputSampleRate else ts_outputSampleRate t)"

definition frameBytes :: "tts \<Rightarrow> nat" where
  "frameBytes t = nat (pcmFrameBytesForRate (outputRate t))"

definition ts_Stop :: "tts \<Rightarrow> tts" where
  "ts_Stop t = t\<lparr>ts_activeContextId := [], ts_stopped := True\<rparr>"

section \<open>Writes to the service\<close>

definition sendTextToTTS :: "tts_env \<Rightarrow> tts \<Rightarrow> string \<Rightarrow> bool \<times> tts_out list" where
  "sendTextToTTS v t txt =
     (let speakable = (if ts_phonetic t = None then txt else apply_filter (ts_phonetic t) txt)
      in if ts_phonetic t \<noteq> None \<and> trim_space speakable = [] then (False, [])
         else if \<not> tv_textOk v then (False, [])
         else (True, [Wire (Transcript (ts_currentContextId t) speakable)] @
                     (if txt = [] then [] else [Out (UI (BotTranscription txt) (tv_now v))])))"

definition ResetTTSContext :: "tts_env \<Rightarrow> tts \<Rightarrow> bool \<times> tts_out list" where
  "ResetTTSContext v t =
     (if ts_currentContextId t = [] then (False, [])
      else if \<not> tv_controlOk v then (False, [])
      else (True, [Wire (Flush (ts_currentContextId t))]))"

definition CancelTTSContext :: "tts_env \<Rightarrow> tts \<Rightarrow> bool \<times> tts_out list" where
  "CancelTTSContext v t =
     (if ts_currentContextId t = [] then (False, [])
      else if \<not> tv_controlOk v then (False, [])
      else (True, [Wire (Cancel (ts_currentContextId t))]))"

section \<open>The orchestrator\<close>

definition clearTTSState :: "tts \<Rightarrow> tts" where
  "clearTTSState t =
     t\<lparr>ts_activeContextId := [], ts_currentAggregation := [], ts_currentContextId := [],
       ts_pcmBuffer := [], ts_pendingWords := [], ts_audioTimePushed := 0,
       ts_firstTextReceived := False, ts_firstSentenceSent := False, ts_firstAudioReceived := False,
       ts_cartesiaTextSent := False\<rparr>"

definition drainTTSEvents :: "tts \<Rightarrow> tts" where
  "drainTTSEvents t = t\<lparr>ts_events := []\<rparr>"

text \<open>Send what is aggregated; the flag records that text went out.\<close>

definition send_aggregate :: "tts_env \<Rightarrow> tts \<Rightarrow> tts \<times> tts_out list" where
  "send_aggregate v t =
     (if trim_space (ts_currentAggregation t) = [] then (t, [])
      else let (ok, es) = sendTextToTTS v t (ts_currentAggregation t)
           in (if ok then t\<lparr>ts_cartesiaTextSent := True\<rparr> else t, es))"

definition reset_if_sent :: "tts_env \<Rightarrow> tts \<Rightarrow> tts \<times> tts_out list" where
  "reset_if_sent v t =
     (if \<not> ts_cartesiaTextSent t then (t, [])
      else let (ok, es) = ResetTTSContext v t
           in (if ok then t else t\<lparr>ts_cartesiaTextSent := False\<rparr>, es))"

definition flushForEnd :: "tts_env \<Rightarrow> tts \<Rightarrow> tts \<times> tts_out list" where
  "flushForEnd v t =
     (let (t1, es1) = send_aggregate v t;
          t2 = (if trim_space (ts_currentAggregation t) = [] then t1 else t1\<lparr>ts_currentAggregation := []\<rparr>);
          (t3, es2) = reset_if_sent v t2
      in (t3, es1 @ es2))"

text \<open>\<open>handleEnd\<close>: forward now, defer, or ignore a second one. The second component of the result is
  \<open>True\<close> when the orchestrator exits.\<close>

definition handleEnd :: "tts_env \<Rightarrow> tts \<Rightarrow> string \<Rightarrow> direction \<Rightarrow> tts \<times> bool \<times> tts_out list" where
  "handleEnd v t reason dir =
     (if ts_pendingEnd t \<noteq> None then (t, False, [])
      else let (t1, es) = flushForEnd v t
           in if ts_cartesiaTextSent t1 then (t1\<lparr>ts_pendingEnd := Some (reason, dir)\<rparr>, False, es)
              else (ts_Stop t1, True, es @ [Out (Push (EndFrame reason) dir)]))"

definition forwardPendingEnd :: "tts \<Rightarrow> tts \<times> bool \<times> tts_out list" where
  "forwardPendingEnd t =
     (case ts_pendingEnd t of None \<Rightarrow> (t, False, [])
      | Some (reason, dir) \<Rightarrow>
          (ts_Stop (t\<lparr>ts_pendingEnd := None\<rparr>), True, [Out (Push (EndFrame reason) dir)]))"

definition new_context :: "tts_env \<Rightarrow> tts \<Rightarrow> tts" where
  "new_context v t =
     t\<lparr>ts_currentContextId := ''ctx-'' @ nat_str (tv_fresh v),
       ts_activeContextId := ''ctx-'' @ nat_str (tv_fresh v)\<rparr>"

definition handle_text :: "tts_env \<Rightarrow> tts \<Rightarrow> string \<Rightarrow> tts \<times> tts_out list" where
  "handle_text v t txt =
     (let t1 = (if ts_firstTextReceived t then t
                else t\<lparr>ts_firstTextReceived := True,
                       ts_metrics := pm_Start (tv_now v) MetricTextAggregation (ts_metrics t)\<rparr>);
          t2 = t1\<lparr>ts_currentAggregation := ts_currentAggregation t1 @ txt\<rparr>
      in if \<not> endsWithPunctuation (ts_currentAggregation t2) then (t2, [])
         else let (mf, m) = pm_Stop (tv_now v) MetricTextAggregation (ts_metrics t2);
                  es0 = (if ts_firstSentenceSent t2 then []
                         else case mf of None \<Rightarrow> [] | Some d \<Rightarrow> [Out (Push (MetricsFrame [d]) Downstream)]);
                  t3 = (if ts_firstSentenceSent t2 then t2
                        else t2\<lparr>ts_firstSentenceSent := True, ts_metrics := pm_Start (tv_now v) MetricTTFB m\<rparr>);
                  (ok, es) = sendTextToTTS v t3 (ts_currentAggregation t3);
                  t4 = (if ok then t3\<lparr>ts_cartesiaTextSent := True\<rparr> else t3)
              in (t4\<lparr>ts_currentAggregation := []\<rparr>, es0 @ es))"

definition handle_response_end :: "tts_env \<Rightarrow> tts \<Rightarrow> direction \<Rightarrow> tts \<times> tts_out list" where
  "handle_response_end v t dir =
     (let (t1, es1) = send_aggregate v t;
          (t2, es2) = (if ts_cartesiaTextSent t1 then reset_if_sent v t1
                       else (t1, [Out (Push TTSDoneFrame Downstream)]))
      in (t2\<lparr>ts_currentAggregation := [], ts_pcmBuffer := []\<rparr>,
          es1 @ es2 @ [Out (Push LLMResponseEndFrame dir)]))"

definition handle_speak :: "tts_env \<Rightarrow> tts \<Rightarrow> string \<Rightarrow> direction \<Rightarrow> tts \<times> tts_out list" where
  "handle_speak v t txt dir =
     (let t1 = drainTTSEvents (clearTTSState t);
          t2 = new_context v (t1\<lparr>ts_firstSentenceSent := True, ts_metrics := pm_Reset (ts_metrics t1)\<rparr>);
          t3 = t2\<lparr>ts_metrics := pm_Start (tv_now v) MetricTTFB (ts_metrics t2)\<rparr>;
          (ok, es1) = sendTextToTTS v t3 txt;
          (t4, es2) = (if ok then reset_if_sent v (t3\<lparr>ts_cartesiaTextSent := True\<rparr>) else (t3, []))
      in (t4, es1 @ es2 @ [Out (Push (TTSSpeakFrame txt) dir)]))"

text \<open>\<open>handleCommand\<close>.\<close>

fun handleCommand :: "tts_env \<Rightarrow> tts \<Rightarrow> frame \<Rightarrow> direction \<Rightarrow> tts \<times> bool \<times> tts_out list" where
  "handleCommand v t InterruptFrame dir =
     (if ts_pendingEnd t \<noteq> None then (t, False, [])
      else let (_, es) = CancelTTSContext v t;
               t1 = drainTTSEvents (clearTTSState t)
           in (t1\<lparr>ts_metrics := pm_Reset (ts_metrics t1)\<rparr>, False, es))"
| "handleCommand v t (EndFrame reason) dir = handleEnd v t reason dir"
| "handleCommand v t (LLMResponseStartFrame at0) dir =
     (if ts_pendingEnd t \<noteq> None then (t, False, [])
      else let t1 = drainTTSEvents (clearTTSState t);
               t2 = new_context v (t1\<lparr>ts_metrics := pm_Reset (ts_metrics t1)\<rparr>)
           in (t2, False, [Out (Push (LLMResponseStartFrame at0) dir)]))"
| "handleCommand v t (TextFrame txt) dir =
     (if ts_pendingEnd t \<noteq> None then (t, False, [])
      else let (t1, es) = handle_text v t txt in (t1, False, es))"
| "handleCommand v t LLMResponseEndFrame dir =
     (if ts_pendingEnd t \<noteq> None then (t, False, [])
      else let (t1, es) = handle_response_end v t dir in (t1, False, es))"
| "handleCommand v t (TTSSpeakFrame txt) dir =
     (if ts_pendingEnd t \<noteq> None then (t, False, [])
      else let (t1, es) = handle_speak v t txt dir in (t1, False, es))"
| "handleCommand v t frame dir =
     (if ts_pendingEnd t \<noteq> None then (t, False, []) else (t, False, [Out (Push frame dir)]))"

section \<open>Audio and words\<close>

definition frame_seconds :: rat where "frame_seconds = rnd64 (2 / 100)"

fun emit_words :: "rat \<Rightarrow> pending_word list \<Rightarrow> tts_out list \<times> pending_word list" where
  "emit_words pushedTime [] = ([], [])"
| "emit_words pushedTime (w # ws) =
     (if pw_start w \<le> pushedTime
      then let (es, rest) = emit_words pushedTime ws
           in (Out (Push (WordTimestampFrame [pw_word w]) Downstream) # es, rest)
      else ([], w # ws))"

definition emitPendingWords :: "tts \<Rightarrow> tts \<times> tts_out list" where
  "emitPendingWords t =
     (let (es, rest) = emit_words (ts_audioTimePushed t) (ts_pendingWords t)
      in (t\<lparr>ts_pendingWords := rest\<rparr>, es))"

text \<open>\<open>nextPCMFrame\<close>: a frame off the buffer, when it holds one.\<close>

definition nextPCMFrame :: "tts \<Rightarrow> byte list option \<times> tts" where
  "nextPCMFrame t =
     (let fb = frameBytes t
      in if length (ts_pcmBuffer t) < fb then (None, t)
         else (Some (take fb (ts_pcmBuffer t)), t\<lparr>ts_pcmBuffer := drop fb (ts_pcmBuffer t)\<rparr>))"

text \<open>
  The loop of \<open>handleAudioChunkData\<close>. A frame has no bytes only for an output rate below 50 Hz, for
  which the loop would not end; rooms have rates from 8000 Hz, and the model stops there.
\<close>

function chunk_loop :: "tts \<Rightarrow> tts \<times> tts_out list" where
  "chunk_loop t =
     (if frameBytes t = 0 \<or> length (ts_pcmBuffer t) < frameBytes t then (t, [])
      else let pcmFrame = take (frameBytes t) (ts_pcmBuffer t);
               t1 = t\<lparr>ts_pcmBuffer := drop (frameBytes t) (ts_pcmBuffer t),
                      ts_audioTimePushed := fadd (ts_audioTimePushed t) frame_seconds\<rparr>;
               (t2, es) = emitPendingWords t1;
               (t3, es') = chunk_loop t2
           in (t3, [Out (Push (AudioFrame pcmFrame) Downstream)] @ es @ es'))"
  by pat_completeness auto

lemma frameBytes_cong: "ts_outputSampleRate t = ts_outputSampleRate t' \<Longrightarrow> frameBytes t = frameBytes t'"
  by (simp add: frameBytes_def outputRate_def)

lemma emitPendingWords_frame [simp]:
  "ts_pcmBuffer (fst (emitPendingWords t)) = ts_pcmBuffer t"
  "ts_outputSampleRate (fst (emitPendingWords t)) = ts_outputSampleRate t"
  "ts_currentContextId (fst (emitPendingWords t)) = ts_currentContextId t"
  "ts_cartesiaTextSent (fst (emitPendingWords t)) = ts_cartesiaTextSent t"
  "ts_pendingEnd (fst (emitPendingWords t)) = ts_pendingEnd t"
  "ts_stopped (fst (emitPendingWords t)) = ts_stopped t"
  "ts_audioTimePushed (fst (emitPendingWords t)) = ts_audioTimePushed t"
  by (simp_all add: emitPendingWords_def split_beta Let_def)

termination chunk_loop
  by (relation "measure (\<lambda>t. length (ts_pcmBuffer t))")
     (auto simp: emitPendingWords_def split_beta Let_def split: prod.splits)

declare chunk_loop.simps [simp del]

definition handleAudioChunkData :: "tts_env \<Rightarrow> tts \<Rightarrow> byte list \<Rightarrow> tts \<times> tts_out list" where
  "handleAudioChunkData v t audioData =
     (if ts_currentContextId t = [] then (t, [])
      else let (mf, m) = pm_Stop (tv_now v) MetricTTFB (ts_metrics t);
               (t1, es1) = (if ts_firstAudioReceived t then (t, [])
                            else (t\<lparr>ts_firstAudioReceived := True, ts_metrics := m\<rparr>,
                                  case mf of None \<Rightarrow> [] | Some d \<Rightarrow> [Out (Push (MetricsFrame [d]) Downstream)]));
               (t2, es2) = chunk_loop (t1\<lparr>ts_pcmBuffer := ts_pcmBuffer t1 @ audioData\<rparr>)
           in (t2, es1 @ es2))"

definition pushRemainingAudioFrames :: "tts \<Rightarrow> tts \<times> tts_out list" where
  "pushRemainingAudioFrames t =
     (if ts_currentContextId t = [] then (t, [])
      else let (t1, es1) =
                 (if length (ts_pcmBuffer t) > 0 then
                    (let padded = ts_pcmBuffer t @ replicate (frameBytes t - length (ts_pcmBuffer t)) 0;
                         (pcmFrame, t') = nextPCMFrame (t\<lparr>ts_pcmBuffer := padded\<rparr>)
                     in case pcmFrame of None \<Rightarrow> (t', [])
                        | Some f \<Rightarrow> (t'\<lparr>ts_audioTimePushed := fadd (ts_audioTimePushed t') frame_seconds\<rparr>,
                                     [Out (Push (AudioFrame f) Downstream)]))
                  else (t, []))
           in (t1\<lparr>ts_pendingWords := []\<rparr>,
               es1 @ map (\<lambda>w. Out (Push (WordTimestampFrame [pw_word w]) Downstream)) (ts_pendingWords t1)))"

definition isCurrentContext :: "tts \<Rightarrow> string \<Rightarrow> bool" where
  "isCurrentContext t contextID = (ts_currentContextId t \<noteq> [] \<and> ts_currentContextId t = contextID)"

definition isActiveContext :: "tts \<Rightarrow> string \<Rightarrow> bool" where
  "isActiveContext t contextID = (ts_activeContextId t \<noteq> [] \<and> ts_activeContextId t = contextID)"

definition handleTTSEvent :: "tts_env \<Rightarrow> tts \<Rightarrow> tts_event \<Rightarrow> tts \<times> bool \<times> tts_out list" where
  "handleTTSEvent v t event =
     (if \<not> isCurrentContext t (ev_context event) then (t, False, [])
      else case event of
             AudioChunk _ audioData \<Rightarrow>
               (let (t1, es) = handleAudioChunkData v t audioData in (t1, False, es))
           | WordTimestamps _ ws \<Rightarrow>
               (let (t1, es) = emitPendingWords (t\<lparr>ts_pendingWords := ts_pendingWords t @ ws\<rparr>)
                in (t1, False, es))
           | SynthDone _ \<Rightarrow>
               (let (t1, es) = pushRemainingAudioFrames t
                in (t1, True, es @ [Out (Push TTSDoneFrame Downstream)])))"

text \<open>One turn of the orchestrator's select: a command, or an event from the service.\<close>

datatype tts_input = Command frame direction | Event tts_event

fun tts_step :: "tts_env \<Rightarrow> tts \<Rightarrow> tts_input \<Rightarrow> tts \<times> bool \<times> tts_out list" where
  "tts_step v t (Command f dir) = handleCommand v t f dir"
| "tts_step v t (Event ev) =
     (let (t1, synth_done, es) = handleTTSEvent v t ev
      in if synth_done
         then let (t2, exit, es') = forwardPendingEnd (t1\<lparr>ts_cartesiaTextSent := False\<rparr>)
              in (t2, exit, es @ es')
         else (t1, False, es))"

text \<open>The orchestrator until it exits.\<close>

fun orchestrator :: "tts \<Rightarrow> (tts_env \<times> tts_input) list \<Rightarrow> tts \<times> bool \<times> tts_out list" where
  "orchestrator t [] = (t, False, [])"
| "orchestrator t ((v, i) # ins) =
     (let (t1, exit, es) = tts_step v t i
      in if exit then (t1, True, es)
         else let (t2, exit2, es2) = orchestrator t1 ins in (t2, exit2, es @ es2))"

section \<open>ProcessFrame and the reader\<close>

text \<open>The relay: what is pushed at once, and what is queued for the orchestrator.\<close>

fun ts_process :: "frame \<Rightarrow> direction \<Rightarrow> effect list \<times> tts_input list" where
  "ts_process InterruptFrame dir = ([Push InterruptFrame dir], [Command InterruptFrame dir])"
| "ts_process TTSDoneFrame dir = ([Push TTSDoneFrame dir], [])"
| "ts_process BotStartedSpeakingFrame dir = ([Push BotStartedSpeakingFrame dir], [])"
| "ts_process BotStoppedSpeakingFrame dir = ([Push BotStoppedSpeakingFrame dir], [])"
| "ts_process (WordTimestampFrame ws) dir = ([Push (WordTimestampFrame ws) dir], [])"
| "ts_process f dir = ([], [Command f dir])"

text \<open>
  A message of the service, as the JSON decoder gives it for each of the four shapes it may be read
  as; \<open>None\<close> is a decoding error.
\<close>

record cartesia_message =
  cm_head :: "(string \<times> string) option"
  cm_chunk :: "(string \<times> string) option"
  cm_timestamps :: "(string \<times> string list \<times> rat list) option"
  cm_done :: "string option"

definition timed_words :: "string list \<Rightarrow> rat list \<Rightarrow> pending_word list" where
  "timed_words ws starts = map (\<lambda>(w, s). \<lparr>pw_word = w, pw_start = s\<rparr>) (zip ws starts)"

text \<open>\<open>readTTSConnectionData\<close>: the event one message becomes. \<open>b64\<close> is the base64 decoder.\<close>

definition read_message :: "(string \<Rightarrow> byte list option) \<Rightarrow> tts \<Rightarrow> cartesia_message \<Rightarrow> tts_event option" where
  "read_message b64 t m =
     (case cm_head m of
        None \<Rightarrow> None
      | Some (typ, err) \<Rightarrow>
          if err \<noteq> [] then None
          else if typ = ''chunk'' then
            (case cm_chunk m of None \<Rightarrow> None
             | Some (ctx, data) \<Rightarrow>
                 if \<not> isActiveContext t ctx then None
                 else map_option (AudioChunk ctx) (b64 data))
          else if typ = ''timestamps'' then
            (case cm_timestamps m of None \<Rightarrow> None
             | Some (ctx, ws, starts) \<Rightarrow>
                 if \<not> isActiveContext t ctx then None
                 else let tw = timed_words ws starts
                      in if length tw > 0 then Some (WordTimestamps ctx tw) else None)
          else if typ = ''done'' then
            (case cm_done m of None \<Rightarrow> None
             | Some ctx \<Rightarrow> if \<not> isActiveContext t ctx then None else Some (SynthDone ctx))
          else None)"

text \<open>\<open>connect\<close>: dial until it succeeds or the context is cancelled; the world's answers in order.\<close>

datatype dial_answer = DialOk | DialFailed | DialCancelled

fun tts_connect :: "dial_answer list \<Rightarrow> bool option" where
  "tts_connect [] = None"
| "tts_connect (DialCancelled # as) = Some False"
| "tts_connect (DialOk # as) = Some True"
| "tts_connect (DialFailed # as) = tts_connect as"

section \<open>What is pushed\<close>

lemma effects_of_simps [simp]:
  "effects_of [] = []" "effects_of (Out e # os) = e # effects_of os"
  "effects_of (Wire w # os) = effects_of os" "effects_of (xs @ ys) = effects_of xs @ effects_of ys"
  by (simp_all add: effects_of_def)

fun audio_data :: "frame \<Rightarrow> byte list list" where
  "audio_data (AudioFrame d) = [d]"
| "audio_data _ = []"

fun word_data :: "frame \<Rightarrow> string list" where
  "word_data (WordTimestampFrame ws) = ws"
| "word_data _ = []"

definition audio_frames :: "tts_out list \<Rightarrow> byte list list" where
  "audio_frames os = concat (map audio_data (map fst (pushes (effects_of os))))"

definition words_out :: "tts_out list \<Rightarrow> string list" where
  "words_out os = concat (map word_data (map fst (pushes (effects_of os))))"

definition ends_out :: "tts_out list \<Rightarrow> (frame \<times> direction) list" where
  "ends_out os = filter (\<lambda>x. is_end (fst x)) (pushes (effects_of os))"

lemma out_simps [simp]:
  "audio_frames [] = []" "audio_frames (xs @ ys) = audio_frames xs @ audio_frames ys"
  "audio_frames (Out (Push f d) # os) = audio_data f @ audio_frames os"
  "audio_frames (Wire w # os) = audio_frames os" "audio_frames (Out (UI u n) # os) = audio_frames os"
  "words_out [] = []" "words_out (xs @ ys) = words_out xs @ words_out ys"
  "words_out (Out (Push f d) # os) = word_data f @ words_out os"
  "words_out (Wire w # os) = words_out os" "words_out (Out (UI u n) # os) = words_out os"
  "ends_out [] = []" "ends_out (xs @ ys) = ends_out xs @ ends_out ys"
  "ends_out (Out (Push f d) # os) = (if is_end f then [(f, d)] else []) @ ends_out os"
  "ends_out (Wire w # os) = ends_out os" "ends_out (Out (UI u n) # os) = ends_out os"
  by (simp_all add: audio_frames_def words_out_def ends_out_def)

section \<open>Audio is cut into frames, words keep their order\<close>

lemma emit_words_spec:
  "words_out (fst (emit_words p ws)) @ map pw_word (snd (emit_words p ws)) = map pw_word ws
   \<and> audio_frames (fst (emit_words p ws)) = [] \<and> ends_out (fst (emit_words p ws)) = []"
  by (induction p ws rule: emit_words.induct) (simp_all add: split_beta Let_def)

lemma emitPendingWords_spec:
  "words_out (snd (emitPendingWords t)) @ map pw_word (ts_pendingWords (fst (emitPendingWords t)))
      = map pw_word (ts_pendingWords t)
   \<and> audio_frames (snd (emitPendingWords t)) = [] \<and> ends_out (snd (emitPendingWords t)) = []"
  using emit_words_spec [of "ts_audioTimePushed t" "ts_pendingWords t"]
  by (simp add: emitPendingWords_def split_beta Let_def)

text \<open>What the event handlers leave alone.\<close>

definition same_ctl :: "tts \<Rightarrow> tts \<Rightarrow> bool" where
  "same_ctl t t' \<longleftrightarrow> ts_outputSampleRate t' = ts_outputSampleRate t
     \<and> ts_currentContextId t' = ts_currentContextId t \<and> ts_cartesiaTextSent t' = ts_cartesiaTextSent t
     \<and> ts_pendingEnd t' = ts_pendingEnd t \<and> ts_stopped t' = ts_stopped t"

lemma same_ctl_emit: "same_ctl t (fst (emitPendingWords t))"
  by (simp add: same_ctl_def)

lemma chunk_loop_spec:
  "same_ctl t (fst (chunk_loop t))
   \<and> concat (audio_frames (snd (chunk_loop t))) @ ts_pcmBuffer (fst (chunk_loop t)) = ts_pcmBuffer t
   \<and> (\<forall>d \<in> set (audio_frames (snd (chunk_loop t))). length d = frameBytes t)
   \<and> (0 < frameBytes t \<longrightarrow> length (ts_pcmBuffer (fst (chunk_loop t))) < frameBytes t)
   \<and> words_out (snd (chunk_loop t)) @ map pw_word (ts_pendingWords (fst (chunk_loop t)))
       = map pw_word (ts_pendingWords t)
   \<and> ends_out (snd (chunk_loop t)) = []"
proof (induction t rule: chunk_loop.induct)
  case (1 t)
  show ?case
  proof (cases "frameBytes t = 0 \<or> length (ts_pcmBuffer t) < frameBytes t")
    case True
    then show ?thesis by (auto simp: chunk_loop.simps same_ctl_def)
  next
    case False
    define t1 where "t1 = t\<lparr>ts_pcmBuffer := drop (frameBytes t) (ts_pcmBuffer t),
      ts_audioTimePushed := fadd (ts_audioTimePushed t) frame_seconds\<rparr>"
    define t2 where "t2 = fst (emitPendingWords t1)"
    define es where "es = snd (emitPendingWords t1)"
    have em: "emitPendingWords t1 = (t2, es)" by (simp add: t2_def es_def)
    have fb: "frameBytes t2 = frameBytes t"
      by (rule frameBytes_cong) (simp add: t2_def t1_def)
    have st: "same_ctl t t2" by (simp add: same_ctl_def t2_def t1_def)
    have buf: "ts_pcmBuffer t2 = drop (frameBytes t) (ts_pcmBuffer t)" by (simp add: t2_def t1_def)
    have ws: "words_out es @ map pw_word (ts_pendingWords t2) = map pw_word (ts_pendingWords t)"
      "audio_frames es = []" "ends_out es = []"
    proof -
      have pw: "ts_pendingWords t1 = ts_pendingWords t" by (simp add: t1_def)
      show "words_out es @ map pw_word (ts_pendingWords t2) = map pw_word (ts_pendingWords t)"
        "audio_frames es = []" "ends_out es = []"
        using emitPendingWords_spec [of t1] unfolding em pw by simp_all
    qed
    have unf: "chunk_loop t = (fst (chunk_loop t2),
        [Out (Push (AudioFrame (take (frameBytes t) (ts_pcmBuffer t))) Downstream)] @ es @ snd (chunk_loop t2))"
      using False em by (subst chunk_loop.simps) (simp add: t1_def [symmetric] split_beta Let_def)
    note IH = 1 [OF False refl t1_def em [symmetric] refl]
    show ?thesis
      using IH False st buf fb ws unfolding unf
      by (auto simp: same_ctl_def)
  qed
qed

lemma chunk_spec:
  assumes "ts_currentContextId t \<noteq> []" and "0 < frameBytes t"
  shows "same_ctl t (fst (handleAudioChunkData v t d))
   \<and> concat (audio_frames (snd (handleAudioChunkData v t d))) @ ts_pcmBuffer (fst (handleAudioChunkData v t d))
       = ts_pcmBuffer t @ d
   \<and> (\<forall>x \<in> set (audio_frames (snd (handleAudioChunkData v t d))). length x = frameBytes t)
   \<and> length (ts_pcmBuffer (fst (handleAudioChunkData v t d))) < frameBytes t
   \<and> words_out (snd (handleAudioChunkData v t d)) @ map pw_word (ts_pendingWords (fst (handleAudioChunkData v t d)))
       = map pw_word (ts_pendingWords t)
   \<and> ends_out (snd (handleAudioChunkData v t d)) = []"
proof -
  define m where "m = snd (pm_Stop (tv_now v) MetricTTFB (ts_metrics t))"
  define t1 where "t1 = (if ts_firstAudioReceived t then t else t\<lparr>ts_firstAudioReceived := True, ts_metrics := m\<rparr>)"
  define es1 where "es1 = (if ts_firstAudioReceived t then [] else
    case fst (pm_Stop (tv_now v) MetricTTFB (ts_metrics t)) of None \<Rightarrow> [] | Some d \<Rightarrow> [Out (Push (MetricsFrame [d]) Downstream)])"
  have es1: "audio_frames es1 = []" "words_out es1 = []" "ends_out es1 = []"
    by (auto simp: es1_def split: option.split)
  define t2 where "t2 = t1\<lparr>ts_pcmBuffer := ts_pcmBuffer t1 @ d\<rparr>"
  have t2: "same_ctl t t2" "ts_pcmBuffer t2 = ts_pcmBuffer t @ d" "ts_pendingWords t2 = ts_pendingWords t"
    by (simp_all add: t2_def t1_def same_ctl_def)
  have fb: "frameBytes t2 = frameBytes t" by (rule frameBytes_cong) (simp add: t2_def t1_def)
  have unf: "handleAudioChunkData v t d = (fst (chunk_loop t2), es1 @ snd (chunk_loop t2))"
    using assms(1) by (simp add: handleAudioChunkData_def split_beta Let_def t2_def t1_def es1_def m_def)
  show ?thesis
    using chunk_loop_spec [of t2] assms(2) t2 es1 unfolding unf fb
    by (auto simp: same_ctl_def)
qed

lemma remaining_spec:
  assumes "ts_currentContextId t \<noteq> []" and "0 < frameBytes t" and "length (ts_pcmBuffer t) < frameBytes t"
  shows "same_ctl t (fst (pushRemainingAudioFrames t))
   \<and> (\<exists>k < frameBytes t. concat (audio_frames (snd (pushRemainingAudioFrames t))) = ts_pcmBuffer t @ replicate k 0)
   \<and> (\<forall>x \<in> set (audio_frames (snd (pushRemainingAudioFrames t))). length x = frameBytes t)
   \<and> words_out (snd (pushRemainingAudioFrames t)) = map pw_word (ts_pendingWords t)
   \<and> ends_out (snd (pushRemainingAudioFrames t)) = []"
proof -
  have ws: "words_out (map (\<lambda>w. Out (Push (WordTimestampFrame [pw_word w]) Downstream)) l) = map pw_word l"
    "audio_frames (map (\<lambda>w. Out (Push (WordTimestampFrame [pw_word w]) Downstream)) l) = []"
    "ends_out (map (\<lambda>w. Out (Push (WordTimestampFrame [pw_word w]) Downstream)) l) = []" for l
    by (induction l) simp_all
  have fb: "frameBytes (t\<lparr>ts_pcmBuffer := b\<rparr>) = frameBytes t" for b
    by (rule frameBytes_cong) simp
  show ?thesis
  proof (cases "ts_pcmBuffer t")
    case Nil
    then show ?thesis using assms
      by (simp add: pushRemainingAudioFrames_def same_ctl_def ws)
  next
    case (Cons b bs)
    let ?k = "frameBytes t - length (ts_pcmBuffer t)"
    have "?k < frameBytes t" using assms Cons by simp
    then show ?thesis using assms Cons
      by (auto simp: pushRemainingAudioFrames_def nextPCMFrame_def fb same_ctl_def Let_def ws
          intro!: exI [of _ ?k])
  qed
qed

text \<open>The audio and the words carried by a list of events.\<close>

fun event_audio :: "tts_event \<Rightarrow> byte list" where
  "event_audio (AudioChunk _ d) = d"
| "event_audio _ = []"

fun event_words :: "tts_event \<Rightarrow> string list" where
  "event_words (WordTimestamps _ ws) = map pw_word ws"
| "event_words _ = []"

fun is_done :: "tts_event \<Rightarrow> bool" where
  "is_done (SynthDone _) = True"
| "is_done _ = False"

lemma event_step:
  assumes "ts_currentContextId t = c" "c \<noteq> []" "0 < frameBytes t" "length (ts_pcmBuffer t) < frameBytes t"
    and "ev_context ev = c" "\<not> is_done ev" "tts_step v t (Event ev) = (t', exit, es)"
  shows "\<not> exit \<and> same_ctl t t' \<and> length (ts_pcmBuffer t') < frameBytes t
   \<and> concat (audio_frames es) @ ts_pcmBuffer t' = ts_pcmBuffer t @ event_audio ev
   \<and> (\<forall>x \<in> set (audio_frames es). length x = frameBytes t)
   \<and> words_out es @ map pw_word (ts_pendingWords t') = map pw_word (ts_pendingWords t) @ event_words ev
   \<and> ends_out es = []"
proof -
  have cur: "isCurrentContext t (ev_context ev)" using assms by (simp add: isCurrentContext_def)
  show ?thesis
  proof (cases ev)
    case (AudioChunk c' d)
    have "t' = fst (handleAudioChunkData v t d)" "es = snd (handleAudioChunkData v t d)" "\<not> exit"
      using assms cur by (auto simp: AudioChunk handleTTSEvent_def split_beta Let_def)
    then show ?thesis using chunk_spec [of t v d] assms by (simp add: AudioChunk)
  next
    case (WordTimestamps c' ws)
    let ?u = "t\<lparr>ts_pendingWords := ts_pendingWords t @ ws\<rparr>"
    have "t' = fst (emitPendingWords ?u)" "es = snd (emitPendingWords ?u)" "\<not> exit"
      using assms cur by (auto simp: WordTimestamps handleTTSEvent_def split_beta Let_def)
    then show ?thesis using emitPendingWords_spec [of ?u] same_ctl_emit [of ?u] assms
      by (simp add: WordTimestamps same_ctl_def)
  qed (use assms in simp)
qed

lemma events_run:
  assumes "ts_currentContextId t = c" "c \<noteq> []" "0 < frameBytes t" "length (ts_pcmBuffer t) < frameBytes t"
    and "\<forall>ev \<in> set evs. ev_context ev = c \<and> \<not> is_done ev"
    and "orchestrator t (map (\<lambda>ev. (v, Event ev)) evs) = (t', exit, es)"
  shows "\<not> exit \<and> same_ctl t t' \<and> length (ts_pcmBuffer t') < frameBytes t
   \<and> concat (audio_frames es) @ ts_pcmBuffer t' = ts_pcmBuffer t @ concat (map event_audio evs)
   \<and> (\<forall>x \<in> set (audio_frames es). length x = frameBytes t)
   \<and> words_out es @ map pw_word (ts_pendingWords t') = map pw_word (ts_pendingWords t) @ concat (map event_words evs)
   \<and> ends_out es = []"
  using assms
proof (induction evs arbitrary: t es t' exit)
  case (Cons ev evs)
  obtain t1 ex1 es1 where s: "tts_step v t (Event ev) = (t1, ex1, es1)" by (cases "tts_step v t (Event ev)")
  have st: "\<not> ex1 \<and> same_ctl t t1 \<and> length (ts_pcmBuffer t1) < frameBytes t
   \<and> concat (audio_frames es1) @ ts_pcmBuffer t1 = ts_pcmBuffer t @ event_audio ev
   \<and> (\<forall>x \<in> set (audio_frames es1). length x = frameBytes t)
   \<and> words_out es1 @ map pw_word (ts_pendingWords t1) = map pw_word (ts_pendingWords t) @ event_words ev
   \<and> ends_out es1 = []"
    by (rule event_step [OF _ _ _ _ _ _ s]) (use Cons.prems in auto)
  obtain t2 ex2 es2 where r: "orchestrator t1 (map (\<lambda>ev. (v, Event ev)) evs) = (t2, ex2, es2)"
    by (cases "orchestrator t1 (map (\<lambda>ev. (v, Event ev)) evs)")
  have fb: "frameBytes t1 = frameBytes t" using st by (intro frameBytes_cong) (simp add: same_ctl_def)
  have IH: "\<not> ex2 \<and> same_ctl t1 t2 \<and> length (ts_pcmBuffer t2) < frameBytes t1
   \<and> concat (audio_frames es2) @ ts_pcmBuffer t2 = ts_pcmBuffer t1 @ concat (map event_audio evs)
   \<and> (\<forall>x \<in> set (audio_frames es2). length x = frameBytes t1)
   \<and> words_out es2 @ map pw_word (ts_pendingWords t2) = map pw_word (ts_pendingWords t1) @ concat (map event_words evs)
   \<and> ends_out es2 = []"
    by (rule Cons.IH [OF _ _ _ _ _ r]) (use Cons.prems st fb in \<open>auto simp: same_ctl_def\<close>)
  have eq: "t' = t2" "exit = ex2" "es = es1 @ es2"
    using Cons.prems(6) st s r by (simp_all del: tts_step.simps)
  have "concat (audio_frames es1) @ (concat (audio_frames es2) @ ts_pcmBuffer t2)
      = (concat (audio_frames es1) @ ts_pcmBuffer t1) @ concat (map event_audio evs)"
    "words_out es1 @ (words_out es2 @ map pw_word (ts_pendingWords t2))
      = (words_out es1 @ map pw_word (ts_pendingWords t1)) @ concat (map event_words evs)"
    using IH by simp_all
  with st IH show ?case unfolding eq fb by (auto simp: same_ctl_def)
qed (simp add: same_ctl_def)

lemma orchestrator_append:
  "orchestrator u (xs @ ys) =
     (let (u1, ex, o1) = orchestrator u xs
      in if ex then (u1, True, o1)
         else let (u2, ex2, o2) = orchestrator u1 ys in (u2, ex2, o1 @ o2))"
proof (induction xs arbitrary: u)
  case (Cons i xs)
  obtain v j where "i = (v, j)" by (cases i)
  moreover obtain u1 ex es where "tts_step v u j = (u1, ex, es)" by (cases "tts_step v u j")
  ultimately show ?case using Cons by (simp add: split_beta Let_def del: tts_step.simps)
qed simp



section \<open>The deferred \<open>EndFrame\<close>\<close>

text \<open>A deferred \<open>EndFrame\<close> is owed a done event: text was sent in a named context.\<close>

definition ts_inv :: "tts \<Rightarrow> bool" where
  "ts_inv t \<longleftrightarrow> (ts_pendingEnd t \<noteq> None \<longrightarrow> ts_cartesiaTextSent t \<and> ts_currentContextId t \<noteq> [])"

lemma sendTextToTTS_ends [simp]: "ends_out (snd (sendTextToTTS v t x)) = []"
  by (simp add: sendTextToTTS_def Let_def)

lemma send_aggregate_facts:
  "ends_out (snd (send_aggregate v t)) = []"
  "ts_currentContextId (fst (send_aggregate v t)) = ts_currentContextId t"
  "ts_pendingEnd (fst (send_aggregate v t)) = ts_pendingEnd t"
  by (auto simp: send_aggregate_def split_beta Let_def)

lemma reset_if_sent_facts:
  "ends_out (snd (reset_if_sent v t)) = []"
  "ts_currentContextId (fst (reset_if_sent v t)) = ts_currentContextId t"
  "ts_pendingEnd (fst (reset_if_sent v t)) = ts_pendingEnd t"
  "ts_cartesiaTextSent (fst (reset_if_sent v t)) \<Longrightarrow>
     ts_currentContextId t \<noteq> [] \<and> Wire (Flush (ts_currentContextId t)) \<in> set (snd (reset_if_sent v t))"
  by (auto simp: reset_if_sent_def ResetTTSContext_def split_beta Let_def split: if_splits)

lemma flushForEnd_facts:
  "ends_out (snd (flushForEnd v t)) = []"
  "ts_pendingEnd (fst (flushForEnd v t)) = ts_pendingEnd t"
  "ts_cartesiaTextSent (fst (flushForEnd v t)) \<Longrightarrow>
     ts_currentContextId (fst (flushForEnd v t)) \<noteq> []
     \<and> Wire (Flush (ts_currentContextId (fst (flushForEnd v t)))) \<in> set (snd (flushForEnd v t))"
  using reset_if_sent_facts
  by (auto simp: flushForEnd_def split_beta Let_def send_aggregate_facts reset_if_sent_facts)

text \<open>While an \<open>EndFrame\<close> is deferred, commands are ignored.\<close>

lemma pending_ignores: "ts_pendingEnd t \<noteq> None \<Longrightarrow> handleCommand v t f d = (t, False, [])"
  by (cases f) (auto simp: handleEnd_def)

lemma chunk_ctl: "same_ctl t (fst (handleAudioChunkData v t d)) \<and> ends_out (snd (handleAudioChunkData v t d)) = []"
proof (cases "ts_currentContextId t = []")
  case False
  obtain mf m where m: "pm_Stop (tv_now v) MetricTTFB (ts_metrics t) = (mf, m)" by force
  define t1 where "t1 = (if ts_firstAudioReceived t then t else t\<lparr>ts_firstAudioReceived := True, ts_metrics := m\<rparr>)"
  let ?t2 = "t1\<lparr>ts_pcmBuffer := ts_pcmBuffer t1 @ d\<rparr>"
  have "same_ctl t t1" by (simp add: t1_def same_ctl_def)
  moreover have "same_ctl ?t2 (fst (chunk_loop ?t2)) \<and> ends_out (snd (chunk_loop ?t2)) = []"
    using chunk_loop_spec [of ?t2] by blast
  moreover have "fst (handleAudioChunkData v t d) = fst (chunk_loop ?t2)"
    "ends_out (snd (handleAudioChunkData v t d)) = ends_out (snd (chunk_loop ?t2))"
    using False by (simp_all add: handleAudioChunkData_def m t1_def split_beta Let_def split: option.split)
  ultimately show ?thesis by (simp add: same_ctl_def)
qed (simp add: handleAudioChunkData_def same_ctl_def)

lemma remaining_ctl: "same_ctl t (fst (pushRemainingAudioFrames t)) \<and> ends_out (snd (pushRemainingAudioFrames t)) = []"
proof -
  have "ends_out (map (\<lambda>w. Out (Push (WordTimestampFrame [pw_word w]) Downstream)) l) = []" for l
    by (induction l) simp_all
  then show ?thesis
    by (auto simp: pushRemainingAudioFrames_def nextPCMFrame_def same_ctl_def Let_def split_beta split: option.split)
qed

lemma event_pending:
  assumes "ev \<noteq> SynthDone (ts_currentContextId t)"
  shows "same_ctl t (fst (tts_step v t (Event ev))) \<and> \<not> fst (snd (tts_step v t (Event ev)))
    \<and> ends_out (snd (snd (tts_step v t (Event ev)))) = []"
proof (cases "isCurrentContext t (ev_context ev)")
  case True
  then show ?thesis
  proof (cases ev)
    case (AudioChunk c d)
    then show ?thesis using True chunk_ctl [of t v d] by (simp add: handleTTSEvent_def split_beta Let_def)
  next
    case (WordTimestamps c ws)
    let ?u = "t\<lparr>ts_pendingWords := ts_pendingWords t @ ws\<rparr>"
    show ?thesis using WordTimestamps True emitPendingWords_spec [of ?u] same_ctl_emit [of ?u]
      by (simp add: handleTTSEvent_def split_beta Let_def same_ctl_def)
  qed (use True assms in \<open>simp add: isCurrentContext_def\<close>)
qed (simp add: handleTTSEvent_def same_ctl_def)

lemma pending_run:
  assumes "ts_pendingEnd t = Some (r, d)" and "\<forall>(v, i) \<in> set ins. i \<noteq> Event (SynthDone (ts_currentContextId t))"
  shows "\<not> fst (snd (orchestrator t ins)) \<and> same_ctl t (fst (orchestrator t ins))
    \<and> ends_out (snd (snd (orchestrator t ins))) = []"
  using assms
proof (induction ins arbitrary: t)
  case (Cons vi ins)
  obtain v i where vi: "vi = (v, i)" by (cases vi)
  have st: "same_ctl t (fst (tts_step v t i)) \<and> \<not> fst (snd (tts_step v t i)) \<and> ends_out (snd (snd (tts_step v t i))) = []"
  proof (cases i)
    case (Command f dir)
    then show ?thesis using pending_ignores [of t v f dir] Cons.prems(1) by (simp add: same_ctl_def)
  next
    case (Event ev)
    then show ?thesis using event_pending [of ev t v] Cons.prems(2) by (auto simp: vi)
  qed
  obtain t1 ex es where s: "tts_step v t i = (t1, ex, es)" by (cases "tts_step v t i")
  have "\<not> fst (snd (orchestrator t1 ins)) \<and> same_ctl t1 (fst (orchestrator t1 ins))
    \<and> ends_out (snd (snd (orchestrator t1 ins))) = []"
    by (rule Cons.IH) (use Cons.prems st s in \<open>auto simp: same_ctl_def\<close>)
  with st s show ?case by (auto simp: vi same_ctl_def split_beta Let_def simp del: tts_step.simps)
qed (simp add: same_ctl_def)

lemma end_waits_main:
  fixes t :: tts and v0 v :: tts_env and r :: string and d :: direction
  assumes "ts_pendingEnd t = None"
    and "\<forall>(v, i) \<in> set ins. i \<noteq> Event (SynthDone (ts_currentContextId (fst (handleCommand v0 t (EndFrame r) d))))"
  defines "t1 \<equiv> fst (handleCommand v0 t (EndFrame r) d)"
  defines "exit \<equiv> fst (snd (handleCommand v0 t (EndFrame r) d))"
  defines "es \<equiv> snd (snd (handleCommand v0 t (EndFrame r) d))"
  shows "(exit \<longrightarrow> ends_out es = [(EndFrame r, d)])
    \<and> (\<not> exit \<longrightarrow> ends_out es = [] \<and> ts_currentContextId t1 \<noteq> [] \<and> Wire (Flush (ts_currentContextId t1)) \<in> set es
        \<and> \<not> fst (snd (orchestrator t1 ins)) \<and> ends_out (snd (snd (orchestrator t1 ins))) = []
        \<and> (let (t2, exit2, es2) = orchestrator t1 (ins @ [(v, Event (SynthDone (ts_currentContextId t1)))])
           in exit2 \<and> ends_out es2 = [(EndFrame r, d)]
            \<and> (\<exists>es3. es2 = es3 @ [Out (Push TTSDoneFrame Downstream), Out (Push (EndFrame r) d)])))"
proof -
  have fl: "flushForEnd v0 t = (fst (flushForEnd v0 t), snd (flushForEnd v0 t))" by simp
  show ?thesis
  proof (cases "ts_cartesiaTextSent (fst (flushForEnd v0 t))")
    case False
    then show ?thesis using assms(1) flushForEnd_facts(1) [of v0 t]
      by (simp add: exit_def es_def handleEnd_def split_beta Let_def)
  next
    case True
    have t1: "t1 = (fst (flushForEnd v0 t))\<lparr>ts_pendingEnd := Some (r, d)\<rparr>" "\<not> exit" "es = snd (flushForEnd v0 t)"
      using True assms(1) by (simp_all add: t1_def exit_def es_def handleEnd_def split_beta Let_def)
    have ctx: "ts_currentContextId t1 \<noteq> []" "Wire (Flush (ts_currentContextId t1)) \<in> set es"
      using flushForEnd_facts(3) [OF True] by (simp_all add: t1)
    have run: "\<not> fst (snd (orchestrator t1 ins)) \<and> same_ctl t1 (fst (orchestrator t1 ins))
      \<and> ends_out (snd (snd (orchestrator t1 ins))) = []"
    proof (rule pending_run)
      show "ts_pendingEnd t1 = Some (r, d)" by (simp add: t1)
      show "\<forall>(v, i) \<in> set ins. i \<noteq> Event (SynthDone (ts_currentContextId t1))"
        using assms(2) unfolding t1_def .
    qed
    obtain t2 ex2 es2 where r2: "orchestrator t1 ins = (t2, ex2, es2)" by (cases "orchestrator t1 ins")
    with run have t2: "ts_pendingEnd t2 = Some (r, d)" "ts_currentContextId t2 = ts_currentContextId t1"
      by (simp_all add: same_ctl_def t1)
    have pe: "ts_pendingEnd (fst (pushRemainingAudioFrames t2)) = Some (r, d)"
      using remaining_ctl [of t2] t2 by (simp add: same_ctl_def)
    have "tts_step v t2 (Event (SynthDone (ts_currentContextId t1))) =
      (ts_Stop ((fst (pushRemainingAudioFrames t2))\<lparr>ts_cartesiaTextSent := False, ts_pendingEnd := None\<rparr>), True,
       (snd (pushRemainingAudioFrames t2) @ [Out (Push TTSDoneFrame Downstream)]) @ [Out (Push (EndFrame r) d)])"
      using ctx t2 pe by (simp add: handleTTSEvent_def isCurrentContext_def forwardPendingEnd_def split_beta Let_def)
    then have "orchestrator t1 (ins @ [(v, Event (SynthDone (ts_currentContextId t1)))]) =
      (ts_Stop ((fst (pushRemainingAudioFrames t2))\<lparr>ts_cartesiaTextSent := False, ts_pendingEnd := None\<rparr>), True,
       es2 @ (snd (pushRemainingAudioFrames t2) @ [Out (Push TTSDoneFrame Downstream)]) @ [Out (Push (EndFrame r) d)])"
      using run r2 by (simp add: orchestrator_append del: tts_step.simps)
    then show ?thesis
      using run r2 ctx flushForEnd_facts(1) [of v0 t] remaining_ctl [of t2] t1(2,3)
      by (simp add: Let_def)
  qed
qed



section \<open>After an interrupt\<close>

text \<open>
  C32: an interrupt silences synthesis. Once an interrupt was handled (with no \<open>EndFrame\<close> deferred)
  the buffered audio, the pending words and the collected text are gone, and no message of the
  service, whatever context it names, produces anything until a new context is opened.
\<close>

theorem interrupt_silences_speech:
  fixes v v' :: tts_env and t :: tts and d :: direction
  assumes "ts_pendingEnd t = None"
  defines "t1 \<equiv> fst (handleCommand v t InterruptFrame d)"
  shows "ts_pcmBuffer t1 = [] \<and> ts_pendingWords t1 = [] \<and> ts_currentAggregation t1 = []
    \<and> \<not> ts_cartesiaTextSent t1 \<and> read_message b64 t1 m = None
    \<and> orchestrator t1 (map (\<lambda>ev. (v', Event ev)) evs) = (t1, False, [])"
proof -
  have t1: "ts_pcmBuffer t1 = []" "ts_pendingWords t1 = []" "ts_currentAggregation t1 = []"
    "\<not> ts_cartesiaTextSent t1" "ts_currentContextId t1 = []" "ts_activeContextId t1 = []"
    using assms(1) by (simp_all add: t1_def clearTTSState_def drainTTSEvents_def split_beta Let_def)
  have "tts_step v' t1 (Event ev) = (t1, False, [])" for ev
    using t1 by (simp add: handleTTSEvent_def isCurrentContext_def)
  then have "orchestrator t1 (map (\<lambda>ev. (v', Event ev)) evs) = (t1, False, [])"
    by (induction evs) (simp_all del: tts_step.simps)
  with t1 show ?thesis
    by (auto simp: read_message_def isActiveContext_def split: option.split)
qed

theorem interrupt_silences_speech_witness:
  "let v = \<lparr>tv_now = 1, tv_fresh = 7, tv_textOk = True, tv_controlOk = True\<rparr>;
       t = (NewTTSProcessor [] None)\<lparr>ts_currentContextId := ''c'', ts_activeContextId := ''c'', ts_pcmBuffer := [1]\<rparr>;
       t1 = fst (handleCommand v t InterruptFrame Downstream)
   in ts_pendingEnd t = None \<and> orchestrator t1 (map (\<lambda>ev. (v, Event ev)) [AudioChunk ''c'' [1, 2], SynthDone ''c'']) = (t1, False, [])"
proof -
  let ?v = "\<lparr>tv_now = 1, tv_fresh = 7, tv_textOk = True, tv_controlOk = True\<rparr>"
  let ?t = "(NewTTSProcessor [] None)\<lparr>ts_currentContextId := ''c'', ts_activeContextId := ''c'', ts_pcmBuffer := [1]\<rparr>"
  have h: "ts_pendingEnd ?t = None" by (simp add: NewTTSProcessor_def)
  from interrupt_silences_speech [OF h, of ?v Downstream "\<lambda>_. None"
      "\<lparr>cm_head = None, cm_chunk = None, cm_timestamps = None, cm_done = None\<rparr>" ?v "[AudioChunk ''c'' [1, 2], SynthDone ''c'']"] h
  show ?thesis unfolding Let_def by blast
qed

end
