(* ===== verification/Llm.thy ===== *)
theory Llm
  imports ToolCalls Observers "HOL-Library.Multiset"
begin

text \<open>
  \<open>LLMProcessor\<close> (\<open>llm_processor.go\<close>): the registry of tools, one streamed completion as the
  frames of a turn, and the execution of the tool calls it asks for. The client and the handlers of
  the tools are the world: the outcome of a stream is a value, a handler a function. The handlers
  run concurrently; the order in which their results arrive is an argument.
\<close>

section \<open>The registry\<close>

record tool_definition =
  td_Type :: string
  td_Name :: string
  td_Description :: string
  td_Parameters :: json_map
  td_Strict :: "bool option"

record tool_options =
  to_CancelOnInterruption :: bool
  to_Timeout :: duration

record tool_request =
  tq_FunctionName :: string
  tq_ToolCallID :: string
  tq_Arguments :: json_map
  tq_RawArguments :: string

type_synonym tool_handler = "tool_request \<Rightarrow> string + (json \<times> bool)"

record registered_tool =
  rt_definition :: tool_definition
  rt_handler :: "tool_handler option"
  rt_options :: tool_options

record llm =
  lp_tools :: "tool_definition list"
  lp_toolChoice :: json
  lp_toolMap :: "(string \<times> registered_tool) list"
  lp_metrics :: processor_metrics
  lp_inFlight :: bool

definition NewLLMProcessorWithClient :: llm where
  "NewLLMProcessorWithClient =
     \<lparr>lp_tools = [], lp_toolChoice = JNull, lp_toolMap = [], lp_metrics = NewProcessorMetrics ''llm'',
      lp_inFlight = False\<rparr>"

fun appendOrReplaceToolDefinition :: "tool_definition list \<Rightarrow> tool_definition \<Rightarrow> tool_definition list" where
  "appendOrReplaceToolDefinition [] def = [def]"
| "appendOrReplaceToolDefinition (existing # tools) def =
     (if td_Name existing = td_Name def then def # tools
      else existing # appendOrReplaceToolDefinition tools def)"

definition RegisterTool :: "llm \<Rightarrow> tool_definition \<Rightarrow> tool_handler option \<Rightarrow> tool_options \<Rightarrow> llm" where
  "RegisterTool p def0 handler opts =
     (let def = (if td_Type def0 = [] then def0\<lparr>td_Type := ''function''\<rparr> else def0);
          name = trim_space (td_Name def)
      in if name = [] then p
         else p\<lparr>lp_tools := appendOrReplaceToolDefinition (lp_tools p) def,
                lp_toolMap := (name, \<lparr>rt_definition = def, rt_handler = handler, rt_options = opts\<rparr>)
                              # filter (\<lambda>kv. fst kv \<noteq> name) (lp_toolMap p)\<rparr>)"

definition SetToolChoice :: "llm \<Rightarrow> json \<Rightarrow> llm" where
  "SetToolChoice p toolChoice = p\<lparr>lp_toolChoice := toolChoice\<rparr>"

section \<open>ProcessFrame\<close>

definition cancelInFlight :: "llm \<Rightarrow> llm" where
  "cancelInFlight p = p\<lparr>lp_inFlight := False\<rparr>"

text \<open>
  \<open>ProcessFrame\<close>; the third component is the history a new goroutine runs a completion on (any
  earlier one is cancelled).
\<close>

fun llm_handle :: "llm \<Rightarrow> frame \<Rightarrow> direction \<Rightarrow> llm \<times> effect list \<times> message list option" where
  "llm_handle p (EndFrame reason) dir =
     ((cancelInFlight p)\<lparr>lp_metrics := pm_Reset (lp_metrics p)\<rparr>, [Push (EndFrame reason) dir], None)"
| "llm_handle p (LLMMessagesFrame ms) dir = (p\<lparr>lp_inFlight := True\<rparr>, [], Some ms)"
| "llm_handle p InterruptFrame dir =
     ((cancelInFlight p)\<lparr>lp_metrics := pm_Reset (lp_metrics p)\<rparr>, [Push InterruptFrame dir], None)"
| "llm_handle p frame dir = (p, [Push frame dir], None)"

definition llm_process :: "llm \<Rightarrow> frame \<Rightarrow> direction \<Rightarrow> llm \<times> effect list" where
  "llm_process p f d = (case llm_handle p f d of (p', es, _) \<Rightarrow> (p', es))"

interpretation llm_chain: end_forwarder llm_process
proof unfold_locales
  fix f r d' s d
  assume "\<not> is_end f"
  then show "(EndFrame r, d') \<notin> set (pushes (snd (llm_process s f d)))"
    by (cases f) (auto simp: llm_process_def)
qed (simp add: llm_process_def)

section \<open>One completion\<close>

text \<open>What the client's \<open>Stream\<close> does: the tokens it delivers, each at a time, and its result.\<close>

record stream_outcome =
  so_start :: gotime
  so_tokens :: "(gotime \<times> string) list"
  so_Model :: string
  so_TTFB :: duration
  so_ToolCalls :: "tool_call list"
  so_err :: "string option"
  so_cancelled :: bool
  so_end :: gotime

text \<open>\<open>onToken\<close> over the delivered tokens; the state is the first-token flag and the measured TTFB.\<close>

fun on_tokens :: "processor_metrics \<Rightarrow> bool \<Rightarrow> rat \<Rightarrow> (gotime \<times> string) list
    \<Rightarrow> processor_metrics \<times> bool \<times> rat \<times> effect list" where
  "on_tokens m first ttfb [] = (m, first, ttfb, [])"
| "on_tokens m first ttfb ((t, content) # toks) =
     (if content = [] then on_tokens m first ttfb toks
      else let (mf, m1) = (if first then pm_Stop t MetricTTFB m else (None, m));
               ttfb1 = (case mf of Some d \<Rightarrow> md_ValueMs d | None \<Rightarrow> ttfb);
               es1 = (case mf of Some d \<Rightarrow> [Push (MetricsFrame [d]) Downstream] | None \<Rightarrow> []);
               (m2, first2, ttfb2, es2) = on_tokens m1 False ttfb1 toks
           in (m2, first2, ttfb2, es1 @ [Push (TextFrame content) Downstream] @ es2))"

definition emitLLMCallResult :: "gotime \<Rightarrow> string \<Rightarrow> rat \<Rightarrow> rat \<Rightarrow> string \<Rightarrow> effect list" where
  "emitLLMCallResult now model ttfbMs totalMs status =
     [UI (ServerMessage (MapPayload
        ([(''type'', JsonValue (JStr ''llm_call_result'')), (''status'', JsonValue (JStr status)),
          (''model'', JsonValue (JStr model))] @
         (if ttfbMs > 0 then [(''ttfb_ms'', FloatValue ttfbMs)] else []) @
         (if totalMs > 0 then [(''total_ms'', FloatValue totalMs)] else [])))) now]"

text \<open>The request handed to the client: a deep copy of the history, the tools, the choice.\<close>

definition llm_request :: "llm \<Rightarrow> message list \<Rightarrow> message list \<times> tool_definition list \<times> json" where
  "llm_request p ms = (ms, lp_tools p, lp_toolChoice p)"

text \<open>\<open>runLLM\<close>; the last component is the tool calls a new goroutine executes.\<close>

definition runLLM :: "llm \<Rightarrow> stream_outcome \<Rightarrow> llm \<times> effect list \<times> tool_call list" where
  "runLLM p so =
     (let m0 = pm_Start (so_start so) MetricProcessing (pm_Start (so_start so) MetricTTFB (lp_metrics p));
          (m1, first, ttfb0, es) = on_tokens m0 True 0 (so_tokens so);
          late = first \<and> so_TTFB so > 0;
          ttfbMs = (if late then fdiv (float_of_int (quot (so_TTFB so) 1000)) 1000 else ttfb0);
          m2 = (if late then snd (pm_Stop (so_end so) MetricTTFB m1) else m1);
          begin = Push (LLMResponseStartFrame (so_start so)) Downstream # es
      in if so_cancelled so then
           (p\<lparr>lp_metrics := m2\<rparr>,
            begin @ emitLLMCallResult (so_end so) (so_Model so) ttfbMs 0 ''interrupted'', [])
         else case so_err so of
           Some _ \<Rightarrow>
             (p\<lparr>lp_metrics := m2\<rparr>,
              begin @ [Push LLMResponseEndFrame Downstream]
                @ emitLLMCallResult (so_end so) (so_Model so) ttfbMs 0 ''interrupted'', [])
         | None \<Rightarrow>
             (let (mf, m3) = pm_Stop (so_end so) MetricProcessing m2;
                  totalMs = (case mf of Some d \<Rightarrow> md_ValueMs d | None \<Rightarrow> 0)
              in (p\<lparr>lp_metrics := m3\<rparr>,
                  begin @ (case mf of Some d \<Rightarrow> [Push (MetricsFrame [d]) Downstream] | None \<Rightarrow> [])
                    @ [Push LLMResponseEndFrame Downstream]
                    @ emitLLMCallResult (so_end so) (so_Model so) ttfbMs totalMs ''completed'',
                  so_ToolCalls so)))"

section \<open>Tool calls\<close>

text \<open>Go's \<open>%q\<close>; runes beyond ASCII are taken as printable.\<close>

fun quote_char :: "char \<Rightarrow> string" where
  "quote_char c =
     (if c = CHR 0x22 then [CHR 0x5C, CHR 0x22] else if c = CHR 0x5C then [CHR 0x5C, CHR 0x5C]
      else if c = CHR 0x07 then [CHR 0x5C, CHR ''a''] else if c = CHR 0x08 then [CHR 0x5C, CHR ''b'']
      else if c = CHR 0x0C then [CHR 0x5C, CHR ''f''] else if c = CHR 0x0A then [CHR 0x5C, CHR ''n'']
      else if c = CHR 0x0D then [CHR 0x5C, CHR ''r''] else if c = CHR 0x09 then [CHR 0x5C, CHR ''t'']
      else if c = CHR 0x0B then [CHR 0x5C, CHR ''v'']
      else if code c < 0x20 \<or> code c = 0x7F then
        [CHR 0x5C, CHR ''x'', hex_char (code c div 16), hex_char (code c mod 16)]
      else [c])"

definition go_quote :: "string \<Rightarrow> string" where
  "go_quote s = [CHR 0x22] @ concat (map quote_char s) @ [CHR 0x22]"

text \<open>A result with the frame it becomes, whether it asks for another completion, and the effects of
  its execution.\<close>

record tool_result =
  tr_name :: string
  tr_id :: string
  tr_args :: json_map
  tr_raw :: string
  tr_result :: string
  tr_runLLM :: bool
  tr_effects :: "effect list"

definition reportToolResultError :: "string \<Rightarrow> effect list" where
  "reportToolResultError functionName =
     [Push (ErrorFrame (''tool '' @ go_quote functionName @ '' returned empty result'') False ''LLM'') Upstream]"

definition executeOneToolCall :: "tool_call \<Rightarrow> tool_handler \<Rightarrow> json_map \<Rightarrow> tool_result" where
  "executeOneToolCall call handler args =
     (let name = tcf_Name (tc_Function call); raw = tcf_Arguments (tc_Function call);
          res = (\<lambda>s run es. \<lparr>tr_name = name, tr_id = tc_ID call, tr_args = args, tr_raw = raw,
                             tr_result = s, tr_runLLM = run, tr_effects = es\<rparr>)
      in case handler \<lparr>tq_FunctionName = name, tq_ToolCallID = tc_ID call, tq_Arguments = args,
                       tq_RawArguments = raw\<rparr> of
           Inl err \<Rightarrow>
             res (toolErrorResultString err) False
               [Push (ErrorFrame (''execute tool '' @ go_quote name @ '': '' @ err) False ''LLM'') Upstream]
         | Inr (v, run) \<Rightarrow>
             (case toolResultString v of
                Inl err \<Rightarrow> res (toolErrorResultString err) False (reportToolResultError name)
              | Inr s \<Rightarrow> res s run []))"

text \<open>The loop that starts the calls: the effects at the start of one call, and its result.\<close>

definition start_call :: "(string \<Rightarrow> string + json_map option) \<Rightarrow> llm \<Rightarrow> tool_call \<Rightarrow> effect list \<times> tool_result" where
  "start_call decode p call =
     (let name = tcf_Name (tc_Function call); raw = tcf_Arguments (tc_Function call);
          (args, parseErr) = parseToolArguments decode raw;
          err_es = (case parseErr of None \<Rightarrow> []
                    | Some e \<Rightarrow> [Push (ErrorFrame (''parse tool arguments for '' @ go_quote name @ '': '' @ e)
                                   False ''LLM'') Upstream]);
          unregistered =
            (let msg = ''unregistered tool call '' @ go_quote name
             in (err_es @ [Push (ErrorFrame msg False ''LLM'') Upstream,
                           Push (FunctionCallInProgressFrame name (tc_ID call) args raw True) Upstream],
                 \<lparr>tr_name = name, tr_id = tc_ID call, tr_args = args, tr_raw = raw,
                  tr_result = toolErrorResultString msg, tr_runLLM = True, tr_effects = []\<rparr>))
      in case map_of (lp_toolMap p) name of
           None \<Rightarrow> unregistered
         | Some tool \<Rightarrow>
             (case rt_handler tool of
                None \<Rightarrow> unregistered
              | Some handler \<Rightarrow>
                  (err_es @ [Push (FunctionCallInProgressFrame name (tc_ID call) args raw
                               (to_CancelOnInterruption (rt_options tool))) Upstream],
                   executeOneToolCall call handler args)))"

text \<open>The collecting loop, over the results in the order they arrive.\<close>

fun collect :: "bool \<Rightarrow> tool_result list \<Rightarrow> effect list" where
  "collect runNextLLM [] = []"
| "collect runNextLLM (r # rs) =
     (let run = (runNextLLM \<or> tr_runLLM r)
      in tr_effects r @
         [Push (FunctionCallResultFrame (tr_name r) (tr_id r) (tr_args r) (tr_raw r) (tr_result r)
                  (rs = [] \<and> run)) Upstream] @ collect run rs)"

definition executeToolCalls ::
    "(string \<Rightarrow> string + json_map option) \<Rightarrow> llm \<Rightarrow> tool_call list \<Rightarrow> nat list \<Rightarrow> effect list" where
  "executeToolCalls decode p toolCalls arrival =
     (let started = map (start_call decode p) toolCalls
      in concat (map fst started) @ collect False (map (\<lambda>i. snd (started ! i)) arrival))"

section \<open>The frames of a turn\<close>

fun is_metrics :: "frame \<Rightarrow> bool" where
  "is_metrics (MetricsFrame _) = True"
| "is_metrics _ = False"

definition turn_frames :: "effect list \<Rightarrow> (frame \<times> direction) list" where
  "turn_frames es = filter (\<lambda>x. \<not> is_metrics (fst x)) (pushes es)"

lemma turn_frames_simps [simp]:
  "turn_frames [] = []" "turn_frames (xs @ ys) = turn_frames xs @ turn_frames ys"
  "turn_frames (Push f d # es) = (if is_metrics f then [] else [(f, d)]) @ turn_frames es"
  "turn_frames (emitLLMCallResult n m a b st) = []"
  by (simp_all add: turn_frames_def emitLLMCallResult_def)

lemma on_tokens_frames:
  "turn_frames (snd (snd (snd (on_tokens m first ttfb toks)))) =
     map (\<lambda>c. (TextFrame c, Downstream)) (filter (\<lambda>c. c \<noteq> []) (map snd toks))"
proof (induction m first ttfb toks rule: on_tokens.induct)
  case (2 m first ttfb t content toks)
  show ?case
  proof (cases "content = []")
    case False
    define r where "r = (if first then pm_Stop t MetricTTFB m else (None, m))"
    define tt where "tt = (case fst r of Some d \<Rightarrow> md_ValueMs d | None \<Rightarrow> ttfb)"
    have "turn_frames (snd (snd (snd (on_tokens (snd r) False tt toks)))) =
        map (\<lambda>c. (TextFrame c, Downstream)) (filter (\<lambda>c. c \<noteq> []) (map snd toks))"
      by (rule 2(2)) (use False in \<open>auto simp: r_def tt_def\<close>)
    then show ?thesis
      using False by (cases "fst r") (simp_all add: split_beta Let_def r_def [symmetric] tt_def)
  qed (use 2(1) in simp)
qed simp

text \<open>
  The frames of a completion. Whatever the stream delivers, and whether it completes, fails or
  is cancelled, a turn pushes one response start, a text frame for each non-empty token in order,
  and one response end exactly if it was not cancelled; its tool calls are executed only if it
  completed.
\<close>

theorem turn_well_formed:
  "turn_frames (fst (snd (runLLM p so))) =
     [(LLMResponseStartFrame (so_start so), Downstream)]
     @ map (\<lambda>c. (TextFrame c, Downstream)) (filter (\<lambda>c. c \<noteq> []) (map snd (so_tokens so)))
     @ (if so_cancelled so then [] else [(LLMResponseEndFrame, Downstream)])
   \<and> snd (snd (runLLM p so)) =
     (if so_cancelled so then [] else case so_err so of None \<Rightarrow> so_ToolCalls so | Some e \<Rightarrow> [])"
proof -
  define m0 where "m0 = pm_Start (so_start so) MetricProcessing (pm_Start (so_start so) MetricTTFB (lp_metrics p))"
  have f: "turn_frames (snd (snd (snd (on_tokens m0 True 0 (so_tokens so))))) =
     map (\<lambda>c. (TextFrame c, Downstream)) (filter (\<lambda>c. c \<noteq> []) (map snd (so_tokens so)))"
    by (rule on_tokens_frames)
  show ?thesis
  proof (cases "so_cancelled so")
    case True
    with f show ?thesis by (simp add: runLLM_def m0_def [symmetric] split_beta Let_def)
  next
    case False
    then show ?thesis
    proof (cases "so_err so")
      case None
      with False f show ?thesis
        by (simp add: runLLM_def m0_def [symmetric] split_beta Let_def split: option.split)
    next
      case (Some e)
      with False f show ?thesis by (simp add: runLLM_def m0_def [symmetric] split_beta Let_def)
    qed
  qed
qed

section \<open>Every tool call is answered\<close>

fun result_of :: "frame \<Rightarrow> (string \<times> string \<times> bool) list" where
  "result_of (FunctionCallResultFrame n i a r res run) = [(i, res, run)]"
| "result_of _ = []"

fun progress_of :: "frame \<Rightarrow> string list" where
  "progress_of (FunctionCallInProgressFrame n i a r c) = [i]"
| "progress_of _ = []"

definition results :: "effect list \<Rightarrow> (string \<times> string \<times> bool) list" where
  "results es = concat (map (result_of \<circ> fst) (pushes es))"

definition progresses :: "effect list \<Rightarrow> string list" where
  "progresses es = concat (map (progress_of \<circ> fst) (pushes es))"

lemma results_simps [simp]:
  "results [] = []" "results (xs @ ys) = results xs @ results ys"
  "results (Push f d # es) = result_of f @ results es"
  "progresses [] = []" "progresses (xs @ ys) = progresses xs @ progresses ys"
  "progresses (Push f d # es) = progress_of f @ progresses es"
  by (simp_all add: results_def progresses_def)

lemma executeOne_facts:
  "tr_id (executeOneToolCall c h a) = tc_ID c" "tr_result (executeOneToolCall c h a) \<noteq> []"
  "results (tr_effects (executeOneToolCall c h a)) = []" "progresses (tr_effects (executeOneToolCall c h a)) = []"
  by (auto simp: executeOneToolCall_def reportToolResultError_def Let_def toolErrorResultString_nonempty
      dest: toolResultString_nonempty split: sum.split)

lemma start_call_facts:
  "tr_id (snd (start_call decode p c)) = tc_ID c" "tr_result (snd (start_call decode p c)) \<noteq> []"
  "results (tr_effects (snd (start_call decode p c))) = []"
  "progresses (tr_effects (snd (start_call decode p c))) = []"
  "results (fst (start_call decode p c)) = []" "progresses (fst (start_call decode p c)) = [tc_ID c]"
  by (auto simp: start_call_def Let_def split_beta executeOne_facts toolErrorResultString_nonempty
      split: option.split)

lemma collect_results:
  assumes "\<And>r. r \<in> set rs \<Longrightarrow> results (tr_effects r) = []"
  shows "results (collect run rs) =
    map (\<lambda>r. (tr_id r, tr_result r, False)) (butlast rs)
    @ (if rs = [] then [] else [(tr_id (last rs), tr_result (last rs), run \<or> (\<exists>r \<in> set rs. tr_runLLM r))])"
  using assms by (induction run rs rule: collect.induct) (auto simp: Let_def)

lemma collect_progresses:
  assumes "\<And>r. r \<in> set rs \<Longrightarrow> progresses (tr_effects r) = []"
  shows "progresses (collect run rs) = []"
  using assms by (induction run rs rule: collect.induct) (auto simp: Let_def)

text \<open>Whatever the order in which the calls finish, each contributes its result once.\<close>

lemma permuted_calls:
  assumes "mset arrival = mset [0..<length xs]"
  shows "mset (map (\<lambda>i. f (xs ! i)) arrival) = mset (map f xs)"
proof -
  have "mset (map (\<lambda>i. f (xs ! i)) arrival) = image_mset (\<lambda>i. f (xs ! i)) (mset [0..<length xs])"
    using assms by simp
  also have "\<dots> = mset (map (\<lambda>i. f (xs ! i)) [0..<length xs])" by (rule mset_map [symmetric])
  also have "map (\<lambda>i. f (xs ! i)) [0..<length xs] = map f xs" by (rule nth_equalityI) simp_all
  finally show ?thesis .
qed

lemma executed_calls:
  assumes "mset arrival = mset [0..<length calls]"
  obtains rs where "mset rs = mset (map (\<lambda>c. snd (start_call decode p c)) calls)"
    and "executeToolCalls decode p calls arrival = concat (map (\<lambda>c. fst (start_call decode p c)) calls) @ collect False rs"
proof
  let ?rs = "map (\<lambda>i. snd (start_call decode p (calls ! i))) arrival"
  show "mset ?rs = mset (map (\<lambda>c. snd (start_call decode p c)) calls)" by (rule permuted_calls [OF assms])
  have "set arrival = {..<length calls}" using mset_eq_setD [OF assms] by (simp add: lessThan_atLeast0)
  then have "map (\<lambda>i. snd (map (start_call decode p) calls ! i)) arrival = ?rs" by (auto intro!: map_cong)
  then show "executeToolCalls decode p calls arrival = concat (map (\<lambda>c. fst (start_call decode p c)) calls) @ collect False ?rs"
    by (simp add: executeToolCalls_def Let_def comp_def cong: map_cong)
qed

lemma started_calls:
  "results (concat (map (\<lambda>c. fst (start_call decode p c)) calls)) = []"
  "progresses (concat (map (\<lambda>c. fst (start_call decode p c)) calls)) = map tc_ID calls"
  by (induction calls) (simp_all add: start_call_facts)

text \<open>
  C7: every tool call is answered once. Whatever tools are registered, whatever their handlers
  return and in whichever order the results arrive, each call is announced in order, gets exactly one
  result with its own id and a text that is not empty, and at most the last result asks for a new
  completion: it does so exactly when some call wanted one.
\<close>

theorem tool_calls_answered:
  fixes p :: llm and decode :: "string \<Rightarrow> string + json_map option"
  assumes "mset arrival = mset [0..<length calls]"
  defines "es \<equiv> executeToolCalls decode p calls arrival"
  shows "progresses es = map tc_ID calls
    \<and> mset (map fst (results es)) = mset (map tc_ID calls)
    \<and> (\<forall>(i, res, run) \<in> set (results es). res \<noteq> [])
    \<and> (\<forall>(i, res, run) \<in> set (butlast (results es)). \<not> run)
    \<and> (calls \<noteq> [] \<longrightarrow> snd (snd (last (results es))) = (\<exists>c \<in> set calls. tr_runLLM (snd (start_call decode p c))))"
proof -
  obtain rs where rs: "mset rs = mset (map (\<lambda>c. snd (start_call decode p c)) calls)"
    and es: "es = concat (map (\<lambda>c. fst (start_call decode p c)) calls) @ collect False rs"
    using executed_calls [OF assms(1)] unfolding es_def by blast
  have rs_mem: "set rs = (\<lambda>c. snd (start_call decode p c)) ` set calls"
    using mset_eq_setD [OF rs] by simp
  have res: "results es = map (\<lambda>r. (tr_id r, tr_result r, False)) (butlast rs)
    @ (if rs = [] then [] else [(tr_id (last rs), tr_result (last rs), \<exists>r \<in> set rs. tr_runLLM r)])"
    unfolding es results_simps started_calls
    by (subst collect_results) (auto simp: rs_mem start_call_facts)
  have "progresses es = map tc_ID calls"
    unfolding es results_simps started_calls
    by (subst collect_progresses) (auto simp: rs_mem start_call_facts)
  moreover have "map fst (results es) = map tr_id rs"
    unfolding res by (cases rs rule: rev_cases) simp_all
  then have "mset (map fst (results es)) = image_mset tr_id (mset rs)" by (simp only: mset_map)
  then have "mset (map fst (results es)) = mset (map tc_ID calls)"
    unfolding rs by (simp add: start_call_facts multiset.map_comp comp_def)
  moreover have "\<forall>r \<in> set rs. tr_result r \<noteq> []" by (simp add: rs_mem start_call_facts)
  then have "\<forall>(i, r, run) \<in> set (results es). r \<noteq> []"
    unfolding res by (cases rs rule: rev_cases) auto
  moreover have "\<forall>(i, r, run) \<in> set (butlast (results es)). \<not> run"
    unfolding res by (cases rs rule: rev_cases) auto
  moreover have "calls \<noteq> [] \<Longrightarrow> rs \<noteq> []" using rs_mem by auto
  ultimately show ?thesis unfolding res by (auto simp: rs_mem)
qed

theorem tool_calls_answered_witness:
  "let c = (\<lambda>i. \<lparr>tc_ID = i, tc_Type = ''function'', tc_Function = \<lparr>tcf_Name = ''lookup'', tcf_Arguments = []\<rparr>\<rparr>);
       es = executeToolCalls (\<lambda>_. Inl ''bad'') NewLLMProcessorWithClient [c ''a'', c ''b''] [1, 0]
   in mset [1, 0] = mset [0..<length [c ''a'', c ''b'']] \<and> progresses es = [''a'', ''b'']
    \<and> snd (snd (last (results es)))"
proof -
  define c :: "string \<Rightarrow> tool_call" where
    "c = (\<lambda>i. \<lparr>tc_ID = i, tc_Type = ''function'', tc_Function = \<lparr>tcf_Name = ''lookup'', tcf_Arguments = []\<rparr>\<rparr>)"
  have h: "mset [1, 0] = mset [0..<length [c ''a'', c ''b'']]" by (simp add: upt_rec)
  have id: "tc_ID (c i) = i" for i by (simp add: c_def)
  have run: "tr_runLLM (snd (start_call (\<lambda>_. Inl ''bad'') NewLLMProcessorWithClient (c ''a'')))"
    by (simp add: start_call_def NewLLMProcessorWithClient_def split_beta Let_def)
  from tool_calls_answered [OF h, of "\<lambda>_. Inl ''bad''" NewLLMProcessorWithClient] h run
  show ?thesis unfolding Let_def c_def [symmetric] by (simp add: id)
qed

section \<open>The registry is consistent\<close>

definition registry_inv :: "llm \<Rightarrow> bool" where
  "registry_inv p \<longleftrightarrow> distinct (map td_Name (lp_tools p))
     \<and> (\<forall>d. d \<in> set (lp_tools p) \<longleftrightarrow> map_option rt_definition (map_of (lp_toolMap p) (td_Name d)) = Some d)
     \<and> (\<forall>n t. map_of (lp_toolMap p) n = Some t \<longrightarrow> td_Name (rt_definition t) = n)"

lemma append_or_replace_names:
  "td_Name ` set (appendOrReplaceToolDefinition tools d) = insert (td_Name d) (td_Name ` set tools)"
  by (induction tools d rule: appendOrReplaceToolDefinition.induct) auto

lemma append_or_replace_distinct:
  "distinct (map td_Name tools) \<Longrightarrow> distinct (map td_Name (appendOrReplaceToolDefinition tools d))"
  by (induction tools d rule: appendOrReplaceToolDefinition.induct) (auto simp: append_or_replace_names)

lemma append_or_replace_set:
  "distinct (map td_Name tools) \<Longrightarrow>
     set (appendOrReplaceToolDefinition tools d) = insert d {e \<in> set tools. td_Name e \<noteq> td_Name d}"
  by (induction tools d rule: appendOrReplaceToolDefinition.induct)
     (auto, metis image_eqI)

lemma register_inv:
  assumes "registry_inv p" and "trim_space (td_Name d) = td_Name d"
  shows "registry_inv (RegisterTool p d h opts)"
proof (cases "td_Name d = []")
  case True
  with assms show ?thesis by (simp add: RegisterTool_def)
next
  case False
  define e where "e = (if td_Type d = [] then d\<lparr>td_Type := ''function''\<rparr> else d)"
  have n: "td_Name e = td_Name d" by (simp add: e_def)
  have flt: "map_of (filter (\<lambda>kv. fst kv \<noteq> k) m) j = (if j = k then None else map_of m j)" for k j and m :: "(string \<times> registered_tool) list"
    by (induction m) auto
  have p': "lp_tools (RegisterTool p d h opts) = appendOrReplaceToolDefinition (lp_tools p) e"
    "map_of (lp_toolMap (RegisterTool p d h opts)) = (map_of (lp_toolMap p))(td_Name d \<mapsto> \<lparr>rt_definition = e, rt_handler = h, rt_options = opts\<rparr>)"
    using assms(2) False by (auto simp: RegisterTool_def e_def Let_def flt fun_eq_iff)
  have dist: "distinct (map td_Name (lp_tools p))" using assms(1) by (simp add: registry_inv_def)
  show ?thesis
    unfolding registry_inv_def p' append_or_replace_set [OF dist]
    using assms(1) append_or_replace_distinct [OF dist] by (auto simp: registry_inv_def n)
qed

text \<open>
  The model is told of exactly the tools that can be called. After any registrations under
  names without white space around them, no name is offered twice, and a definition is offered to the
  model exactly if a call by its name finds the tool registered with that definition.
\<close>

theorem registry_consistent:
  assumes "\<forall>(d, h, opts) \<in> set regs. trim_space (td_Name d) = td_Name d"
  shows "let p = foldl (\<lambda>p (d, h, opts). RegisterTool p d h opts) NewLLMProcessorWithClient regs
         in distinct (map td_Name (lp_tools p))
          \<and> (\<forall>d. d \<in> set (lp_tools p) \<longleftrightarrow> map_option rt_definition (map_of (lp_toolMap p) (td_Name d)) = Some d)"
proof -
  have "registry_inv (foldl (\<lambda>p (d, h, opts). RegisterTool p d h opts) NewLLMProcessorWithClient regs)"
    using assms
  proof (induction regs rule: rev_induct)
    case Nil
    show ?case by (simp add: registry_inv_def NewLLMProcessorWithClient_def)
  next
    case (snoc r regs)
    then show ?case by (cases r) (auto intro: register_inv)
  qed
  then show ?thesis by (simp add: registry_inv_def Let_def)
qed

theorem registry_consistent_witness:
  "let d = \<lparr>td_Type = [], td_Name = ''lookup'', td_Description = [], td_Parameters = [], td_Strict = None\<rparr>;
       opts = \<lparr>to_CancelOnInterruption = True, to_Timeout = 0\<rparr>;
       p = foldl (\<lambda>p (d, h, opts). RegisterTool p d h opts) NewLLMProcessorWithClient [(d, None, opts), (d, None, opts)]
   in distinct (map td_Name (lp_tools p))"
proof -
  let ?d = "\<lparr>td_Type = [], td_Name = ''lookup'', td_Description = [], td_Parameters = [], td_Strict = None\<rparr>"
  let ?opts = "\<lparr>to_CancelOnInterruption = True, to_Timeout = 0\<rparr>"
  have "trim_space ''lookup'' = ''lookup''" by code_simp
  then have h: "\<forall>(d, h, opts) \<in> set [(?d, None, ?opts), (?d, None, ?opts)]. trim_space (td_Name d) = td_Name d"
    by simp
  from registry_consistent [OF h] show ?thesis unfolding Let_def by blast
qed

text \<open>A name with white space around it breaks this: the model is told one name, the map has another.\<close>

lemma untrimmed_name_unreachable:
  assumes "trim_space (td_Name d) \<noteq> td_Name d" and "trim_space (td_Name d) \<noteq> []"
  shows "map_of (lp_toolMap (RegisterTool NewLLMProcessorWithClient d h opts)) (td_Name d) = None
    \<and> td_Name ` set (lp_tools (RegisterTool NewLLMProcessorWithClient d h opts)) = {td_Name d}"
proof (cases "td_Type d = []")
  case True
  with assms show ?thesis unfolding RegisterTool_def NewLLMProcessorWithClient_def Let_def by simp
next
  case False
  with assms show ?thesis unfolding RegisterTool_def NewLLMProcessorWithClient_def Let_def by simp
qed

end
