(* ===== verification/Pipeline.thy ===== *)
theory Pipeline
  imports Processor ContextAgg Idle Source Observers Playback Tts Llm
begin

text \<open>
  The pipeline and its life (\<open>pipeline.go\<close>, \<open>pipeline_edges.go\<close>): linking the processors, the two
  ends of the chain, and \<open>PipelineTask\<close> from \<open>End\<close> to the report of the ended call. \<open>End\<close> may be
  called from any number of goroutines, while the cleanup runs in one of its own; both are broken
  into the steps that other goroutines can observe, and a call is a sequence of such steps in any
  order.
\<close>

section \<open>Linking the processors\<close>

text \<open>The neighbours of each processor, by its index in the chain.\<close>

record links =
  ln_next :: "nat option list"
  ln_prev :: "nat option list"

definition Link :: "nat \<Rightarrow> nat \<Rightarrow> links \<Rightarrow> links" where
  "Link i j l = \<lparr>ln_next = (ln_next l)[i := Some j], ln_prev = (ln_prev l)[j := Some i]\<rparr>"

definition pipeline_Start :: "nat \<Rightarrow> links" where
  "pipeline_Start n =
     fold (\<lambda>i. Link i (i + 1)) [0..<n - 1] \<lparr>ln_next = replicate n None, ln_prev = replicate n None\<rparr>"

lemma link_fold:
  assumes "m < n"
  shows "fold (\<lambda>i. Link i (i + 1)) [0..<m] \<lparr>ln_next = replicate n None, ln_prev = replicate n None\<rparr> =
    \<lparr>ln_next = map (\<lambda>i. if i < m then Some (i + 1) else None) [0..<n],
     ln_prev = map (\<lambda>i. if 0 < i \<and> i \<le> m then Some (i - 1) else None) [0..<n]\<rparr>"
  using assms
proof (induction m)
  case 0
  then show ?case by (auto simp: list_eq_iff_nth_eq)
next
  case (Suc m)
  then show ?case by (auto simp: Link_def list_eq_iff_nth_eq nth_list_update)
qed

text \<open>Every processor but the last has its successor, and the back pointers are the inverse.\<close>

lemma pipeline_links:
  assumes "i < n"
  shows "ln_next (pipeline_Start n) ! i = (if i + 1 < n then Some (i + 1) else None)"
    and "ln_prev (pipeline_Start n) ! i = (if 0 < i then Some (i - 1) else None)"
  using assms link_fold [of "n - 1" n] by (auto simp: pipeline_Start_def)

section \<open>The ends of the chain\<close>

definition sourceFramesCapacity :: nat where "sourceFramesCapacity = 100"

text \<open>\<open>Queue\<close> blocks when the channel is full.\<close>

definition Queue :: "frame \<Rightarrow> frame list \<Rightarrow> frame list option" where
  "Queue frame frames = (if length frames < sourceFramesCapacity then Some (frames @ [frame]) else None)"

text \<open>
  One turn of \<open>drainExternalFrames\<close>: each outcome gives the channel, the pushed frames and whether
  the loop ends. With the context cancelled and a frame waiting, \<open>select\<close> may take either case.
\<close>

definition drainExternalFrames :: "bool \<Rightarrow> frame list \<Rightarrow> (frame list \<times> effect list \<times> bool) list" where
  "drainExternalFrames ctxDone frames =
     (if ctxDone then [(frames, [], True)] else []) @
     (case frames of [] \<Rightarrow> [] | f # rest \<Rightarrow> [(rest, [Push f Downstream], is_end f)])"

fun source_process :: "frame \<Rightarrow> direction \<Rightarrow> effect list" where
  "source_process (ErrorFrame err fatal processor) dir = (if fatal then [EndTask EndReasonError] else [])"
| "source_process frame dir = []"

text \<open>The sink calls \<open>onEnd\<close> with the reason of an \<open>EndFrame\<close>.\<close>

fun sink_process :: "frame \<Rightarrow> direction \<Rightarrow> string option" where
  "sink_process (EndFrame reason) dir = Some reason"
| "sink_process frame dir = None"

section \<open>PipelineTask\<close>

record final_stats =
  fs_TransportType :: string
  fs_TotalUserDurationSec :: rat
  fs_FirstUserAudioFrameAt :: gotime
  fs_EndedAt :: gotime
  fs_MeetingID :: string
  fs_BotSessionID :: string
  fs_UserSessionID :: string
  fs_DebugLogs :: "debug_entry list"

record task_config =
  tcfg_Logger :: bool
  tcfg_SessionID :: string
  tcfg_handlers :: "event_kind list"
  tcfg_OnCallEnded :: bool
  tcfg_OnCleanup :: bool

record pipeline_task =
  pt_SessionID :: string
  pt_OnCleanup :: bool
  pt_onCallEnded :: bool
  pt_callStats :: call_stats
  pt_UIEvents :: ui_sender
  pt_callEvents :: dispatcher
  pt_metrics :: turn_metrics
  pt_Room :: bool
  pt_ctxDone :: bool
  pt_endRequested :: bool
  pt_cleanupStarted :: bool
  pt_cleanupOnce :: bool
  pt_endReason :: string
  pt_frames :: "frame list"

text \<open>\<open>NewPipelineTask\<close>; \<open>random\<close> is the number drawn for a session without an id.\<close>

definition NewPipelineTask :: "nat \<Rightarrow> task_config \<Rightarrow> string + pipeline_task" where
  "NewPipelineTask random cfg =
     (if \<not> tcfg_Logger cfg then Inl ''voicepipelinecore: TaskConfig.Logger is required''
      else Inr
        \<lparr>pt_SessionID = (if tcfg_SessionID cfg = [] then ''session-'' @ nat_str (random + 1000000)
                         else tcfg_SessionID cfg),
         pt_OnCleanup = tcfg_OnCleanup cfg, pt_onCallEnded = tcfg_OnCallEnded cfg,
         pt_callStats = newCallStatsTracker, pt_UIEvents = NewUIEventSender,
         pt_callEvents = newCallEventDispatcher (tcfg_handlers cfg), pt_metrics = zero_turn,
         pt_Room = False, pt_ctxDone = False, pt_endRequested = False, pt_cleanupStarted = False,
         pt_cleanupOnce = False, pt_endReason = [], pt_frames = []\<rparr>)"

fun label_string :: "metric_label \<Rightarrow> string" where
  "label_string MetricTTFB = ''ttfb''"
| "label_string MetricProcessing = ''processing''"
| "label_string MetricTextAggregation = ''text_aggregation''"
| "label_string MetricE2ELatency = ''e2e_latency''"

text \<open>\<open>metricsHandler\<close>: the snapshot of the turn, then one server message for each value.\<close>

definition metric_message :: "metrics_data \<Rightarrow> payload" where
  "metric_message d = MapPayload
     [(''type'', JsonValue (JStr ''metric'')), (''processor'', JsonValue (JStr (md_Processor d))),
      (''label'', JsonValue (JStr (label_string (md_Label d)))), (''value_ms'', FloatValue (md_ValueMs d))]"

definition metricsHandler :: "gotime \<Rightarrow> metrics_data list \<Rightarrow> pipeline_task \<Rightarrow> pipeline_task \<times> debug_entry list" where
  "metricsHandler now ds t =
     (let (ui, out) = ui_run now (map (\<lambda>d. (ServerMessage (metric_message d), now)) ds) (pt_UIEvents t)
      in (t\<lparr>pt_metrics := absorb (pt_metrics t) ds, pt_UIEvents := ui\<rparr>, out))"

definition setEndReason :: "string \<Rightarrow> pipeline_task \<Rightarrow> pipeline_task" where
  "setEndReason reason t =
     (if pt_endReason t = [] then t\<lparr>pt_endReason := normalizeEndReason reason\<rparr> else t)"

definition currentEndReason :: "pipeline_task \<Rightarrow> string" where
  "currentEndReason t = normalizeEndReason (pt_endReason t)"

text \<open>The first reason stays.\<close>

interpretation end_reason: one_shot setEndReason "\<lambda>r t. pt_endReason t = []" "\<lambda>t. pt_endReason t \<noteq> []"
  by unfold_locales (auto simp: setEndReason_def)

subsection \<open>End\<close>

text \<open>
  A call of \<open>End\<close>, by what it does next: the first check, the compare-and-swap, the second check,
  the record of the reason, the send to the source. \<open>None\<close> is a send that blocks.
\<close>

datatype end_pc =
    EndCheck string | EndSwap string | EndRecheck string | EndSetReason string | EndQueue string | EndReturned

definition End_call :: "string \<Rightarrow> end_pc" where
  "End_call reason = EndCheck (normalizeEndReason reason)"

fun End_step :: "pipeline_task \<Rightarrow> end_pc \<Rightarrow> (pipeline_task \<times> end_pc) option" where
  "End_step t (EndCheck r) = Some (t, if pt_cleanupStarted t \<or> pt_ctxDone t then EndReturned else EndSwap r)"
| "End_step t (EndSwap r) =
     (if pt_endRequested t then Some (t, EndReturned) else Some (t\<lparr>pt_endRequested := True\<rparr>, EndRecheck r))"
| "End_step t (EndRecheck r) = Some (t, if pt_cleanupStarted t \<or> pt_ctxDone t then EndReturned else EndSetReason r)"
| "End_step t (EndSetReason r) = Some (setEndReason r t, EndQueue r)"
| "End_step t (EndQueue r) =
     (case Queue (EndFrame r) (pt_frames t) of None \<Rightarrow> None
      | Some frames \<Rightarrow> Some (t\<lparr>pt_frames := frames\<rparr>, EndReturned))"
| "End_step t EndReturned = None"

subsection \<open>The cleanup\<close>

datatype task_out =
    Published "debug_entry list"
  | Delivered call_event
  | QueuedEnd string
  | EnteredChain frame
  | ProcessorsStopped
  | RoomDisconnected
  | CallEnded string final_stats
  | ContextCancelled
  | CleanedUp

datatype cleanup_step =
    StoreRequested | StoreStarted | RecordReason | EmitEnded | StopProcessors | DisconnectRoom
  | DrainEvents | AwaitProcessors | ReportEnd | CancelContext | CallOnCleanup

text \<open>\<open>CompleteEnd\<close>: the first call starts the cleanup, with the frame's reason.\<close>

definition CompleteEnd :: "string \<Rightarrow> pipeline_task \<Rightarrow> pipeline_task \<times> string option" where
  "CompleteEnd reason t =
     (if pt_cleanupOnce t then (t, None) else (t\<lparr>pt_cleanupOnce := True\<rparr>, Some reason))"

text \<open>\<open>runCleanup\<close>: its steps in order, and what each does. The wait for the processors ends when
  they have exited or after ten seconds, and either way the cleanup goes on.\<close>

definition runCleanup :: "cleanup_step list" where
  "runCleanup = [StoreRequested, StoreStarted, RecordReason, EmitEnded, StopProcessors, DisconnectRoom,
     DrainEvents, AwaitProcessors, ReportEnd, CancelContext, CallOnCleanup]"

definition final_report :: "gotime \<Rightarrow> pipeline_task \<Rightarrow> final_stats" where
  "final_report endedAt t =
     (let (transport, meeting, botSession, userSession) = TransportSession (pt_UIEvents t)
      in \<lparr>fs_TransportType = transport,
          fs_TotalUserDurationSec = TotalDurationSec endedAt endedAt (pt_callStats t),
          fs_FirstUserAudioFrameAt = cs_firstAudioAt (pt_callStats t),
          fs_EndedAt = endedAt, fs_MeetingID = meeting, fs_BotSessionID = botSession,
          fs_UserSessionID = userSession, fs_DebugLogs = us_entries (pt_UIEvents t)\<rparr>)"

definition call_ended_message :: "string \<Rightarrow> payload" where
  "call_ended_message reason =
     MapPayload [(''type'', JsonValue (JStr ''call_ended'')), (''reason'', JsonValue (JStr reason))]"

fun cleanup_act :: "gotime \<Rightarrow> string \<Rightarrow> cleanup_step \<Rightarrow> pipeline_task \<Rightarrow> pipeline_task \<times> task_out list" where
  "cleanup_act now reason StoreRequested t = (t\<lparr>pt_endRequested := True\<rparr>, [])"
| "cleanup_act now reason StoreStarted t = (t\<lparr>pt_cleanupStarted := True\<rparr>, [])"
| "cleanup_act now reason RecordReason t = (setEndReason reason t, [])"
| "cleanup_act now reason EmitEnded t =
     (let (ui, out) = ui_apply now (ServerMessage (call_ended_message (normalizeEndReason reason))) now (pt_UIEvents t)
      in (t\<lparr>pt_UIEvents := ui\<rparr>, [Published out]))"
| "cleanup_act now reason StopProcessors t = (t, [ProcessorsStopped])"
| "cleanup_act now reason DisconnectRoom t = (t, if pt_Room t then [RoomDisconnected] else [])"
| "cleanup_act now reason DrainEvents t =
     (let (d, evs) = stopAndDrain (pt_callEvents t) in (t\<lparr>pt_callEvents := d\<rparr>, map Delivered evs))"
| "cleanup_act now reason AwaitProcessors t = (t, [])"
| "cleanup_act now reason ReportEnd t =
     (let t' = t\<lparr>pt_callStats := MarkUserLeft now now (pt_callStats t)\<rparr>
      in (t', if pt_onCallEnded t then [CallEnded (currentEndReason t') (final_report now t')] else []))"
| "cleanup_act now reason CancelContext t = (t\<lparr>pt_ctxDone := True\<rparr>, [ContextCancelled])"
| "cleanup_act now reason CallOnCleanup t = (t, if pt_OnCleanup t then [CleanedUp] else [])"

text \<open>\<open>Abort\<close>: drain the events, cancel the context.\<close>

definition Abort :: "pipeline_task \<Rightarrow> pipeline_task \<times> task_out list" where
  "Abort t =
     (let (d, evs) = stopAndDrain (pt_callEvents t)
      in (t\<lparr>pt_callEvents := d, pt_ctxDone := True\<rparr>, map Delivered evs @ [ContextCancelled]))"

section \<open>A call\<close>

text \<open>
  All the goroutines of a call that touch its task: the calls of \<open>End\<close>, the source's loop, the
  frames on their way down the chain, the cleanup with what it has left to do, and everything the
  call has let out so far, in order. An operation that cannot happen changes nothing.
\<close>

record call =
  cl_task :: pipeline_task
  cl_ends :: "end_pc list"
  cl_source_done :: bool
  cl_chain :: "frame list"
  cl_cleanup :: "(string \<times> cleanup_step list) option"
  cl_out :: "task_out list"

datatype call_op =
    CallEnd string | EndTurn nat | SourceTurn nat | ReachSink | CleanupTurn gotime | ParentCancelled
  | EmitUI gotime ui_event gotime | FireEvent call_event | RunEvent | AbsorbMetrics gotime "metrics_data list"
  | Presence presence

definition begin_call :: "pipeline_task \<Rightarrow> call" where
  "begin_call t = \<lparr>cl_task = t, cl_ends = [], cl_source_done = False, cl_chain = [],
     cl_cleanup = None, cl_out = []\<rparr>"

fun call_step :: "call_op \<Rightarrow> call \<Rightarrow> call" where
  "call_step (CallEnd r) c = c\<lparr>cl_ends := cl_ends c @ [End_call r]\<rparr>"
| "call_step (EndTurn i) c =
     (if i < length (cl_ends c) then
        (case End_step (cl_task c) (cl_ends c ! i) of None \<Rightarrow> c
         | Some (t, pc) \<Rightarrow> c\<lparr>cl_task := t, cl_ends := (cl_ends c)[i := pc],
             cl_out := cl_out c @ (case cl_ends c ! i of EndQueue r \<Rightarrow> [QueuedEnd r] | _ \<Rightarrow> [])\<rparr>)
      else c)"
| "call_step (SourceTurn k) c =
     (let outs = drainExternalFrames (pt_ctxDone (cl_task c)) (pt_frames (cl_task c))
      in if cl_source_done c \<or> k \<ge> length outs then c
         else let (frames, es, exit) = outs ! k
              in c\<lparr>cl_task := (cl_task c)\<lparr>pt_frames := frames\<rparr>, cl_source_done := exit,
                   cl_chain := cl_chain c @ pushes_to Downstream es,
                   cl_out := cl_out c @ map EnteredChain (pushes_to Downstream es)\<rparr>)"
| "call_step ReachSink c =
     (case cl_chain c of [] \<Rightarrow> c
      | f # rest \<Rightarrow>
          (case sink_process f Downstream of None \<Rightarrow> c\<lparr>cl_chain := rest\<rparr>
           | Some r \<Rightarrow> let (t, started) = CompleteEnd r (cl_task c)
                       in c\<lparr>cl_task := t, cl_chain := rest,
                            cl_cleanup := (case started of None \<Rightarrow> cl_cleanup c | Some r' \<Rightarrow> Some (r', runCleanup))\<rparr>))"
| "call_step (CleanupTurn now) c =
     (case cl_cleanup c of
        Some (r, s # rest) \<Rightarrow>
          let (t, out) = cleanup_act now r s (cl_task c)
          in c\<lparr>cl_task := t, cl_cleanup := Some (r, rest), cl_out := cl_out c @ out\<rparr>
      | _ \<Rightarrow> c)"
| "call_step ParentCancelled c = c\<lparr>cl_task := (cl_task c)\<lparr>pt_ctxDone := True\<rparr>\<rparr>"
| "call_step (EmitUI now ev t0) c =
     (let (ui, out) = ui_apply now ev t0 (pt_UIEvents (cl_task c))
      in c\<lparr>cl_task := (cl_task c)\<lparr>pt_UIEvents := ui\<rparr>, cl_out := cl_out c @ [Published out]\<rparr>)"
| "call_step (FireEvent ev) c = c\<lparr>cl_task := (cl_task c)\<lparr>pt_callEvents := fire ev (pt_callEvents (cl_task c))\<rparr>\<rparr>"
| "call_step RunEvent c =
     (let (d, evs) = run_next (pt_callEvents (cl_task c))
      in c\<lparr>cl_task := (cl_task c)\<lparr>pt_callEvents := d\<rparr>, cl_out := cl_out c @ map Delivered evs\<rparr>)"
| "call_step (AbsorbMetrics now ds) c =
     (let (t, out) = metricsHandler now ds (cl_task c)
      in c\<lparr>cl_task := t, cl_out := cl_out c @ [Published out]\<rparr>)"
| "call_step (Presence e) c =
     c\<lparr>cl_task := (cl_task c)\<lparr>pt_callStats := cs_step (pt_callStats (cl_task c)) e\<rparr>\<rparr>"

definition run_call :: "call_op list \<Rightarrow> call \<Rightarrow> call" where
  "run_call ops c = fold call_step ops c"

subsection \<open>The invariant\<close>

fun past_swap :: "end_pc \<Rightarrow> bool" where
  "past_swap (EndRecheck r) = True"
| "past_swap (EndSetReason r) = True"
| "past_swap (EndQueue r) = True"
| "past_swap _ = False"

fun pc_reason :: "end_pc \<Rightarrow> string option" where
  "pc_reason (EndCheck r) = Some r"
| "pc_reason (EndSwap r) = Some r"
| "pc_reason (EndRecheck r) = Some r"
| "pc_reason (EndSetReason r) = Some r"
| "pc_reason (EndQueue r) = Some r"
| "pc_reason EndReturned = None"

fun queued_reason :: "task_out \<Rightarrow> string list" where
  "queued_reason (QueuedEnd r) = [r]"
| "queued_reason _ = []"

fun ended_reason :: "task_out \<Rightarrow> string list" where
  "ended_reason (CallEnded r st) = [r]"
| "ended_reason _ = []"

definition queued_reasons :: "task_out list \<Rightarrow> string list" where
  "queued_reasons out = concat (map queued_reason out)"

definition ended_reasons :: "task_out list \<Rightarrow> string list" where
  "ended_reasons out = concat (map ended_reason out)"

text \<open>The reasons \<open>End\<close> was called with.\<close>

fun asked_reason :: "call_op \<Rightarrow> string list" where
  "asked_reason (CallEnd r) = [normalizeEndReason r]"
| "asked_reason _ = []"

definition asked_reasons :: "call_op list \<Rightarrow> string list" where
  "asked_reasons ops = concat (map asked_reason ops)"

definition end_frames :: "frame list \<Rightarrow> string list" where
  "end_frames fs = map end_Reason (filter is_end fs)"

lemma end_frames_simps [simp]:
  "end_frames [] = []"
  "end_frames (EndFrame r # fs) = r # end_frames fs"
  "end_frames (xs @ ys) = end_frames xs @ end_frames ys"
  by (simp_all add: end_frames_def)

lemma past_swap_update:
  "i < length xs \<Longrightarrow>
    length (filter past_swap (xs[i := y])) + (if past_swap (xs ! i) then 1 else 0) =
    length (filter past_swap xs) + (if past_swap y then 1 else 0)"
proof (induction xs arbitrary: i)
  case (Cons x xs)
  show ?case
  proof (cases i)
    case (Suc j)
    with Cons.prems Cons.IH [of j] show ?thesis by (auto split: if_splits)
  qed auto
qed simp

lemma reasons_simps [simp]:
  "queued_reasons [] = []" "queued_reasons (x # xs) = queued_reason x @ queued_reasons xs"
  "queued_reasons (xs @ ys) = queued_reasons xs @ queued_reasons ys"
  "ended_reasons [] = []" "ended_reasons (x # xs) = ended_reason x @ ended_reasons xs"
  "ended_reasons (xs @ ys) = ended_reasons xs @ ended_reasons ys"
  "queued_reasons (map Delivered evs) = []" "ended_reasons (map Delivered evs) = []"
  "queued_reasons (map EnteredChain fs) = []" "ended_reasons (map EnteredChain fs) = []"
  by (induction evs; induction fs; simp add: queued_reasons_def ended_reasons_def)+

fun is_delivery :: "task_out \<Rightarrow> bool" where
  "is_delivery (Delivered ev) = True"
| "is_delivery _ = False"

text \<open>No call event is delivered after the report of the ended call.\<close>

fun report_last :: "task_out list \<Rightarrow> bool" where
  "report_last [] = True"
| "report_last (CallEnded r st # out) = (\<not> list_ex is_delivery out)"
| "report_last (x # out) = report_last out"

lemma report_last_append:
  assumes "report_last xs" and "\<not> list_ex is_delivery ys \<or> (ended_reasons xs = [] \<and> ended_reasons ys = [])"
  shows "report_last (xs @ ys)"
proof -
  have quiet: "\<not> list_ex is_delivery zs \<Longrightarrow> report_last zs" for zs
    by (induction zs rule: report_last.induct) auto
  have calm: "ended_reasons zs = [] \<Longrightarrow> report_last zs" for zs
    by (induction zs rule: report_last.induct) auto
  show ?thesis using assms
    by (induction xs rule: report_last.induct) (auto intro: quiet calm)
qed

text \<open>
  \<open>Q\<close> holds the reasons queued so far and \<open>G\<close> those still under way: at most one call of \<open>End\<close> is
  past its swap or has queued its frame, and the recorded reason is that call's.
\<close>

definition ending_ok ::
  "string list \<Rightarrow> end_pc list \<Rightarrow> bool \<Rightarrow> bool \<Rightarrow> string \<Rightarrow> string list \<Rightarrow> string list \<Rightarrow> bool" where
  "ending_ok asked ends requested once reason Q G =
     (length (filter past_swap ends) + length Q \<le> (if requested then 1 else 0)
      \<and> length G + (if once then 1 else 0) = length Q
      \<and> (\<forall>pc \<in> set ends. \<forall>r. pc_reason pc = Some r \<longrightarrow> r \<in> set asked \<and> r \<noteq> [])
      \<and> (reason \<noteq> [] \<longrightarrow> EndQueue reason \<in> set ends \<or> reason \<in> set Q)
      \<and> (\<forall>r. EndQueue r \<in> set ends \<longrightarrow> reason = r)
      \<and> (\<forall>r \<in> set Q. reason = r \<and> r \<in> set asked \<and> r \<noteq> [])
      \<and> set G \<subseteq> set Q)"

definition ending_inv :: "string list \<Rightarrow> call \<Rightarrow> bool" where
  "ending_inv asked c =
     (let t = cl_task c
      in ending_ok asked (cl_ends c) (pt_endRequested t) (pt_cleanupOnce t) (pt_endReason t)
           (queued_reasons (cl_out c)) (end_frames (pt_frames t) @ end_frames (cl_chain c)))"

definition cleanup_ok :: "task_out list \<Rightarrow> (string \<times> cleanup_step list) option \<Rightarrow> bool \<Rightarrow> dispatcher \<Rightarrow> bool" where
  "cleanup_ok out cleanup once d =
     (report_last out \<and> set (ended_reasons out) \<subseteq> set (queued_reasons out)
      \<and> (case cleanup of
           None \<Rightarrow> \<not> once \<and> ended_reasons out = []
         | Some (r, todo) \<Rightarrow>
             once \<and> r \<in> set (queued_reasons out) \<and> suffix todo runCleanup
             \<and> length (ended_reasons out) \<le> (if ReportEnd \<in> set todo then 0 else 1)
             \<and> (DrainEvents \<notin> set todo \<longrightarrow> cd_closing d \<and> cd_queue d = [])))"

definition cleanup_inv :: "call \<Rightarrow> bool" where
  "cleanup_inv c = cleanup_ok (cl_out c) (cl_cleanup c) (pt_cleanupOnce (cl_task c)) (pt_callEvents (cl_task c))"

lemma start_inv:
  assumes "pt_endReason t = []" and "end_frames (pt_frames t) = []" and "\<not> pt_cleanupOnce t"
  shows "ending_inv [] (begin_call t) \<and> cleanup_inv (begin_call t)"
  using assms by (simp add: ending_inv_def ending_ok_def cleanup_inv_def cleanup_ok_def begin_call_def Let_def)

lemma ending_ok_mono:
  assumes "ending_ok asked ends req once reason Q G" and "set asked \<subseteq> set asked'" and "req \<Longrightarrow> req'"
  shows "ending_ok asked' ends req' once reason Q G"
proof -
  have "(if req then 1 else 0 :: nat) \<le> (if req' then 1 else 0)" using assms(3) by simp
  then show ?thesis using assms(1,2) unfolding ending_ok_def by (meson order_trans subsetD)
qed

lemma ending_inv_frame:
  assumes "ending_inv asked c" and "set asked \<subseteq> set asked'"
    and "cl_ends c' = cl_ends c" "cl_chain c' = cl_chain c"
    and "queued_reasons (cl_out c') = queued_reasons (cl_out c)"
    and "pt_endRequested (cl_task c) \<Longrightarrow> pt_endRequested (cl_task c')"
    and "pt_cleanupOnce (cl_task c') = pt_cleanupOnce (cl_task c)"
    and "pt_endReason (cl_task c') = pt_endReason (cl_task c)" "pt_frames (cl_task c') = pt_frames (cl_task c)"
  shows "ending_inv asked' c'"
  using assms ending_ok_mono unfolding ending_inv_def by (simp add: Let_def)

lemma end_frames_sink:
  "sink_process f dir = Some r \<Longrightarrow> f = EndFrame r"
  "sink_process f dir = None \<Longrightarrow> end_frames (f # fs) = end_frames fs"
  by (cases f; simp add: end_frames_def)+

lemma ending_okD:
  assumes "ending_ok asked ends req once reason Q G"
  shows "length (filter past_swap ends) + length Q \<le> (if req then 1 else 0)"
    and "length G + (if once then 1 else 0) = length Q"
    and "pc \<in> set ends \<Longrightarrow> pc_reason pc = Some r \<Longrightarrow> r \<in> set asked \<and> r \<noteq> []"
    and "reason \<noteq> [] \<Longrightarrow> EndQueue reason \<in> set ends \<or> reason \<in> set Q"
    and "EndQueue r \<in> set ends \<Longrightarrow> reason = r"
    and "r \<in> set Q \<Longrightarrow> reason = r \<and> r \<in> set asked \<and> r \<noteq> []"
    and "set G \<subseteq> set Q"
  using assms unfolding ending_ok_def by blast+

lemma ending_okI:
  assumes "length (filter past_swap ends) + length Q \<le> (if req then 1 else 0)"
    and "length G + (if once then 1 else 0) = length Q"
    and "\<And>pc r. pc \<in> set ends \<Longrightarrow> pc_reason pc = Some r \<Longrightarrow> r \<in> set asked \<and> r \<noteq> []"
    and "reason \<noteq> [] \<Longrightarrow> EndQueue reason \<in> set ends \<or> reason \<in> set Q"
    and "\<And>r. EndQueue r \<in> set ends \<Longrightarrow> reason = r"
    and "\<And>r. r \<in> set Q \<Longrightarrow> reason = r \<and> r \<in> set asked \<and> r \<noteq> []"
    and "set G \<subseteq> set Q"
  shows "ending_ok asked ends req once reason Q G"
  using assms unfolding ending_ok_def by blast

lemma replaced_pc:
  "x \<in> set (xs[i := y]) \<Longrightarrow> x = y \<or> x \<in> set xs"
  using set_update_subset_insert [of xs i y] by auto

lemma replaced_reason:
  assumes "ending_ok asked ends req once reason Q G" and "p \<in> set (ends[i := pc])" and "pc_reason p = Some r"
    and "pc_reason pc = None \<or> (pc_reason pc = pc_reason (ends ! i) \<and> i < length ends)"
  shows "r \<in> set asked \<and> r \<noteq> []"
proof -
  consider "p \<in> set ends" | "p = pc" "pc_reason (ends ! i) = Some r" "ends ! i \<in> set ends"
    using replaced_pc [OF assms(2)] assms(3,4) by fastforce
  then show ?thesis using ending_okD(3) [OF assms(1)] assms(3) by cases blast+
qed

lemma no_queuer:
  assumes "ending_ok asked ends req once reason Q G" and "i < length ends"
    and "past_swap (ends ! i)" and "EndQueue r \<in> set ends"
  shows "ends ! i = EndQueue r"
proof (rule ccontr)
  assume "ends ! i \<noteq> EndQueue r"
  with assms(2,4) obtain j where j: "j < length ends" "ends ! j = EndQueue r" "j \<noteq> i"
    by (metis in_set_conv_nth)
  have "length (filter past_swap (ends[i := EndReturned, j := EndReturned])) + 2 = length (filter past_swap ends)"
    using past_swap_update [OF assms(2), of EndReturned] past_swap_update [of j "ends[i := EndReturned]" EndReturned] assms(3) j
    by simp
  with assms(1) show False by (simp add: ending_ok_def split: if_splits)
qed

text \<open>A turn that leaves the call on the same side of its swap keeps the invariant.\<close>

lemma pc_update_ok:
  assumes ok: "ending_ok asked ends req once reason Q G" and i: "i < length ends"
    and "past_swap pc \<Longrightarrow> past_swap (ends ! i)" and "pc_reason pc = None \<or> pc_reason pc = pc_reason (ends ! i)"
    and "\<And>r. ends ! i \<noteq> EndQueue r" and "\<And>r. pc \<noteq> EndQueue r"
  shows "ending_ok asked (ends[i := pc]) req once reason Q G"
proof -
  note D = ending_okD [OF ok]
  have 1: "length (filter past_swap (ends[i := pc])) \<le> length (filter past_swap ends)"
    using past_swap_update [OF i, of pc] assms(3) by (simp split: if_splits)
  have 3: "EndQueue r \<in> set (ends[i := pc]) \<longleftrightarrow> EndQueue r \<in> set ends" for r
  proof
    assume "EndQueue r \<in> set ends"
    then obtain j where "j < length ends" "ends ! j = EndQueue r" by (auto simp: in_set_conv_nth)
    then show "EndQueue r \<in> set (ends[i := pc])"
      using assms(5) by (metis length_list_update nth_list_update_neq nth_mem)
  qed (use assms(6) replaced_pc [of "EndQueue r"] in metis)
  show ?thesis
  proof (rule ending_okI)
    show "length (filter past_swap (ends[i := pc])) + length Q \<le> (if req then 1 else 0)"
      using 1 D(1) by linarith
    show "r \<in> set asked \<and> r \<noteq> []" if "p \<in> set (ends[i := pc])" "pc_reason p = Some r" for p r
      using replaced_reason [OF ok that] assms(4) i by blast
  qed (use D in \<open>auto simp: 3\<close>)
qed

lemma swap_ok:
  assumes ok: "ending_ok asked ends False once reason Q G" and i: "i < length ends" and "ends ! i = EndSwap r"
  shows "ending_ok asked (ends[i := EndRecheck r]) True once reason Q G"
proof (rule ending_okI)
  note D = ending_okD [OF ok]
  have n: "filter past_swap ends = []" and Q: "Q = []" using D(1) by auto
  then have none: "EndQueue r' \<notin> set ends" for r' by (auto simp: filter_empty_conv)
  show "length (filter past_swap (ends[i := EndRecheck r])) + length Q \<le> (if True then 1 else 0)"
    using past_swap_update [OF i, of "EndRecheck r"] n Q assms(3) by simp
  show "r' \<in> set asked \<and> r' \<noteq> []" if "p \<in> set (ends[i := EndRecheck r])" "pc_reason p = Some r'" for p r'
    using replaced_reason [OF ok that] assms(3) i by simp
  show "reason = r'" if "EndQueue r' \<in> set (ends[i := EndRecheck r])" for r'
    using replaced_pc [OF that] none by simp
  show "reason \<noteq> [] \<Longrightarrow> EndQueue reason \<in> set (ends[i := EndRecheck r]) \<or> reason \<in> set Q"
    using D(4) none Q by simp
qed (use ending_okD [OF ok] in auto)

lemma past_swap_alone:
  assumes ok: "ending_ok asked ends req once reason Q G" and "i < length ends" and "past_swap (ends ! i)"
  shows "Q = []" "length (filter past_swap ends) = 1" "req"
proof -
  have "ends ! i \<in> set (filter past_swap ends)" using assms(2,3) by simp
  then obtain x xs where "filter past_swap ends = x # xs" by (cases "filter past_swap ends") auto
  then show "Q = []" "length (filter past_swap ends) = 1" "req"
    using ending_okD(1) [OF ok] by (auto split: if_splits)
qed

lemma set_reason_ok:
  assumes ok: "ending_ok asked ends req once reason Q G" and i: "i < length ends" and pc: "ends ! i = EndSetReason r"
  shows "reason = [] \<and> ending_ok asked (ends[i := EndQueue r]) req once r Q G"
proof -
  note D = ending_okD [OF ok]
  have Q: "Q = []" and one: "length (filter past_swap ends) = 1" and req
    using past_swap_alone [OF ok i] pc by auto
  have none: "EndQueue r' \<notin> set ends" for r'
    using no_queuer [OF ok i] pc by auto
  have "ending_ok asked (ends[i := EndQueue r]) req once r Q G"
  proof (rule ending_okI)
    show "length (filter past_swap (ends[i := EndQueue r])) + length Q \<le> (if req then 1 else 0)"
      using past_swap_update [OF i, of "EndQueue r"] one pc Q \<open>req\<close> by simp
    show "r' \<in> set asked \<and> r' \<noteq> []" if "p \<in> set (ends[i := EndQueue r])" "pc_reason p = Some r'" for p r'
      using replaced_reason [OF ok that] pc i by simp
    show "r = r'" if "EndQueue r' \<in> set (ends[i := EndQueue r])" for r'
      using replaced_pc [OF that] none by simp
    show "EndQueue r \<in> set (ends[i := EndQueue r]) \<or> r \<in> set Q"
      using set_update_memI [OF i] by blast
  qed (use D Q in auto)
  with D(4) none Q show ?thesis by auto
qed

lemma queue_ok:
  assumes ok: "ending_ok asked ends req once reason Q G" and i: "i < length ends" and pc: "ends ! i = EndQueue r"
    and G': "length G' = length G + 1" "set G' = insert r (set G)"
  shows "ending_ok asked (ends[i := EndReturned]) req once reason (Q @ [r]) G'"
proof -
  note D = ending_okD [OF ok]
  have mem: "EndQueue r \<in> set ends" using i pc nth_mem by metis
  have Q: "Q = []" and one: "length (filter past_swap ends) = 1" and req
    using past_swap_alone [OF ok i] pc by auto
  have r: "reason = r" "r \<in> set asked \<and> r \<noteq> []" using D(5) D(3) mem by auto
  have zero: "filter past_swap (ends[i := EndReturned]) = []"
    using past_swap_update [OF i, of EndReturned] one pc by simp
  show ?thesis
  proof (rule ending_okI)
    show "r' \<in> set asked \<and> r' \<noteq> []" if "p \<in> set (ends[i := EndReturned])" "pc_reason p = Some r'" for p r'
      using replaced_reason [OF ok that] i by simp
    show "reason = r'" if "EndQueue r' \<in> set (ends[i := EndReturned])" for r'
      using that zero by (auto simp: filter_empty_conv)
    show "set G' \<subseteq> set (Q @ [r])" using D(7) G' Q by auto
    show "length G' + (if once then 1 else 0) = length (Q @ [r])" using D(2) G' by simp
    show "length (filter past_swap (ends[i := EndReturned])) + length (Q @ [r]) \<le> (if req then 1 else 0)"
      using zero Q \<open>req\<close> by simp
  qed (use r Q in auto)
qed

lemma ending_ok_cong:
  assumes "ending_ok asked ends req once reason Q G" and "length G = length G'" and "set G = set G'"
  shows "ending_ok asked ends req once reason Q G'"
  using assms unfolding ending_ok_def by simp

lemma end_turn_inv:
  assumes inv: "ending_inv asked c"
  shows "ending_inv asked (call_step (EndTurn i) c)"
proof (cases "i < length (cl_ends c) \<and> End_step (cl_task c) (cl_ends c ! i) \<noteq> None")
  case True
  then have i: "i < length (cl_ends c)" by simp
  note ok = inv [unfolded ending_inv_def Let_def]
  show ?thesis
  proof (cases "cl_ends c ! i")
    case (EndCheck r)
    then show ?thesis using i pc_update_ok [OF ok i, of EndReturned] pc_update_ok [OF ok i, of "EndSwap r"]
      by (simp add: ending_inv_def Let_def)
  next
    case (EndSwap r)
    show ?thesis
    proof (cases "pt_endRequested (cl_task c)")
      case True
      then show ?thesis using EndSwap i pc_update_ok [OF ok i, of EndReturned]
        by (simp add: ending_inv_def Let_def)
    next
      case False
      then show ?thesis using EndSwap i swap_ok [OF _ i EndSwap] ok
        by (simp add: ending_inv_def Let_def)
    qed
  next
    case (EndRecheck r)
    then show ?thesis using i pc_update_ok [OF ok i, of EndReturned] pc_update_ok [OF ok i, of "EndSetReason r"]
      by (simp add: ending_inv_def Let_def)
  next
    case (EndSetReason r)
    have "r \<noteq> []" using ending_okD(3) [OF ok, of "EndSetReason r" r] i EndSetReason nth_mem [OF i] by simp
    then show ?thesis using EndSetReason i set_reason_ok [OF ok i EndSetReason]
      by (simp add: ending_inv_def Let_def setEndReason_def normalizeEndReason_def)
  next
    case (EndQueue r)
    with True obtain frames where "Queue (EndFrame r) (pt_frames (cl_task c)) = Some frames"
      by (auto split: option.splits)
    then have "frames = pt_frames (cl_task c) @ [EndFrame r]" by (simp add: Queue_def split: if_splits)
    with \<open>Queue _ _ = _\<close> show ?thesis
      using i EndQueue queue_ok [OF ok i EndQueue, of "end_frames (pt_frames (cl_task c)) @ [r] @ end_frames (cl_chain c)"]
      by (simp add: ending_inv_def Let_def)
  qed (use True in simp)
qed (use inv in \<open>auto split: option.splits\<close>)

lemma source_turn_inv:
  assumes inv: "ending_inv asked c"
  shows "ending_inv asked (call_step (SourceTurn k) c)"
proof -
  let ?outs = "drainExternalFrames (pt_ctxDone (cl_task c)) (pt_frames (cl_task c))"
  show ?thesis
  proof (cases "cl_source_done c \<or> k \<ge> length ?outs")
    case True
    then show ?thesis using inv by (auto simp: Let_def)
  next
    case False
    obtain frames es exit where out: "?outs ! k = (frames, es, exit)" by (cases "?outs ! k") auto
    with False have "(frames, es, exit) \<in> set ?outs" by (metis not_le nth_mem)
    then have "pushes_to Downstream es = [] \<and> frames = pt_frames (cl_task c)
      \<or> (\<exists>f. pt_frames (cl_task c) = f # frames \<and> pushes_to Downstream es = [f])"
      by (auto simp: drainExternalFrames_def split: list.splits if_splits)
    then have G: "length (end_frames (pt_frames (cl_task c)) @ end_frames (cl_chain c)) =
          length (end_frames frames @ end_frames (cl_chain c @ pushes_to Downstream es))
        \<and> set (end_frames (pt_frames (cl_task c)) @ end_frames (cl_chain c)) =
          set (end_frames frames @ end_frames (cl_chain c @ pushes_to Downstream es))"
      by (auto simp: end_frames_def)
    note ok = inv [unfolded ending_inv_def Let_def]
    show ?thesis using False out ending_ok_cong [OF ok conjunct1 [OF G] conjunct2 [OF G]]
      by (simp add: ending_inv_def Let_def)
  qed
qed

lemma cleanup_inv_frame:
  assumes "cleanup_inv c" and "cl_out c' = cl_out c" "cl_cleanup c' = cl_cleanup c"
    and "pt_cleanupOnce (cl_task c') = pt_cleanupOnce (cl_task c)"
    and "pt_callEvents (cl_task c') = pt_callEvents (cl_task c)"
  shows "cleanup_inv c'"
  using assms by (simp add: cleanup_inv_def)

lemma reach_sink_inv:
  assumes inv: "ending_inv asked c" and cl: "cleanup_inv c"
  shows "ending_inv asked (call_step ReachSink c) \<and> cleanup_inv (call_step ReachSink c)"
proof (cases "cl_chain c")
  case (Cons f rest)
  note ok = inv [unfolded ending_inv_def Let_def]
  show ?thesis
  proof (cases "sink_process f Downstream")
    case None
    then show ?thesis using inv Cons end_frames_sink(2) [OF None, of rest] cleanup_inv_frame [OF cl]
      by (simp add: ending_inv_def Let_def)
  next
    case (Some r)
    then have f: "f = EndFrame r" by (rule end_frames_sink)
    let ?t = "cl_task c"
    have Q: "length (queued_reasons (cl_out c)) \<le> 1"
      using ending_okD(1) [OF ok] by (simp split: if_splits)
    with ending_okD(2) [OF ok] Cons f have once: "\<not> pt_cleanupOnce ?t" and
      G: "end_frames (pt_frames ?t) = []" "end_frames rest = []"
      by (cases "end_frames (pt_frames ?t)"; cases "end_frames rest"; simp split: if_splits)+
    have r: "r \<in> set (queued_reasons (cl_out c))" using ending_okD(7) [OF ok] Cons f by simp
    have "ending_ok asked (cl_ends c) (pt_endRequested ?t) True (pt_endReason ?t) (queued_reasons (cl_out c)) []"
      using ok once Cons f G unfolding ending_ok_def by simp
    moreover have "cl_cleanup c = None \<and> ended_reasons (cl_out c) = []"
      using cl once by (auto simp: cleanup_inv_def cleanup_ok_def split: option.splits)
    ultimately show ?thesis
      using cl once Cons f G r
      by (simp add: ending_inv_def cleanup_inv_def cleanup_ok_def Let_def CompleteEnd_def runCleanup_def)
  qed
qed (use inv cl in simp)

lemma cleanup_suffixes:
  "suffix (s # rest) runCleanup \<Longrightarrow>
    suffix rest runCleanup \<and> s \<notin> set rest \<and> (s \<noteq> ReportEnd \<and> ReportEnd \<notin> set rest \<longrightarrow> DrainEvents \<notin> set (s # rest))
    \<and> (ReportEnd \<in> set (s # rest) \<or> s \<in> {CancelContext, CallOnCleanup})
    \<and> (s = DrainEvents \<longrightarrow> ReportEnd \<in> set rest)"
  by (auto simp: runCleanup_def suffix_Cons)

lemma cleanup_turn_inv:
  assumes inv: "ending_inv asked c" and cl: "cleanup_inv c"
  shows "ending_inv asked (call_step (CleanupTurn now) c) \<and> cleanup_inv (call_step (CleanupTurn now) c)"
proof (cases "\<exists>r s rest. cl_cleanup c = Some (r, s # rest)")
  case True
  then obtain r s rest where c: "cl_cleanup c = Some (r, s # rest)" by blast
  note ok = inv [unfolded ending_inv_def Let_def]
  from cl c have r: "r \<in> set (queued_reasons (cl_out c))" and suf: "suffix (s # rest) runCleanup"
    by (simp_all add: cleanup_inv_def cleanup_ok_def)
  note suf = cleanup_suffixes [OF suf]
  have reason: "pt_endReason (cl_task c) = r" "r \<noteq> []" using ending_okD(6) [OF ok r] by auto
  have "ending_inv asked (call_step (CleanupTurn now) c)"
    by (rule ending_inv_frame [OF inv]; cases s)
      (auto simp: c setEndReason_def reason Let_def split_beta)
  moreover have "cleanup_inv (call_step (CleanupTurn now) c)"
    using cl c suf reason r
    by (cases s) (auto simp: cleanup_inv_def cleanup_ok_def Let_def split_beta setEndReason_def
        currentEndReason_def normalizeEndReason_def stopAndDrain_def intro!: report_last_append split: if_splits)
  ultimately show ?thesis by simp
qed (use assms in \<open>auto split: option.split list.split\<close>)

lemma quiet_out_inv:
  assumes "cleanup_inv c" and "cl_out c' = cl_out c @ [Published out]" and "cl_cleanup c' = cl_cleanup c"
    and "pt_cleanupOnce (cl_task c') = pt_cleanupOnce (cl_task c)"
    and "pt_callEvents (cl_task c') = pt_callEvents (cl_task c)"
  shows "cleanup_inv c'"
  using assms by (auto simp: cleanup_inv_def cleanup_ok_def intro!: report_last_append split: option.splits)

lemma fire_closed: "cd_closing d \<Longrightarrow> cd_queue d = [] \<Longrightarrow> cd_closing (fire ev d) \<and> cd_queue (fire ev d) = []"
  by (simp add: fire_def dispatch_def)

lemma fire_inv: "cleanup_inv c \<Longrightarrow> cleanup_inv (call_step (FireEvent ev) c)"
  using fire_closed by (auto simp: cleanup_inv_def cleanup_ok_def split: option.splits)

lemma suffix_drained:
  "suffix todo runCleanup \<Longrightarrow> ReportEnd \<notin> set todo \<Longrightarrow> DrainEvents \<notin> set todo"
  by (auto simp: runCleanup_def suffix_Cons)

lemma run_event_inv:
  assumes cl: "cleanup_inv c"
  shows "cleanup_inv (call_step RunEvent c)"
proof (cases "cd_queue (pt_callEvents (cl_task c))")
  case Nil
  then show ?thesis using cleanup_inv_frame [OF cl, of "call_step RunEvent c"] by (simp add: run_next_def)
next
  case (Cons ev rest)
  have E: "ended_reasons (cl_out c) = []"
    using cl Cons suffix_drained by (auto simp: cleanup_inv_def cleanup_ok_def split: option.splits if_splits)
  have "report_last (cl_out c @ [Delivered ev])"
    using cl E by (auto simp: cleanup_inv_def cleanup_ok_def intro!: report_last_append)
  then show ?thesis using cl Cons E
    by (auto simp: cleanup_inv_def cleanup_ok_def run_next_def split: option.splits)
qed

lemma source_turn_cleanup: "cleanup_inv c \<Longrightarrow> cleanup_inv (call_step (SourceTurn k) c)"
proof -
  assume cl: "cleanup_inv c"
  have "\<not> list_ex is_delivery (map EnteredChain fs)" for fs by (induction fs) simp_all
  with cl show ?thesis
    by (auto simp: cleanup_inv_def cleanup_ok_def Let_def split_beta intro!: report_last_append split: option.splits)
qed

lemma End_step_frame:
  assumes "End_step t pc = Some (t', pc')"
  shows "pt_cleanupOnce t' = pt_cleanupOnce t" "pt_callEvents t' = pt_callEvents t"
  using assms by (cases pc; auto simp: setEndReason_def split: if_splits option.splits)+

lemma end_turn_cleanup: "cleanup_inv c \<Longrightarrow> cleanup_inv (call_step (EndTurn i) c)"
proof -
  assume cl: "cleanup_inv c"
  show ?thesis
  proof (cases "i < length (cl_ends c) \<and> End_step (cl_task c) (cl_ends c ! i) \<noteq> None")
    case True
    then obtain t pc where step: "End_step (cl_task c) (cl_ends c ! i) = Some (t, pc)" by auto
    have "report_last (cl_out c @ [QueuedEnd r])" for r
      using cl by (auto simp: cleanup_inv_def cleanup_ok_def intro!: report_last_append)
    then show ?thesis
      using cl True step End_step_frame [OF step]
      by (auto simp: cleanup_inv_def cleanup_ok_def split: option.splits end_pc.splits)
  qed (use cl in \<open>auto split: option.splits\<close>)
qed

lemma ask_inv:
  assumes "ending_inv asked c"
  shows "ending_inv (asked @ [normalizeEndReason r]) (call_step (CallEnd r) c)"
  using assms by (auto simp: ending_inv_def ending_ok_def Let_def End_call_def)

lemma call_step_inv:
  assumes "ending_inv asked c" and "cleanup_inv c"
  shows "ending_inv (asked @ asked_reason op) (call_step op c) \<and> cleanup_inv (call_step op c)"
proof (cases op)
  case (CallEnd r)
  then show ?thesis using ask_inv [OF assms(1)] cleanup_inv_frame [OF assms(2)] by simp
next
  case (EndTurn i)
  then show ?thesis using end_turn_inv end_turn_cleanup assms by simp
next
  case (SourceTurn k)
  then show ?thesis using source_turn_inv source_turn_cleanup assms by simp
next
  case ReachSink
  then show ?thesis using reach_sink_inv assms by simp
next
  case (CleanupTurn now)
  then show ?thesis using cleanup_turn_inv [OF assms] by simp
next
  case ParentCancelled
  then show ?thesis using ending_inv_frame [OF assms(1)] cleanup_inv_frame [OF assms(2)] by simp
next
  case (EmitUI now ev t0)
  then show ?thesis
    using ending_inv_frame [OF assms(1), of asked "call_step op c"] quiet_out_inv [OF assms(2), of "call_step op c"]
    by (simp add: split_beta Let_def)
next
  case (FireEvent ev)
  then show ?thesis
    using ending_inv_frame [OF assms(1), of asked "call_step op c"] fire_inv [OF assms(2)] by simp
next
  case RunEvent
  then show ?thesis
    using ending_inv_frame [OF assms(1), of asked "call_step op c"] run_event_inv [OF assms(2)]
    by (simp add: split_beta Let_def)
next
  case (AbsorbMetrics now ds)
  then show ?thesis
    using ending_inv_frame [OF assms(1), of asked "call_step op c"] quiet_out_inv [OF assms(2), of "call_step op c"]
    by (simp add: split_beta Let_def metricsHandler_def)
next
  case (Presence e)
  then show ?thesis using ending_inv_frame [OF assms(1)] cleanup_inv_frame [OF assms(2)] by simp
qed

lemma run_call_inv:
  assumes "pt_endReason t = []" and "pt_frames t = []" and "\<not> pt_cleanupOnce t"
  shows "ending_inv (asked_reasons ops) (run_call ops (begin_call t)) \<and> cleanup_inv (run_call ops (begin_call t))"
proof (induction ops rule: rev_induct)
  case Nil
  then show ?case using start_inv [of t] assms by (simp add: run_call_def asked_reasons_def)
next
  case (snoc op ops)
  then show ?case using call_step_inv [of "asked_reasons ops" "run_call ops (begin_call t)" op]
    by (simp add: run_call_def asked_reasons_def)
qed

text \<open>
  C1: a call ends once, for its first reason. Let \<open>End\<close> be called any number of times, from any
  goroutines and with any reasons, in any interleaving with the source, the sink, the cleanup, the
  cancellation of the context and everything else that happens during a call. At most one end frame
  is queued; its reason is one \<open>End\<close> was called with, or \<open>unspecified\<close> for the empty one. The
  end-of-call callback runs at most once, with the reason of that very frame, and never without it;
  and no call event reaches its callback after it.
\<close>

theorem call_ends_once:
  assumes "NewPipelineTask n cfg = Inr t"
  shows "let out = cl_out (run_call ops (begin_call t))
    in length (queued_reasons out) \<le> 1
       \<and> set (queued_reasons out) \<subseteq> set (asked_reasons ops)
       \<and> length (ended_reasons out) \<le> 1
       \<and> set (ended_reasons out) \<subseteq> set (queued_reasons out)
       \<and> report_last out"
proof -
  let ?c = "run_call ops (begin_call t)"
  have "pt_endReason t = [] \<and> pt_frames t = [] \<and> \<not> pt_cleanupOnce t"
    using assms by (auto simp: NewPipelineTask_def split: if_splits)
  then have inv: "ending_inv (asked_reasons ops) ?c" "cleanup_inv ?c" using run_call_inv by auto
  note ok = inv(1) [unfolded ending_inv_def Let_def]
  have "length (queued_reasons (cl_out ?c)) \<le> 1" using ending_okD(1) [OF ok] by (simp split: if_splits)
  moreover have "set (queued_reasons (cl_out ?c)) \<subseteq> set (asked_reasons ops)" using ending_okD(6) [OF ok] by blast
  moreover have "length (ended_reasons (cl_out ?c)) \<le> 1 \<and> set (ended_reasons (cl_out ?c)) \<subseteq> set (queued_reasons (cl_out ?c))
      \<and> report_last (cl_out ?c)"
    using inv(2) by (auto simp: cleanup_inv_def cleanup_ok_def split: option.splits if_splits)
  ultimately show ?thesis by (simp add: Let_def)
qed

definition example_config :: task_config where
  "example_config = \<lparr>tcfg_Logger = True, tcfg_SessionID = ''call-1'', tcfg_handlers = [OnBotJoined],
     tcfg_OnCallEnded = True, tcfg_OnCleanup = True\<rparr>"

definition example_task :: pipeline_task where
  "example_task = (case NewPipelineTask 0 example_config of Inr t \<Rightarrow> t)"

lemma example_task: "NewPipelineTask 0 example_config = Inr example_task"
  by (simp add: example_task_def NewPipelineTask_def example_config_def)

text \<open>Two calls of \<open>End\<close> race; the second one wins the swap.\<close>

definition example_race :: "call_op list" where
  "example_race = [CallEnd ''user_idle'', CallEnd [], FireEvent (BotJoined 1), EndTurn 0, EndTurn 1, EndTurn 1, EndTurn 0,
     EndTurn 1, EndTurn 1, EndTurn 1, SourceTurn 0, ReachSink] @ replicate 11 (CleanupTurn 5)"

theorem call_ends_once_witness:
  "let out = cl_out (run_call example_race (begin_call example_task))
   in queued_reasons out = [''unspecified''] \<and> ended_reasons out = [''unspecified''] \<and> report_last out"
proof -
  have "queued_reasons (cl_out (run_call example_race (begin_call example_task))) = [''unspecified'']"
    "ended_reasons (cl_out (run_call example_race (begin_call example_task))) = [''unspecified'']"
    by code_simp+
  then show ?thesis using call_ends_once [OF example_task, of example_race] by (simp add: Let_def)
qed

subsection \<open>An end request ends the call\<close>

text \<open>The turns that take one \<open>End\<close> from its call to the end of the cleanup, with nothing else between them.\<close>

definition ending_turns :: "nat \<Rightarrow> string \<Rightarrow> gotime \<Rightarrow> call_op list" where
  "ending_turns i r now = CallEnd r # replicate 5 (EndTurn i) @ [SourceTurn 0, ReachSink] @ replicate 11 (CleanupTurn now)"



section \<open>Frames through the chain\<close>

text \<open>
  A run of downstream frames is fed to a processor, and what it pushes downstream is fed to the
  next one, in the order in which \<open>BuildTask\<close> assembles them; speech-to-text has several outcomes.
  The speech synthesis and the playback, which answer later, have their own theories.
\<close>

fun feed :: "('s \<Rightarrow> frame \<Rightarrow> direction \<Rightarrow> 's \<times> effect list) \<Rightarrow> 's \<Rightarrow> frame list \<Rightarrow> 's \<times> frame list" where
  "feed step s [] = (s, [])"
| "feed step s (f # fs) =
     (let (s1, es) = step s f Downstream; (s2, out) = feed step s1 fs in (s2, pushes_to Downstream es @ out))"

fun stt_feed :: "stt \<Rightarrow> frame list \<Rightarrow> (stt \<times> frame list) list" where
  "stt_feed s [] = [(s, [])]"
| "stt_feed s (f # fs) =
     concat (map (\<lambda>(s1, es). map (\<lambda>(s2, out). (s2, pushes_to Downstream es @ out)) (stt_feed s1 fs))
       (stt_process s f Downstream))"

record chain =
  ch_stt :: stt
  ch_userIdle :: user_idle
  ch_contextAggregator :: ctx_agg
  ch_talkTime :: talk_time
  ch_llm :: llm

definition chain_feed :: "task_env \<Rightarrow> chain \<Rightarrow> frame list \<Rightarrow> (chain \<times> frame list) list" where
  "chain_feed te c fs =
     map (\<lambda>(stt, f2).
        let (idle, f3) = feed (ui_process (te_now te)) (ch_userIdle c) f2;
            (agg, f4) = feed (ca_process te) (ch_contextAggregator c) f3;
            (talk, f5) = feed tt_process (ch_talkTime c) f4;
            (llm, f6) = feed llm_process (ch_llm c) f5
        in (\<lparr>ch_stt = stt, ch_userIdle = idle, ch_contextAggregator = agg, ch_talkTime = talk, ch_llm = llm\<rparr>, f6))
       (stt_feed (ch_stt c) (snd (feed as_process () fs)))"

context end_forwarder
begin

lemma step_downstream: "filter is_end (pushes_to Downstream (snd (step s f Downstream))) = (if is_end f then [f] else [])"
proof -
  have "filter is_end (pushes_to Downstream (snd (step s f Downstream))) =
      map fst (filter (\<lambda>p. snd p = Downstream) (filter (\<lambda>p. is_end (fst p)) (pushes (snd (step s f Downstream)))))"
    by (simp add: pushes_to_def filter_map o_def conj_commute)
  then show ?thesis unfolding step_ends by simp
qed

lemma feed_ends: "filter is_end (snd (feed step s fs)) = filter is_end fs"
  using step_downstream
  by (induction fs arbitrary: s) (simp_all add: split_beta Let_def)

end

lemma stt_ends: "(s', es) \<in> set (stt_process s f Downstream) \<Longrightarrow>
    filter is_end (pushes_to Downstream es) = (if is_end f then [f] else [])"
  by (cases f) (auto split: if_splits)

lemma stt_feed_ends: "(s', out) \<in> set (stt_feed s fs) \<Longrightarrow> filter is_end out = filter is_end fs"
  by (induction fs arbitrary: s out) (auto simp: stt_ends)

lemmas chain_ends = stt_feed_ends audio_source_chain.feed_ends user_idle_chain.feed_ends ca_chain.feed_ends
  talk_chain.feed_ends llm_chain.feed_ends

text \<open>
  C31: no processor between the source and the speech synthesis swallows, repeats, reorders or makes
  up an end frame. Whatever the state of each, whatever other frames travel with it and whichever
  outcome the speech recognition has, the end frames that come out are those that went in.
\<close>

theorem end_crosses_chain:
  assumes "(c', out) \<in> set (chain_feed te c fs)"
  shows "filter is_end out = filter is_end fs"
  using assms by (auto simp: chain_feed_def split_beta Let_def chain_ends)

definition example_chain :: chain where
  "example_chain = \<lparr>ch_stt = \<lparr>stt_audioFrames = [], stt_connected = True, stt_ctxDone = False, stt_closed = False\<rparr>,
     ch_userIdle = NewUserIdleProcessor, ch_contextAggregator = NewContextAggregator None ''p'',
     ch_talkTime = NewTalkTimeMonitoringProcessor, ch_llm = NewLLMProcessorWithClient\<rparr>"

theorem end_crosses_chain_witness:
  "let r = hd (chain_feed \<lparr>te_now = 1, te_turn = zero_turn\<rparr> example_chain
      [InterruptFrame, AudioFrame [0, 0], EndFrame ''user_idle'', TextFrame ''late''])
   in filter is_end (snd r) = [EndFrame ''user_idle'']"
proof -
  let ?fs = "[InterruptFrame, AudioFrame [0, 0], EndFrame ''user_idle'', TextFrame ''late'']"
  let ?r = "chain_feed \<lparr>te_now = 1, te_turn = zero_turn\<rparr> example_chain ?fs"
  have "?r \<noteq> []" by (simp add: chain_feed_def example_chain_def audioFramesCapacity_def)
  then have "(fst (hd ?r), snd (hd ?r)) \<in> set ?r" by simp
  from end_crosses_chain [OF this] show ?thesis by (simp add: Let_def)
qed

end
