(* ===== verification/Redis.thy ===== *)
theory Redis
  imports GoJson
begin

text \<open>
  The Redis client (\<open>disha/redis_client.go\<close>). The server's keyspace, with the expiry of each key, is
  the state; what the network does to each attempt of a command is the world: an attempt is answered,
  or it fails with or without having been applied by the server. The client retries a command that
  timed out, up to three attempts in all.
\<close>

section \<open>The keyspace and the network\<close>

record redis_server =
  rs_now :: gotime
  rs_keys :: "(string \<times> (string \<times> gotime)) list"
  rs_lists :: "(string \<times> string list) list"

text \<open>The live value of a key.\<close>

definition cached :: "redis_server \<Rightarrow> string \<Rightarrow> string option" where
  "cached s k =
     (case map_of (rs_keys s) k of None \<Rightarrow> None
      | Some (v, expires) \<Rightarrow> if rs_now s < expires then Some v else None)"

definition list_at :: "redis_server \<Rightarrow> string \<Rightarrow> string list" where
  "list_at s k = (case map_of (rs_lists s) k of None \<Rightarrow> [] | Some vs \<Rightarrow> vs)"

text \<open>Time passing.\<close>

definition at_time :: "gotime \<Rightarrow> redis_server \<Rightarrow> redis_server" where
  "at_time t s = s\<lparr>rs_now := t\<rparr>"

datatype redis_error = TimeoutError | OtherError string

text \<open>
  One attempt is a call into go-redis, which sends the command up to \<open>MaxRetries + 1\<close> times itself.
  Sends that the server applied but whose reply was lost are counted: \<open>n\<close> of them, then a reply or an
  error.
\<close>

datatype attempt = Replied nat | Failed nat redis_error

fun lost :: "attempt \<Rightarrow> nat" where
  "lost (Replied n) = n"
| "lost (Failed n err) = n"

fun applications :: "attempt \<Rightarrow> nat" where
  "applications (Replied n) = Suc n"
| "applications (Failed n err) = n"

definition MaxRetries :: nat where "MaxRetries = 3"

text \<open>The fate of each attempt, and the context's error if it ends in the wait after it.\<close>

record network =
  nw_attempt :: "nat \<Rightarrow> attempt"
  nw_cancelled :: "nat \<Rightarrow> redis_error option"

fun isRedisTimeout :: "redis_error \<Rightarrow> bool" where
  "isRedisTimeout TimeoutError = True"
| "isRedisTimeout (OtherError e) = False"

section \<open>Retries\<close>

definition maxAttempts :: nat where "maxAttempts = 3"

definition effect_of :: "('s \<Rightarrow> 's \<times> 'a) \<Rightarrow> 's \<Rightarrow> 's" where
  "effect_of op s = fst (op s)"

lemma effect_of_pair [simp]: "effect_of (\<lambda>s. (f s, g s)) = f"
  by (simp add: effect_of_def fun_eq_iff)

text \<open>The loop from attempt \<open>i\<close>, with \<open>n\<close> attempts left after it.\<close>

fun retry_from :: "('s \<Rightarrow> 's \<times> 'a) \<Rightarrow> network \<Rightarrow> nat \<Rightarrow> nat \<Rightarrow> 's \<Rightarrow> 's \<times> (redis_error + 'a)" where
  "retry_from op w i n s =
     (let s' = (effect_of op ^^ lost (nw_attempt w i)) s
      in case nw_attempt w i of
           Replied _ \<Rightarrow> (effect_of op s', Inr (snd (op s')))
         | Failed _ err \<Rightarrow>
             (if \<not> isRedisTimeout err \<or> n = 0 then (s', Inl err)
              else case nw_cancelled w i of Some e \<Rightarrow> (s', Inl e)
                   | None \<Rightarrow> retry_from op w (i + 1) (n - 1) s'))"

declare retry_from.simps [simp del]

definition withRedisTimeoutRetry :: "('s \<Rightarrow> 's \<times> 'a) \<Rightarrow> network \<Rightarrow> 's \<Rightarrow> 's \<times> (redis_error + 'a)" where
  "withRedisTimeoutRetry op w s = retry_from op w 1 (maxAttempts - 1) s"

section \<open>The commands\<close>

definition conversationDataKey :: "string \<Rightarrow> string" where
  "conversationDataKey conversationID = ''conversation_data:'' @ conversationID"

definition conversationChunksKey :: "string \<Rightarrow> string \<Rightarrow> string" where
  "conversationChunksKey userID conversationID = ''conversation_chunks:'' @ userID @ '':'' @ conversationID"

definition normalizeRedisAddr :: "string \<Rightarrow> string" where
  "normalizeRedisAddr addr0 =
     (let addr = trim_space addr0
      in if addr = [] then ''localhost:6379'' else if contains addr ''://'' then addr
         else if contains addr '':'' then addr else addr @ '':6379'')"

definition GetCache :: "network \<Rightarrow> redis_server \<Rightarrow> string \<Rightarrow> redis_error + string option" where
  "GetCache w s key = snd (withRedisTimeoutRetry (\<lambda>s. (s, cached s key)) w s)"

text \<open>\<open>MGetCache\<close>: one entry for each key, \<open>None\<close> for an absent one.\<close>

definition MGetCache :: "network \<Rightarrow> redis_server \<Rightarrow> string list \<Rightarrow> redis_error + string option list" where
  "MGetCache w s keys =
     (if length keys = 0 then Inr []
      else snd (withRedisTimeoutRetry (\<lambda>s. (s, map (cached s) keys)) w s))"

definition set_key :: "string \<Rightarrow> string \<Rightarrow> duration \<Rightarrow> redis_server \<Rightarrow> redis_server" where
  "set_key key v ttl s =
     s\<lparr>rs_keys := (key, (v, rs_now s + ttl)) # filter (\<lambda>kv. fst kv \<noteq> key) (rs_keys s)\<rparr>"

definition SetCache :: "network \<Rightarrow> redis_server \<Rightarrow> string \<Rightarrow> string \<Rightarrow> duration \<Rightarrow> redis_server \<times> redis_error option" where
  "SetCache w s key payload expiration =
     (let (s', r) = withRedisTimeoutRetry (\<lambda>s. (set_key key payload expiration s, ())) w s
      in (s', case r of Inl e \<Rightarrow> Some e | Inr _ \<Rightarrow> None))"

text \<open>\<open>AcquireLock\<close>: SET NX.\<close>

definition set_nx :: "string \<Rightarrow> duration \<Rightarrow> redis_server \<Rightarrow> redis_server \<times> bool" where
  "set_nx key ttl s = (if cached s key = None then (set_key key ''1'' ttl s, True) else (s, False))"

definition AcquireLock :: "network \<Rightarrow> redis_server \<Rightarrow> string \<Rightarrow> duration \<Rightarrow> redis_server \<times> (redis_error + bool)" where
  "AcquireLock w s key ttl = withRedisTimeoutRetry (set_nx key ttl) w s"

definition rpush :: "string \<Rightarrow> string \<Rightarrow> redis_server \<Rightarrow> redis_server" where
  "rpush key v s =
     s\<lparr>rs_lists := (key, list_at s key @ [v]) # filter (\<lambda>kv. fst kv \<noteq> key) (rs_lists s)\<rparr>"

definition AppendChunk :: "network \<Rightarrow> redis_server \<Rightarrow> string \<Rightarrow> string \<Rightarrow> string \<Rightarrow> redis_server \<times> redis_error option" where
  "AppendChunk w s userID conversationID payload =
     (let (s', r) = withRedisTimeoutRetry (\<lambda>s. (rpush (conversationChunksKey userID conversationID) payload s, ())) w s
      in (s', case r of Inl e \<Rightarrow> Some e | Inr _ \<Rightarrow> None))"

text \<open>\<open>GetConversationData\<close>; \<open>decode\<close> is \<open>json.Unmarshal\<close> into the payload's type.\<close>

datatype 'd conversation_load = Loaded 'd | DataNotFound string | LoadFailed redis_error | Malformed string

definition GetConversationData :: "(string \<Rightarrow> 'd option) \<Rightarrow> network \<Rightarrow> redis_server \<Rightarrow> string \<Rightarrow> 'd conversation_load" where
  "GetConversationData decode w s conversationID =
     (case snd (withRedisTimeoutRetry (\<lambda>s. (s, cached s (conversationDataKey conversationID))) w s) of
        Inl e \<Rightarrow> LoadFailed e
      | Inr None \<Rightarrow> DataNotFound conversationID
      | Inr (Some raw) \<Rightarrow> (case decode raw of None \<Rightarrow> Malformed conversationID | Some d \<Rightarrow> Loaded d))"

section \<open>What a retried command leaves behind\<close>

text \<open>
  The outcome of a command that was applied \<open>k\<close> times: its value, if it has one, is that of the last
  application.
\<close>

definition retried :: "('s \<Rightarrow> 's \<times> 'a) \<Rightarrow> nat \<Rightarrow> 's \<Rightarrow> 's \<times> (redis_error + 'a) \<Rightarrow> bool" where
  "retried op k s r \<longleftrightarrow> fst r = (effect_of op ^^ k) s \<and>
     (case snd r of Inl e \<Rightarrow> True | Inr v \<Rightarrow> 0 < k \<and> v = snd (op ((effect_of op ^^ (k - 1)) s)))"

lemma funpow_shift: "(f ^^ (m + n)) s = (f ^^ m) ((f ^^ n) s)"
  by (simp add: funpow_add)

lemma retried_shift:
  assumes "retried op k ((effect_of op ^^ n) s) r"
  shows "retried op (k + n) s r"
  using assms funpow_shift [of k n "effect_of op" s] funpow_shift [of "k - 1" n "effect_of op" s]
  by (cases k) (auto simp: retried_def simp del: funpow.simps split: sum.splits)

lemma retry_from_replied:
  "nw_attempt w i = Replied m \<Longrightarrow> retried op (Suc m) s (retry_from op w i n s)
     \<and> (\<exists>v. snd (retry_from op w i n s) = Inr v)"
  by (simp add: retry_from.simps [of op w i n] retried_def Let_def)

lemma retry_from_again:
  assumes "nw_attempt w i = Failed m err" "isRedisTimeout err" "nw_cancelled w i = None"
  shows "retry_from op w i (Suc n) s = retry_from op w (i + 1) n ((effect_of op ^^ m) s)"
  using assms by (simp add: retry_from.simps [of op w i "Suc n"] Let_def)

lemma retry_from_stop:
  assumes "nw_attempt w i = Failed m err" "\<not> isRedisTimeout err \<or> nw_cancelled w i \<noteq> None \<or> n = 0"
  shows "retried op m s (retry_from op w i n s) \<and> (\<exists>e. snd (retry_from op w i n s) = Inl e)"
  using assms by (auto simp: retry_from.simps [of op w i n] retried_def Let_def)

text \<open>
  How often: at most the sum of what the attempts sent, and when no reply is lost, once for a success
  and never for a failure.
\<close>

definition counted :: "network \<Rightarrow> nat \<Rightarrow> nat \<Rightarrow> (redis_error + 'a) \<Rightarrow> nat \<Rightarrow> bool" where
  "counted w m n r k \<longleftrightarrow> ((\<forall>i. applications (nw_attempt w i) \<le> m) \<longrightarrow> k \<le> Suc n * m)
     \<and> ((\<forall>i. lost (nw_attempt w i) = 0) \<longrightarrow> k = (case r of Inl e \<Rightarrow> 0 | Inr v \<Rightarrow> 1))"

lemma counted_replied: "nw_attempt w i = Replied j \<Longrightarrow> counted w m n (Inr v) (Suc j)"
  by (auto simp: counted_def dest!: spec [of _ i])

lemma counted_failed: "nw_attempt w i = Failed j err \<Longrightarrow> counted w m n (Inl e) j"
  by (auto simp: counted_def dest!: spec [of _ i])

lemma counted_again:
  assumes "nw_attempt w i = Failed j err" and "counted w m n r k"
  shows "counted w m (Suc n) r (k + j)"
  using assms by (auto simp: counted_def dest: spec [of _ i])

lemma retry_from_counted:
  "\<exists>k. retried op k s (retry_from op w i n s) \<and> counted w m n (snd (retry_from op w i n s)) k"
proof (induction n arbitrary: i s)
  case 0
  show ?case
  proof (cases "nw_attempt w i")
    case (Replied j)
    with retry_from_replied [OF this, of op s 0] counted_replied [OF this] show ?thesis by metis
  next
    case (Failed j err)
    with retry_from_stop [OF this, of 0 op s] counted_failed [OF this] show ?thesis by metis
  qed
next
  case (Suc n)
  show ?case
  proof (cases "nw_attempt w i")
    case (Replied j)
    with retry_from_replied [OF this, of op s "Suc n"] counted_replied [OF this] show ?thesis by metis
  next
    case (Failed j err)
    show ?thesis
    proof (cases "isRedisTimeout err \<and> nw_cancelled w i = None")
      case True
      then have again: "retry_from op w i (Suc n) s = retry_from op w (i + 1) n ((effect_of op ^^ j) s)"
        by (intro retry_from_again [OF Failed]) simp_all
      show ?thesis unfolding again
        using Suc.IH [of "(effect_of op ^^ j) s" "i + 1"] retried_shift [of op _ j s] counted_again [OF Failed]
        by blast
    next
      case False
      then have "\<not> isRedisTimeout err \<or> nw_cancelled w i \<noteq> None \<or> Suc n = 0" by simp
      with retry_from_stop [OF Failed this, of op s] counted_failed [OF Failed] show ?thesis by metis
    qed
  qed
qed

lemma with_retry_counted:
  obtains k where "retried op k s (withRedisTimeoutRetry op w s)"
    and "counted w m 2 (snd (withRedisTimeoutRetry op w s)) k"
  using retry_from_counted [of op s w 1 "maxAttempts - 1" m]
  by (auto simp: withRedisTimeoutRetry_def maxAttempts_def)

lemma cached_set_key:
  "cached (set_key k v ttl s) k' = (if k' = k then (if 0 < ttl then Some v else None) else cached s k')"
  by (cases s) (simp add: cached_def set_key_def map_of_filter_other split: option.split)

lemma set_key_now [simp]: "rs_now (set_key k v ttl s) = rs_now s"
  by (simp add: set_key_def)

lemma set_key_power:
  "cached ((set_key k v ttl ^^ n) s) k' = (if n = 0 then cached s k' else cached (set_key k v ttl s) k')"
  by (induction n) (auto simp: cached_set_key)

lemma SetCache_cached:
  assumes "SetCache w s k v ttl = (s', r)"
  shows "r = None \<Longrightarrow> 0 < ttl \<Longrightarrow> cached s' k = Some v" and "k' \<noteq> k \<Longrightarrow> cached s' k' = cached s k'"
proof -
  obtain n where n: "retried (\<lambda>s. (set_key k v ttl s, ())) n s (withRedisTimeoutRetry (\<lambda>s. (set_key k v ttl s, ())) w s)"
    by (rule with_retry_counted)
  then have s': "s' = (set_key k v ttl ^^ n) s" and "r = None \<Longrightarrow> n \<noteq> 0"
    using assms by (auto simp: SetCache_def retried_def split_beta Let_def split: sum.splits)
  then show "r = None \<Longrightarrow> 0 < ttl \<Longrightarrow> cached s' k = Some v" and "k' \<noteq> k \<Longrightarrow> cached s' k' = cached s k'"
    by (simp_all add: set_key_power cached_set_key)
qed

lemma read_only_retry:
  assumes "snd (withRedisTimeoutRetry (\<lambda>s. (s, f s)) w s) = Inr v"
  shows "v = f s"
proof -
  obtain k where "retried (\<lambda>s. (s, f s)) k s (withRedisTimeoutRetry (\<lambda>s. (s, f s)) w s)"
    by (rule with_retry_counted)
  moreover have "((\<lambda>s. s) ^^ j) s = s" for j by (induction j) simp_all
  ultimately show ?thesis using assms by (simp add: retried_def)
qed

section \<open>The store the LLM router relies on\<close>

text \<open>
  \<open>RedisStore\<close> (\<open>llmrouter/health.go\<close>): the router reads many keys at once, reads one and writes one.
  What it relies on: a read that succeeds gives the live values, and a write that succeeds is seen by
  later reads and touches no other key.
\<close>

locale redis_store =
  fixes lookup :: "'s \<Rightarrow> string \<Rightarrow> string option"
    and get :: "'w \<Rightarrow> 's \<Rightarrow> string \<Rightarrow> 'e + string option"
    and mget :: "'w \<Rightarrow> 's \<Rightarrow> string list \<Rightarrow> 'e + string option list"
    and put :: "'w \<Rightarrow> 's \<Rightarrow> string \<Rightarrow> string \<Rightarrow> duration \<Rightarrow> 's \<times> 'e option"
  assumes get_ok: "get w s k = Inr r \<Longrightarrow> r = lookup s k"
    and mget_ok: "mget w s ks = Inr vs \<Longrightarrow> vs = map (lookup s) ks"
    and put_ok: "put w s k v ttl = (s', None) \<Longrightarrow> 0 < ttl \<Longrightarrow> lookup s' k = Some v"
    and put_frame: "k' \<noteq> k \<Longrightarrow> lookup (fst (put w s k v ttl)) k' = lookup s k'"
begin

lemma read_after_write:
  assumes "put w s k v ttl = (s', None)" and "0 < ttl" and "mget w' s' ks = Inr vs"
  shows "vs = map (\<lambda>k'. if k' = k then Some v else lookup s k') ks"
  using mget_ok [OF assms(3)] put_ok [OF assms(1,2)] put_frame [of _ k w s v ttl] assms(1) by simp

lemma write_commutes:
  assumes "put w s k v ttl = (s', None)" and "put w' s' k2 v2 ttl2 = (s'', None)" and "k \<noteq> k2" "0 < ttl" "0 < ttl2"
  shows "lookup s'' k = Some v \<and> lookup s'' k2 = Some v2"
  using put_ok [OF assms(1,4)] put_ok [OF assms(2,5)] put_frame [OF assms(3), of w' s' v2 ttl2] assms(2) by simp

end

interpretation rdb: redis_store cached GetCache MGetCache SetCache
proof unfold_locales
  show "GetCache w s k = Inr v \<Longrightarrow> v = cached s k" for w s k v
    unfolding GetCache_def by (rule read_only_retry)
  show "MGetCache w s ks = Inr vs \<Longrightarrow> vs = map (cached s) ks" for w s ks vs
    using read_only_retry [of "\<lambda>s. map (cached s) ks" w s vs]
    by (simp add: MGetCache_def split: if_splits)
  show "SetCache w s k v ttl = (s', None) \<Longrightarrow> 0 < ttl \<Longrightarrow> cached s' k = Some v" for w s k v ttl s'
    using SetCache_cached(1) by blast
  show "k' \<noteq> k \<Longrightarrow> cached (fst (SetCache w s k v ttl)) k' = cached s k'" for k' k w s v ttl
    using SetCache_cached(2) [of w s k v ttl "fst (SetCache w s k v ttl)" "snd (SetCache w s k v ttl)" k'] by simp
qed

section \<open>Appending and locking\<close>

lemma list_at_rpush: "list_at (rpush k v s) k' = (if k' = k then list_at s k @ [v] else list_at s k')"
  by (simp add: rpush_def list_at_def)

lemma rpush_power:
  "list_at ((rpush k v ^^ n) s) k' = (if k' = k then list_at s k @ replicate n v else list_at s k')"
  by (induction n) (auto simp: list_at_rpush replicate_append_same)

lemma AppendChunk_applied:
  assumes "AppendChunk w s userID conversationID payload = (s', r)"
  obtains k where "s' = (rpush (conversationChunksKey userID conversationID) payload ^^ k) s"
    and "r = None \<Longrightarrow> 0 < k"
    and "(\<forall>i. applications (nw_attempt w i) \<le> m) \<Longrightarrow> k \<le> 3 * m"
    and "(\<forall>i. lost (nw_attempt w i) = 0) \<Longrightarrow> k = (if r = None then 1 else 0)"
proof -
  let ?op = "\<lambda>s. (rpush (conversationChunksKey userID conversationID) payload s, ())"
  obtain k where k: "retried ?op k s (withRedisTimeoutRetry ?op w s)"
      "counted w m 2 (snd (withRedisTimeoutRetry ?op w s)) k"
    by (rule with_retry_counted)
  have s': "s' = fst (withRedisTimeoutRetry ?op w s)"
    and r: "r = (case snd (withRedisTimeoutRetry ?op w s) of Inl e \<Rightarrow> Some e | Inr _ \<Rightarrow> None)"
    using assms by (simp_all add: AppendChunk_def split_beta Let_def)
  show thesis
  proof (cases "snd (withRedisTimeoutRetry ?op w s)")
    case (Inl e)
    then show thesis using that [of k] k s' r by (simp add: retried_def counted_def)
  next
    case (Inr u)
    then show thesis using that [of k] k s' r by (simp add: retried_def counted_def)
  qed
qed

text \<open>
  Appending a chunk is at-least-once, not exactly-once. After \<open>AppendChunk\<close> the conversation's
  list holds its old chunks followed by copies of the new one, at least one when it reports success,
  and at most twelve (three attempts of four sends); only if no reply was lost is it exactly one on
  success and none on failure. No other list changes.
\<close>

theorem chunk_appended:
  assumes "AppendChunk w s userID conversationID payload = (s', r)"
    and "\<forall>i. applications (nw_attempt w i) \<le> MaxRetries + 1"
  defines "key \<equiv> conversationChunksKey userID conversationID"
  shows "(\<exists>k \<le> 12. list_at s' key = list_at s key @ replicate k payload \<and> (r = None \<longrightarrow> 0 < k)
       \<and> ((\<forall>i. lost (nw_attempt w i) = 0) \<longrightarrow> k = (if r = None then 1 else 0)))
    \<and> (\<forall>k'. k' \<noteq> key \<longrightarrow> list_at s' k' = list_at s k')"
proof -
  obtain k where k: "s' = (rpush key payload ^^ k) s" "r = None \<Longrightarrow> 0 < k" "k \<le> 3 * (MaxRetries + 1)"
    "(\<forall>i. lost (nw_attempt w i) = 0) \<Longrightarrow> k = (if r = None then 1 else 0)"
    using AppendChunk_applied [OF assms(1), of "MaxRetries + 1"] assms(2) unfolding key_def by metis
  then have "k \<le> 12 \<and> list_at s' key = list_at s key @ replicate k payload \<and> (r = None \<longrightarrow> 0 < k)
       \<and> ((\<forall>i. lost (nw_attempt w i) = 0) \<longrightarrow> k = (if r = None then 1 else 0))"
    by (auto simp: rpush_power MaxRetries_def)
  then show ?thesis using k(1) by (auto simp: rpush_power)
qed

text \<open>A reply lost after the server applied the command: the retry appends the chunk a second time.\<close>

definition flaky :: network where
  "flaky = \<lparr>nw_attempt = (\<lambda>i. if i = 1 then Failed 1 TimeoutError else Replied 0), nw_cancelled = (\<lambda>i. None)\<rparr>"

definition empty_server :: redis_server where
  "empty_server = \<lparr>rs_now = 0, rs_keys = [], rs_lists = []\<rparr>"

lemma flaky_append:
  "AppendChunk flaky empty_server ''u'' ''c'' ''x''
     = (\<lparr>rs_now = 0, rs_keys = [], rs_lists = [(''conversation_chunks:u:c'', [''x'', ''x''])]\<rparr>, None)"
  by code_simp

theorem chunk_appended_witness:
  "list_at (fst (AppendChunk flaky empty_server ''u'' ''c'' ''x'')) ''other'' = []
   \<and> (\<exists>k \<le> 12. [''x'', ''x''] = replicate k ''x'' \<and> k \<noteq> 0)"
proof -
  have sends: "\<forall>i. applications (nw_attempt flaky i) \<le> MaxRetries + 1"
    by (simp add: flaky_def MaxRetries_def)
  show ?thesis unfolding flaky_append fst_conv using chunk_appended [OF flaky_append sends]
    by (auto simp: list_at_def empty_server_def conversationChunksKey_def)
qed

subsection \<open>The lock\<close>

lemma set_nx_power:
  assumes "0 < ttl"
  shows "0 < n \<Longrightarrow> cached ((effect_of (set_nx k ttl) ^^ n) s) k \<noteq> None"
    and "rs_now ((effect_of (set_nx k ttl) ^^ n) s) = rs_now s"
    and "cached s k \<noteq> None \<Longrightarrow> (effect_of (set_nx k ttl) ^^ n) s = s"
  using assms
  by (induction n) (auto simp: effect_of_def set_nx_def cached_set_key)

text \<open>
  The lock is exclusive while it lives: whoever acquires it leaves it held until its time to live has
  passed, and while it is held nobody is told to have acquired it, whatever happens to the replies.
\<close>

lemma lock_held:
  assumes "cached s key \<noteq> None" and "0 < ttl"
  shows "AcquireLock w s key ttl = (s, snd (AcquireLock w s key ttl)) \<and> snd (AcquireLock w s key ttl) \<noteq> Inr True"
proof -
  obtain j where "retried (set_nx key ttl) j s (AcquireLock w s key ttl)"
    unfolding AcquireLock_def by (rule with_retry_counted)
  then show ?thesis using set_nx_power(3) [OF assms(2,1)] assms(1)
    by (auto simp: retried_def set_nx_def prod_eq_iff split: sum.splits)
qed

lemma lock_taken:
  assumes "AcquireLock w s key ttl = (s', Inr True)" and "0 < ttl"
  shows "cached s key = None \<and> s' = set_key key ''1'' ttl s"
proof -
  obtain k where k: "retried (set_nx key ttl) k s (AcquireLock w s key ttl)"
    unfolding AcquireLock_def by (rule with_retry_counted)
  then have pos: "0 < k" and s': "s' = (effect_of (set_nx key ttl) ^^ k) s"
    and got: "snd (set_nx key ttl ((effect_of (set_nx key ttl) ^^ (k - 1)) s))"
    using assms(1) by (auto simp: retried_def)
  have "k = 1"
  proof (rule ccontr)
    assume "k \<noteq> 1"
    with pos have "cached ((effect_of (set_nx key ttl) ^^ (k - 1)) s) key \<noteq> None"
      by (intro set_nx_power(1)) (use assms(2) in auto)
    with got show False by (simp add: set_nx_def split: if_splits)
  qed
  with got s' show ?thesis by (auto simp: set_nx_def effect_of_def split: if_splits)
qed

lemma lock_lives: "t < rs_now s + ttl \<Longrightarrow> cached (at_time t (set_key key v ttl s)) key = Some v"
  by (simp add: cached_def at_time_def set_key_def)

end
