(* ===== verification/LlmGroups.thy ===== *)
theory LlmGroups
  imports GoJson GoFloat
begin

text \<open>
  The registry of LLM endpoints and model groups (\<open>llmrouter/groups.go\<close>), with the filter by region.
\<close>

section \<open>Endpoints\<close>

datatype provider = OpenAI | Azure | Grok | Vertex | OpenRouter | GoogleAIStudio | Cerebras

record endpoint_config =
  ec_Key :: string
  ec_Provider :: provider
  ec_Model :: string
  ec_Region :: string
  ec_APIKeyEnv :: string
  ec_EndpointEnv :: string
  ec_BaseURL :: string
  ec_VertexProject :: string
  ec_VertexLocation :: string
  ec_VertexCredsEnv :: string
  ec_Temperature :: "rat option"
  ec_MaxTokens :: "int option"
  ec_ExtraBody :: "(string \<times> json) list"

text \<open>An endpoint with the fields every entry sets; the others have their zero value.\<close>

definition endpoint :: "string \<Rightarrow> provider \<Rightarrow> string \<Rightarrow> string \<Rightarrow> endpoint_config" where
  "endpoint key prov model region =
     \<lparr>ec_Key = key, ec_Provider = prov, ec_Model = model, ec_Region = region, ec_APIKeyEnv = [],
      ec_EndpointEnv = [], ec_BaseURL = [], ec_VertexProject = [], ec_VertexLocation = [],
      ec_VertexCredsEnv = [], ec_Temperature = None, ec_MaxTokens = None, ec_ExtraBody = []\<rparr>"

definition gemma_routing :: "(string \<times> json) list" where
  "gemma_routing =
     [(''provider'', JObj
        [(''order'', JArr [JStr ''deepinfra/fp8'', JStr ''cloudflare'', JStr ''parasail/bf16'']),
         (''only'', JArr [JStr ''deepinfra/fp8'', JStr ''cloudflare'', JStr ''parasail/bf16'']),
         (''ignore'', JArr [JStr ''google-ai-studio'', JStr ''google-vertex'', JStr ''novita'']),
         (''allow_fallbacks'', JBool True)])]"

definition endpoint_list :: "endpoint_config list" where
  "endpoint_list =
     [(endpoint ''grok_4_1_fnr_eastus'' Grok ''grok-4-1-fast-non-reasoning'' ''us'')
         \<lparr>ec_APIKeyEnv := ''GROK_4_1_FNR_EASTUS_API_KEY'',
          ec_EndpointEnv := ''GROK_4_1_FNR_EASTUS_ENDPOINT''\<rparr>,
      (endpoint ''grok_4_1_fnr_eastus2'' Grok ''grok-4-1-fast-non-reasoning'' ''us'')
         \<lparr>ec_APIKeyEnv := ''GROK_4_1_FNR_EASTUS2_API_KEY'',
          ec_EndpointEnv := ''GROK_4_1_FNR_EASTUS2_ENDPOINT''\<rparr>,
      (endpoint ''grok_4_1_fnr_westus'' Grok ''grok-4-1-fast-non-reasoning'' ''us'')
         \<lparr>ec_APIKeyEnv := ''GROK_4_1_FNR_WESTUS_API_KEY'',
          ec_EndpointEnv := ''GROK_4_1_FNR_WESTUS_ENDPOINT''\<rparr>,
      (endpoint ''grok_4_1_fnr_westus2'' Grok ''grok-4-1-fast-non-reasoning'' ''us'')
         \<lparr>ec_APIKeyEnv := ''GROK_4_1_FNR_WESTUS2_API_KEY'',
          ec_EndpointEnv := ''GROK_4_1_FNR_WESTUS2_ENDPOINT''\<rparr>,
      (endpoint ''grok_4_1_fnr_westcentralus'' Grok ''grok-4-1-fast-non-reasoning'' ''us'')
         \<lparr>ec_APIKeyEnv := ''GROK_4_1_FNR_WESTCENTRALUS_API_KEY'',
          ec_EndpointEnv := ''GROK_4_1_FNR_WESTCENTRALUS_ENDPOINT''\<rparr>,
      (endpoint ''vertex_dishaai_grok_4_1_fast_non_reasoning'' Vertex ''xai/grok-4.1-fast-non-reasoning'' ''us'')
         \<lparr>ec_VertexProject := ''gen-lang-client-0439239631'', ec_VertexLocation := ''global''\<rparr>,
      (endpoint ''azure_gpt_4_1_us_east'' Azure ''gpt-4.1'' ''us'')
         \<lparr>ec_APIKeyEnv := ''AZURE_OPENAI_US_EAST_API_KEY'',
          ec_EndpointEnv := ''AZURE_OPENAI_US_EAST_ENDPOINT''\<rparr>,
      (endpoint ''azure_gpt_4_1_us_east_2'' Azure ''gpt-4.1'' ''us'')
         \<lparr>ec_APIKeyEnv := ''AZURE_OPENAI_US_EAST_2_API_KEY'',
          ec_EndpointEnv := ''AZURE_OPENAI_US_EAST_2_ENDPOINT''\<rparr>,
      (endpoint ''azure_gpt_4_1_us_north_central'' Azure ''gpt-4.1'' ''us'')
         \<lparr>ec_APIKeyEnv := ''AZURE_OPENAI_US_NORTH_CENTRAL_API_KEY'',
          ec_EndpointEnv := ''AZURE_OPENAI_US_NORTH_CENTRAL_ENDPOINT''\<rparr>,
      (endpoint ''azure_gpt_4_1_us_south_central'' Azure ''gpt-4.1'' ''us'')
         \<lparr>ec_APIKeyEnv := ''AZURE_OPENAI_US_SOUTH_CENTRAL_API_KEY'',
          ec_EndpointEnv := ''AZURE_OPENAI_US_SOUTH_CENTRAL_ENDPOINT''\<rparr>,
      (endpoint ''azure_gpt_4_1_us_west'' Azure ''gpt-4.1'' ''us'')
         \<lparr>ec_APIKeyEnv := ''AZURE_OPENAI_US_WEST_API_KEY'',
          ec_EndpointEnv := ''AZURE_OPENAI_US_WEST_ENDPOINT''\<rparr>,
      (endpoint ''azure_gpt_4_1_us_west_3'' Azure ''gpt-4.1'' ''us'')
         \<lparr>ec_APIKeyEnv := ''AZURE_OPENAI_US_WEST_3_API_KEY'',
          ec_EndpointEnv := ''AZURE_OPENAI_US_WEST_3_ENDPOINT''\<rparr>,
      (endpoint ''azure_gpt_4_1_south_india'' Azure ''gpt-4.1'' ''south_india'')
         \<lparr>ec_APIKeyEnv := ''AZURE_OPENAI_SOUTH_INDIA_API_KEY'',
          ec_EndpointEnv := ''AZURE_OPENAI_SOUTH_INDIA_ENDPOINT''\<rparr>,
      (endpoint ''openai_gpt_4_1'' OpenAI ''gpt-4.1'' ''us'')
         \<lparr>ec_APIKeyEnv := ''OPENAI_API_KEY''\<rparr>,
      (endpoint ''openai_gpt_4_1_priority'' OpenAI ''gpt-4.1'' ''us'')
         \<lparr>ec_APIKeyEnv := ''OPENAI_PRIORITY_API_KEY''\<rparr>,
      (endpoint ''vertex_gemini_flash_3_1_lite'' Vertex ''google/gemini-3.1-flash-lite'' ''us'')
         \<lparr>ec_VertexProject := ''disha-ai2'', ec_VertexLocation := ''global'',
          ec_VertexCredsEnv := ''VERTEX_DISHA_AI2_CREDS_FILE'', ec_Temperature := Some (1 / 2)\<rparr>,
      (endpoint ''google_ai_studio_gemini_flash_3_1_lite'' GoogleAIStudio ''gemini-3.1-flash-lite'' ''us'')
         \<lparr>ec_APIKeyEnv := ''GEMINI_API_KEY_DISHAAI2'',
          ec_BaseURL := ''https://generativelanguage.googleapis.com/v1beta/openai/'', ec_Temperature := Some (1 / 2)\<rparr>,
      (endpoint ''openrouter_gemini_flash_3_1_lite'' OpenRouter ''google/gemini-3.1-flash-lite'' ''us'')
         \<lparr>ec_APIKeyEnv := ''OPENROUTER_API_KEY'',
          ec_BaseURL := ''https://openrouter.ai/api/v1'', ec_Temperature := Some (1 / 2)\<rparr>,
      (endpoint ''openrouter_gemma_4_26b_a4b_it_nitro'' OpenRouter ''google/gemma-4-26b-a4b-it:nitro'' ''us'')
         \<lparr>ec_APIKeyEnv := ''OPENROUTER_API_KEY'',
          ec_BaseURL := ''https://openrouter.ai/api/v1'', ec_Temperature := Some (1 / 2), ec_ExtraBody := gemma_routing\<rparr>,
      (endpoint ''cerebras_gpt_oss_120b'' Cerebras ''gpt-oss-120b'' ''us'')
         \<lparr>ec_APIKeyEnv := ''CEREBRAS_ENTERPRISE_API_KEY'',
          ec_BaseURL := ''https://api.cerebras.ai/v1'', ec_MaxTokens := Some 500\<rparr>,
      (endpoint ''openrouter_gpt_oss_120b'' OpenRouter ''openai/gpt-oss-120b'' ''us'')
         \<lparr>ec_APIKeyEnv := ''OPENROUTER_API_KEY'',
          ec_BaseURL := ''https://openrouter.ai/api/v1'', ec_MaxTokens := Some 500\<rparr>]"

definition endpointConfigs :: "(string \<times> endpoint_config) list" where
  "endpointConfigs = map (\<lambda>c. (ec_Key c, c)) endpoint_list"

section \<open>Groups\<close>

record model_group =
  mg_Configs :: "string list"
  mg_Fallback :: string
  mg_FallbackGroup :: string

definition modelGroups :: "(string \<times> model_group) list" where
  "modelGroups =
     [(''grok-4.1-fast-sales'',
       \<lparr>mg_Configs = [''grok_4_1_fnr_eastus'', ''grok_4_1_fnr_eastus2'', ''grok_4_1_fnr_westus'',
          ''grok_4_1_fnr_westus2'', ''grok_4_1_fnr_westcentralus'', ''vertex_dishaai_grok_4_1_fast_non_reasoning''],
        mg_Fallback = ''vertex_dishaai_grok_4_1_fast_non_reasoning'', mg_FallbackGroup = ''gpt-4.1''\<rparr>),
      (''gpt-4.1'',
       \<lparr>mg_Configs = [''azure_gpt_4_1_us_east'', ''azure_gpt_4_1_us_east_2'', ''azure_gpt_4_1_us_north_central'',
          ''azure_gpt_4_1_us_south_central'', ''azure_gpt_4_1_us_west'', ''azure_gpt_4_1_us_west_3'',
          ''azure_gpt_4_1_south_india'', ''openai_gpt_4_1'', ''openai_gpt_4_1_priority''],
        mg_Fallback = ''openai_gpt_4_1_priority'', mg_FallbackGroup = []\<rparr>),
      (''gemini-flash-3.1-lite'',
       \<lparr>mg_Configs = [''vertex_gemini_flash_3_1_lite'', ''google_ai_studio_gemini_flash_3_1_lite'',
          ''openrouter_gemini_flash_3_1_lite''],
        mg_Fallback = ''openrouter_gemini_flash_3_1_lite'', mg_FallbackGroup = ''gpt-4.1''\<rparr>),
      (''followup-dynamic-gemma'',
       \<lparr>mg_Configs = [''openrouter_gemma_4_26b_a4b_it_nitro''],
        mg_Fallback = ''openrouter_gemma_4_26b_a4b_it_nitro'', mg_FallbackGroup = []\<rparr>),
      (''gpt-oss120-fast'',
       \<lparr>mg_Configs = [''cerebras_gpt_oss_120b'', ''openrouter_gpt_oss_120b''],
        mg_Fallback = ''openrouter_gpt_oss_120b'', mg_FallbackGroup = []\<rparr>)]"

text \<open>A key of the group that has no config is skipped; the empty region matches every config.\<close>

definition region_match :: "string \<Rightarrow> endpoint_config \<Rightarrow> bool" where
  "region_match region cfg = (region = [] \<or> ec_Region cfg = region)"

definition groupConfigsForRegion :: "string \<Rightarrow> string \<Rightarrow> endpoint_config list option" where
  "groupConfigsForRegion grp region =
     (case map_of modelGroups grp of
        None \<Rightarrow> None
      | Some g \<Rightarrow> Some (filter (region_match region)
          (List.map_filter (map_of endpointConfigs) (mg_Configs g))))"

section \<open>The registry is well formed\<close>

text \<open>
  Checked entry by entry: keys are distinct, every key a group names has a config, every group has a
  last resort that is one of its own configs and serves the default region, and a fallback group is
  a group.
\<close>

definition well_formed_group :: "model_group \<Rightarrow> bool" where
  "well_formed_group g =
     (distinct (mg_Configs g) \<and> list_all (\<lambda>k. map_of endpointConfigs k \<noteq> None) (mg_Configs g)
      \<and> mg_Fallback g \<in> set (mg_Configs g)
      \<and> (case map_of endpointConfigs (mg_Fallback g) of None \<Rightarrow> False | Some c \<Rightarrow> ec_Region c = ''us'')
      \<and> (mg_FallbackGroup g = [] \<or> map_of modelGroups (mg_FallbackGroup g) \<noteq> None))"

lemma registry_check: "distinct (map fst endpointConfigs) \<and> list_all (\<lambda>kg. well_formed_group (snd kg)) modelGroups"
  by code_simp

lemma endpoint_key: "map_of endpointConfigs k = Some c \<Longrightarrow> ec_Key c = k"
  by (auto simp: endpointConfigs_def dest!: map_of_SomeD)

lemma group_well_formed: "map_of modelGroups g = Some mg \<Longrightarrow> well_formed_group mg"
  using registry_check map_of_SomeD [of modelGroups g mg] by (fastforce simp: list_all_iff)

lemma region_configs:
  assumes "groupConfigsForRegion grp region = Some cs" and "c \<in> set cs"
  shows "map_of endpointConfigs (ec_Key c) = Some c \<and> region_match region c
    \<and> (\<exists>mg. map_of modelGroups grp = Some mg \<and> ec_Key c \<in> set (mg_Configs mg))"
  using assms endpoint_key
  by (auto simp: groupConfigsForRegion_def List.map_filter_def split: option.splits)

lemma map_filter_distinct:
  "distinct ks \<Longrightarrow> (\<And>k c. f k = Some c \<Longrightarrow> g c = k) \<Longrightarrow> distinct (map g (List.map_filter f ks))"
  by (induction ks) (auto simp: List.map_filter_def split: option.splits)

lemma region_keys_distinct:
  assumes "groupConfigsForRegion grp region = Some cs"
  shows "distinct (map ec_Key cs)"
proof -
  obtain mg where mg: "map_of modelGroups grp = Some mg"
    and cs: "cs = filter (region_match region) (List.map_filter (map_of endpointConfigs) (mg_Configs mg))"
    using assms by (auto simp: groupConfigsForRegion_def split: option.splits)
  have "distinct (map ec_Key (List.map_filter (map_of endpointConfigs) (mg_Configs mg)))"
    using group_well_formed [OF mg] endpoint_key by (intro map_filter_distinct) (auto simp: well_formed_group_def)
  then show ?thesis by (simp add: cs distinct_map_filter)
qed

text \<open>A group's last resort is among its configs of the default region.\<close>

lemma fallback_config:
  assumes "map_of modelGroups grp = Some mg" and "region_match region c" 
    and "map_of endpointConfigs (mg_Fallback mg) = Some c"
  shows "\<exists>cs. groupConfigsForRegion grp region = Some cs \<and> c \<in> set cs"
  using assms group_well_formed [OF assms(1)]
  by (auto simp: groupConfigsForRegion_def List.map_filter_def well_formed_group_def intro!: image_eqI [of _ _ "mg_Fallback mg"])

end
