(* ===== verification/Health.thy ===== *)
theory Health
  imports LlmGroups Redis
begin

text \<open>
  Endpoint health and selection (\<open>llmrouter/health.go\<close>, \<open>llmrouter/selection.go\<close>). The health of an
  endpoint is a JSON value in Redis, written by the poller and by this router. \<open>encode\<close> and \<open>decode\<close>
  are \<open>json.Marshal\<close> and \<open>json.Unmarshal\<close> at the type of the health.
\<close>

section \<open>Health\<close>

definition healthKeyPrefix :: string where "healthKeyPrefix = ''live_call_modal_health''"
definition selectionAverageWindow :: nat where "selectionAverageWindow = 5"
definition healthTTL :: duration where "healthTTL = 24 * 3600 * second"
definition blacklistReasonError :: string where "blacklistReasonError = ''error''"

definition healthKey :: "string \<Rightarrow> string" where
  "healthKey configKey = healthKeyPrefix @ '':'' @ configKey"

record poll_run =
  pr_At :: string
  pr_Success :: bool
  pr_LatencyMs :: "rat option"
  pr_AdjustedLatencyMs :: "rat option"
  pr_ErrorType :: "string option"
  pr_StatusCode :: "int option"
  pr_ExceptionText :: "string option"

record live_call_error =
  le_At :: string
  le_ErrorType :: string
  le_StatusCode :: "int option"
  le_ExceptionText :: string

record endpoint_health =
  eh_PollRuns :: "poll_run list"
  eh_Blacklisted :: bool
  eh_BlacklistReason :: "string option"
  eh_BlacklistedAt :: "string option"
  eh_UpdatedAt :: "string option"
  eh_LastLiveCallError :: "live_call_error option"

definition zero_health :: endpoint_health where
  "zero_health = \<lparr>eh_PollRuns = [], eh_Blacklisted = False, eh_BlacklistReason = None,
     eh_BlacklistedAt = None, eh_UpdatedAt = None, eh_LastLiveCallError = None\<rparr>"

text \<open>The mean of the last five adjusted latencies, summed and divided in \<open>float64\<close>.\<close>

definition selectionLatency :: "endpoint_health \<Rightarrow> rat option" where
  "selectionLatency h =
     (let values = List.map_filter pr_AdjustedLatencyMs (eh_PollRuns h)
      in if length values = 0 then None
         else let recent = (if length values > selectionAverageWindow
                            then drop (length values - selectionAverageWindow) values else values)
              in Some (fdiv (foldl fadd 0 recent) (float_of_int (int (length recent)))))"

definition parseHealth :: "(string \<Rightarrow> endpoint_health option) \<Rightarrow> string option \<Rightarrow> endpoint_health" where
  "parseHealth decode raw =
     (case raw of None \<Rightarrow> zero_health
      | Some r \<Rightarrow> if length r = 0 then zero_health
                   else (case decode r of None \<Rightarrow> zero_health | Some h \<Rightarrow> h))"

definition truncate_bytes :: "string \<Rightarrow> nat \<Rightarrow> string" where
  "truncate_bytes s n = (if length s \<le> n then s else take n s)"

text \<open>What a live error records; \<open>now\<close> is \<open>utcNowISO\<close> at the call.\<close>

definition record_live_error :: "string \<Rightarrow> string \<Rightarrow> int \<Rightarrow> string \<Rightarrow> endpoint_health \<Rightarrow> endpoint_health" where
  "record_live_error now errType statusCode msg h =
     h\<lparr>eh_LastLiveCallError := Some \<lparr>le_At = now, le_ErrorType = errType,
         le_StatusCode = (if statusCode \<noteq> 0 then Some statusCode else None),
         le_ExceptionText = truncate_bytes msg 1000\<rparr>,
       eh_Blacklisted := True, eh_BlacklistReason := Some blacklistReasonError,
       eh_BlacklistedAt := Some now, eh_UpdatedAt := Some now\<rparr>"

text \<open>
  The read-modify-write is two commands; \<open>meanwhile\<close> is what other clients do to the server between
  them.
\<close>

definition blacklistForLiveError ::
  "(endpoint_health \<Rightarrow> string) \<Rightarrow> (string \<Rightarrow> endpoint_health option) \<Rightarrow> network \<Rightarrow> network
   \<Rightarrow> (redis_server \<Rightarrow> redis_server) \<Rightarrow> redis_server \<Rightarrow> string \<Rightarrow> string \<Rightarrow> string \<Rightarrow> int \<Rightarrow> string
   \<Rightarrow> redis_server \<times> redis_error option" where
  "blacklistForLiveError encode decode wget wset meanwhile s now configKey errType statusCode msg =
     (let key = healthKey configKey
      in case GetCache wget s key of
           Inl e \<Rightarrow> (meanwhile s, Some e)
         | Inr raw \<Rightarrow>
             SetCache wset (meanwhile s) key
               (encode (record_live_error now errType statusCode msg (parseHealth decode raw))) healthTTL)"

section \<open>Selection\<close>

definition candidates ::
  "(string \<Rightarrow> endpoint_health option) \<Rightarrow> (endpoint_config \<times> string option) list \<Rightarrow> (string \<times> rat) list" where
  "candidates decode rows =
     List.map_filter (\<lambda>(cfg, raw).
       let health = parseHealth decode raw
       in if eh_Blacklisted health then None
          else map_option (Pair (ec_Key cfg)) (selectionLatency health)) rows"

definition fastestAvailable ::
  "(string \<Rightarrow> endpoint_health option) \<Rightarrow> network \<Rightarrow> redis_server \<Rightarrow> endpoint_config list \<Rightarrow> string option" where
  "fastestAvailable decode w s configs =
     (case MGetCache w s (map (\<lambda>cfg. healthKey (ec_Key cfg)) configs) of
        Inl _ \<Rightarrow> None
      | Inr raws \<Rightarrow>
          if length raws \<noteq> length configs then None
          else let cs = candidates decode (zip configs raws)
               in if length cs = 0 then None else Some (fst (hd (sort_key snd cs))))"

record selection =
  sel_ConfigKey :: string
  sel_UsingFallback :: bool
  sel_SelectedGroup :: string

definition getFastestForGroup ::
  "(string \<Rightarrow> endpoint_health option) \<Rightarrow> network \<Rightarrow> network \<Rightarrow> redis_server \<Rightarrow> string \<Rightarrow> string \<Rightarrow> selection option" where
  "getFastestForGroup decode w1 w2 s grp region =
     (case groupConfigsForRegion grp region of
        None \<Rightarrow> None
      | Some configs \<Rightarrow>
          if length configs = 0 then None
          else let groupConfig = the (map_of modelGroups grp);
                   own = (if mg_Fallback groupConfig \<noteq> []
                          then Some \<lparr>sel_ConfigKey = mg_Fallback groupConfig, sel_UsingFallback = False,
                                     sel_SelectedGroup = grp\<rparr>
                          else None)
               in (case fastestAvailable decode w1 s configs of
                     Some key \<Rightarrow> Some \<lparr>sel_ConfigKey = key, sel_UsingFallback = False, sel_SelectedGroup = grp\<rparr>
                   | None \<Rightarrow>
                       if mg_FallbackGroup groupConfig = [] then own
                       else (case groupConfigsForRegion (mg_FallbackGroup groupConfig) region of
                               None \<Rightarrow> own
                             | Some fbConfigs \<Rightarrow>
                                 if length fbConfigs = 0 then own
                                 else let fb = mg_Fallback (the (map_of modelGroups (mg_FallbackGroup groupConfig)));
                                          via = (\<lambda>key. \<lparr>sel_ConfigKey = key, sel_UsingFallback = True,
                                                  sel_SelectedGroup = mg_FallbackGroup groupConfig\<rparr>)
                                      in (case fastestAvailable decode w2 s fbConfigs of
                                            Some key \<Rightarrow> Some (via key)
                                          | None \<Rightarrow> if fb \<noteq> [] then Some (via fb) else own))))"

section \<open>The fastest available endpoint\<close>

text \<open>The score of an endpoint in a state of the server: none when blacklisted or never measured.\<close>

definition score :: "(string \<Rightarrow> endpoint_health option) \<Rightarrow> redis_server \<Rightarrow> endpoint_config \<Rightarrow> rat option" where
  "score decode s cfg =
     (let h = parseHealth decode (cached s (healthKey (ec_Key cfg)))
      in if eh_Blacklisted h then None else selectionLatency h)"

text \<open>The first minimum of a list by a key, which is what the head of a stable sort is.\<close>

fun first_min :: "('a \<Rightarrow> rat option) \<Rightarrow> 'a list \<Rightarrow> ('a \<times> rat) option" where
  "first_min f [] = None"
| "first_min f (x # xs) =
     (case f x of None \<Rightarrow> first_min f xs
      | Some l \<Rightarrow> (case first_min f xs of None \<Rightarrow> Some (x, l)
                    | Some (y, m) \<Rightarrow> Some (if l \<le> m then (x, l) else (y, m))))"

lemma first_min_None: "first_min f xs = None \<longleftrightarrow> (\<forall>x \<in> set xs. f x = None)"
  by (induction xs) (auto split: option.splits)

definition scored :: "('a \<Rightarrow> 'b) \<Rightarrow> ('a \<Rightarrow> rat option) \<Rightarrow> 'a list \<Rightarrow> ('b \<times> rat) list" where
  "scored g f xs = List.map_filter (\<lambda>x. map_option (Pair (g x)) (f x)) xs"

lemma scored_simps [simp]:
  "scored g f [] = []"
  "scored g f (x # xs) = (case f x of None \<Rightarrow> scored g f xs | Some l \<Rightarrow> (g x, l) # scored g f xs)"
  by (auto simp: scored_def List.map_filter_def split: option.split)

lemma candidates_scores:
  "candidates decode (zip configs (map (\<lambda>cfg. cached s (healthKey (ec_Key cfg))) configs)) =
     scored ec_Key (score decode s) configs"
  by (induction configs) (auto simp: candidates_def List.map_filter_def score_def Let_def split: option.split)

lemma hd_insort_key: "hd (insort_key f x xs) = (if xs = [] \<or> f x \<le> f (hd xs) then x else hd xs)"
  by (cases xs) auto

lemma sort_key_Nil_iff [simp]: "(sort_key f xs = []) = (xs = [])"
  by (metis length_0_conv length_sort)

lemma hd_sort_first_min:
  "case first_min f xs of None \<Rightarrow> scored g f xs = []
   | Some (y, m) \<Rightarrow> scored g f xs \<noteq> [] \<and> hd (sort_key snd (scored g f xs)) = (g y, m)"
  by (induction xs) (auto simp: hd_insort_key split: option.splits prod.splits)

lemma first_min_spec:
  "first_min f xs = Some (y, m) \<Longrightarrow> \<exists>us vs. xs = us @ y # vs \<and> f y = Some m
     \<and> (\<forall>u \<in> set us. \<forall>l. f u = Some l \<longrightarrow> m < l) \<and> (\<forall>v \<in> set vs. \<forall>l. f v = Some l \<longrightarrow> m \<le> l)"
proof (induction xs arbitrary: y m)
  case (Cons x xs)
  then have ih: "first_min f xs = Some (y', m') \<Longrightarrow> \<exists>us vs. xs = us @ y' # vs \<and> f y' = Some m'
     \<and> (\<forall>u \<in> set us. \<forall>l. f u = Some l \<longrightarrow> m' < l) \<and> (\<forall>v \<in> set vs. \<forall>l. f v = Some l \<longrightarrow> m' \<le> l)" for y' m'
    by blast
  show ?case
  proof (cases "first_min f xs = Some (y, m) \<and> (\<forall>l. f x = Some l \<longrightarrow> m < l)")
    case True
    then obtain us vs where "xs = us @ y # vs" "f y = Some m"
      "\<forall>u \<in> set us. \<forall>l. f u = Some l \<longrightarrow> m < l" "\<forall>v \<in> set vs. \<forall>l. f v = Some l \<longrightarrow> m \<le> l"
      using ih by blast
    with True show ?thesis by (intro exI [of _ "x # us"] exI [of _ vs]) auto
  next
    case False
    then have x: "y = x" "f x = Some m" and rest: "\<And>y' m'. first_min f xs = Some (y', m') \<Longrightarrow> m \<le> m'"
      using Cons.prems by (auto split: option.splits if_splits)
    have "m \<le> l" if "v \<in> set xs" "f v = Some l" for v l
    proof (cases "first_min f xs")
      case None
      with that show ?thesis by (simp add: first_min_None)
    next
      case (Some q)
      then obtain y' m' where q: "first_min f xs = Some (y', m')" by (cases q) auto
      from ih [OF q] that show ?thesis using rest [OF q] by fastforce
    qed
    with x show ?thesis by (intro exI [of _ "[]"] exI [of _ xs]) auto
  qed
qed simp

lemma fastestAvailable_eq:
  "fastestAvailable decode w s configs =
     (case MGetCache w s (map (\<lambda>cfg. healthKey (ec_Key cfg)) configs) of
        Inl e \<Rightarrow> None
      | Inr raws \<Rightarrow> map_option (\<lambda>(cfg, l). ec_Key cfg) (first_min (score decode s) configs))"
proof (cases "MGetCache w s (map (\<lambda>cfg. healthKey (ec_Key cfg)) configs)")
  case (Inr raws)
  then have raws: "raws = map (\<lambda>cfg. cached s (healthKey (ec_Key cfg))) configs"
    using rdb.mget_ok by (force simp: comp_def)
  show ?thesis using hd_sort_first_min [where f = "score decode s" and xs = configs and g = ec_Key]
    by (auto simp: fastestAvailable_def Inr raws candidates_scores split: option.splits prod.splits)
qed (simp add: fastestAvailable_def)

lemma fastestAvailable_SomeD:
  assumes "fastestAvailable decode w s configs = Some key"
  obtains us cfg vs l where "configs = us @ cfg # vs" "ec_Key cfg = key" "score decode s cfg = Some l"
    "\<forall>u \<in> set us. \<forall>l'. score decode s u = Some l' \<longrightarrow> l < l'"
    "\<forall>v \<in> set vs. \<forall>l'. score decode s v = Some l' \<longrightarrow> l \<le> l'"
proof -
  obtain cfg l where "first_min (score decode s) configs = Some (cfg, l)" and "ec_Key cfg = key"
    using assms by (auto simp: fastestAvailable_eq split: sum.splits)
  with first_min_spec [of "score decode s" configs cfg l] that show thesis by blast
qed

text \<open>
  C28: the endpoint chosen is the fastest healthy one. When the health could be read, a choice is made
  exactly if some config is neither blacklisted nor unmeasured; the chosen config has the least
  selection latency among those, and is the first in the group's order among equals.
\<close>

theorem fastest_selected:
  assumes "MGetCache w s (map (\<lambda>cfg. healthKey (ec_Key cfg)) configs) = Inr raws"
  shows "case fastestAvailable decode w s configs of
      None \<Rightarrow> (\<forall>cfg \<in> set configs. score decode s cfg = None)
    | Some key \<Rightarrow> (\<exists>us cfg vs l. configs = us @ cfg # vs \<and> ec_Key cfg = key \<and> score decode s cfg = Some l
        \<and> (\<forall>u \<in> set us. \<forall>l'. score decode s u = Some l' \<longrightarrow> l < l')
        \<and> (\<forall>v \<in> set vs. \<forall>l'. score decode s v = Some l' \<longrightarrow> l \<le> l'))"
proof (cases "fastestAvailable decode w s configs")
  case None
  then have "first_min (score decode s) configs = None" by (simp add: fastestAvailable_eq assms)
  then show ?thesis using None by (simp add: first_min_None)
next
  case (Some key)
  from fastestAvailable_SomeD [OF this] show ?thesis unfolding Some option.case by metis
qed

text \<open>Two endpoints, measured at 300 ms and 200 ms; the health is decoded from a fixed text.\<close>

definition poll_of :: "rat \<Rightarrow> poll_run" where
  "poll_of l = \<lparr>pr_At = [], pr_Success = True, pr_LatencyMs = None, pr_AdjustedLatencyMs = Some l,
     pr_ErrorType = None, pr_StatusCode = None, pr_ExceptionText = None\<rparr>"

definition example_decode :: "string \<Rightarrow> endpoint_health option" where
  "example_decode t = (if t = ''slow'' then Some (zero_health\<lparr>eh_PollRuns := [poll_of 300]\<rparr>)
     else if t = ''quick'' then Some (zero_health\<lparr>eh_PollRuns := [poll_of 250, poll_of 150]\<rparr>)
     else if t = ''out'' then Some (record_live_error ''t'' ''other'' 500 [] (zero_health\<lparr>eh_PollRuns := [poll_of 100]\<rparr>))
     else None)"

definition steady :: network where
  "steady = \<lparr>nw_attempt = (\<lambda>i. Replied 0), nw_cancelled = (\<lambda>i. None)\<rparr>"

definition example_server :: redis_server where
  "example_server = empty_server\<lparr>rs_keys :=
     [(''live_call_modal_health:a'', (''slow'', 1000)), (''live_call_modal_health:b'', (''quick'', 1000)),
      (''live_call_modal_health:c'', (''out'', 1000))]\<rparr>"

definition example_configs :: "endpoint_config list" where
  "example_configs = map (\<lambda>k. endpoint k OpenAI [] ''us'') [''a'', ''b'', ''c'']"

lemma example_fastest: "fastestAvailable example_decode steady example_server example_configs = Some ''b''"
  by code_simp

lemma example_mget: "MGetCache steady example_server (map (\<lambda>cfg. healthKey (ec_Key cfg)) example_configs)
    = Inr [Some ''slow'', Some ''quick'', Some ''out'']"
  by code_simp

theorem fastest_selected_witness:
  "\<exists>us cfg vs l. example_configs = us @ cfg # vs \<and> ec_Key cfg = ''b''
     \<and> score example_decode example_server cfg = Some l"
  using fastest_selected [OF example_mget, of example_decode] by (auto simp: example_fastest)

section \<open>The chosen config is registered\<close>

lemma registry_fallbacks:
  "list_all (\<lambda>(k, g). mg_FallbackGroup g \<noteq> k \<and> mg_Fallback g \<noteq> [] \<and> (case map_of endpointConfigs (mg_Fallback g) of
     None \<Rightarrow> False | Some c \<Rightarrow> ec_Region c = ''us'')) modelGroups"
  by code_simp

lemma group_fallback:
  assumes "map_of modelGroups grp = Some mg"
  shows "mg_FallbackGroup mg \<noteq> grp" "mg_Fallback mg \<in> set (mg_Configs mg)" "mg_Fallback mg \<noteq> []"
    "\<exists>c. map_of endpointConfigs (mg_Fallback mg) = Some c \<and> region_match ''us'' c"
  using group_well_formed [OF assms] registry_fallbacks map_of_SomeD [OF assms]
  by (auto simp: well_formed_group_def list_all_iff region_match_def split: option.splits)

text \<open>A selection that names a config of its own group, in the region asked for or as the last resort.\<close>

definition selection_ok :: "string \<Rightarrow> string \<Rightarrow> selection \<Rightarrow> bool" where
  "selection_ok grp region sel \<longleftrightarrow>
     (case map_of modelGroups (sel_SelectedGroup sel) of None \<Rightarrow> False
      | Some mg \<Rightarrow>
          (case map_of endpointConfigs (sel_ConfigKey sel) of None \<Rightarrow> False
           | Some cfg \<Rightarrow> sel_ConfigKey sel \<in> set (mg_Configs mg)
               \<and> (region_match region cfg \<or> sel_ConfigKey sel = mg_Fallback mg)
               \<and> (region = ''us'' \<longrightarrow> region_match region cfg)))
     \<and> (if sel_UsingFallback sel
        then map_option mg_FallbackGroup (map_of modelGroups grp) = Some (sel_SelectedGroup sel)
          \<and> sel_SelectedGroup sel \<noteq> grp
        else sel_SelectedGroup sel = grp)"

lemma fastestAvailable_registered:
  assumes "groupConfigsForRegion grp region = Some configs"
    and "fastestAvailable decode w s configs = Some key"
  shows "\<exists>mg cfg. map_of modelGroups grp = Some mg \<and> map_of endpointConfigs key = Some cfg
     \<and> key \<in> set (mg_Configs mg) \<and> region_match region cfg"
  using assms region_configs [OF assms(1)] by (elim fastestAvailable_SomeD) fastforce

text \<open>How a selection comes about.\<close>

definition chosen_from :: "(string \<Rightarrow> endpoint_health option) \<Rightarrow> redis_server \<Rightarrow> string \<Rightarrow> string \<Rightarrow> string \<Rightarrow> bool" where
  "chosen_from decode s grp region key \<longleftrightarrow>
     (\<exists>configs w. groupConfigsForRegion grp region = Some configs \<and> fastestAvailable decode w s configs = Some key)
     \<or> (\<exists>mg. map_of modelGroups grp = Some mg \<and> key = mg_Fallback mg)"

lemma getFastest_SomeD:
  assumes "getFastestForGroup decode w1 w2 s grp region = Some sel"
  shows "chosen_from decode s (sel_SelectedGroup sel) region (sel_ConfigKey sel)
    \<and> (if sel_UsingFallback sel
        then map_option mg_FallbackGroup (map_of modelGroups grp) = Some (sel_SelectedGroup sel)
          \<and> map_of modelGroups (sel_SelectedGroup sel) \<noteq> None
        else sel_SelectedGroup sel = grp)"
proof -
  have grps: "groupConfigsForRegion g region = Some cs \<Longrightarrow> \<exists>mg. map_of modelGroups g = Some mg" for g cs
    by (simp add: groupConfigsForRegion_def split: option.splits)
  obtain configs mg where g: "groupConfigsForRegion grp region = Some configs" "map_of modelGroups grp = Some mg"
    using assms grps by (fastforce simp: getFastestForGroup_def split: option.splits)
  show ?thesis
  proof (cases "groupConfigsForRegion (mg_FallbackGroup mg) region")
    case None
    with assms g show ?thesis
      by (auto simp: getFastestForGroup_def chosen_from_def Let_def split: option.splits if_splits)
  next
    case (Some fb)
    then obtain mg' where mg': "map_of modelGroups (mg_FallbackGroup mg) = Some mg'" using grps by blast
    with Some assms g show ?thesis
      by (auto simp: getFastestForGroup_def chosen_from_def Let_def split: option.splits if_splits)
  qed
qed

lemma chosen_from_registered:
  assumes "chosen_from decode s grp region key"
  shows "\<exists>mg cfg. map_of modelGroups grp = Some mg \<and> map_of endpointConfigs key = Some cfg
    \<and> key \<in> set (mg_Configs mg) \<and> (region_match region cfg \<or> key = mg_Fallback mg)
    \<and> (region = ''us'' \<longrightarrow> region_match region cfg)"
  using assms unfolding chosen_from_def
proof (elim disjE exE conjE)
  fix configs w
  assume "groupConfigsForRegion grp region = Some configs" "fastestAvailable decode w s configs = Some key"
  from fastestAvailable_registered [OF this] show ?thesis by blast
next
  fix mg assume "map_of modelGroups grp = Some mg" "key = mg_Fallback mg"
  with group_fallback [of grp mg] show ?thesis by blast
qed

lemma selection_registered_main:
  "case getFastestForGroup decode w1 w2 s grp region of
     None \<Rightarrow> groupConfigsForRegion grp region \<in> {None, Some []}
   | Some sel \<Rightarrow> selection_ok grp region sel"
proof (cases "getFastestForGroup decode w1 w2 s grp region")
  case None
  have "mg_Fallback mg \<noteq> []" if "map_of modelGroups grp = Some mg" for mg
    using group_fallback(3) [OF that] .
  then show ?thesis using None
    by (auto simp: getFastestForGroup_def groupConfigsForRegion_def Let_def split: option.splits if_splits)
next
  case (Some sel)
  note picked = getFastest_SomeD [OF Some]
  with chosen_from_registered [of decode s "sel_SelectedGroup sel" region "sel_ConfigKey sel"] group_fallback(1) [of grp]
  show ?thesis unfolding Some option.case by (auto simp: selection_ok_def split: option.splits if_splits)
qed

text \<open>
  C39: a selection always names a registered endpoint of the selected group, in the region asked for or
  the group's last resort, which serves the region us; it is marked as a fallback exactly if it comes from
  the group's fallback group. There is no selection only when the group has no config in the region,
  however the reads of the health fail.
\<close>

theorem selection_registered:
  "case getFastestForGroup decode w1 w2 s grp region of
     None \<Rightarrow> groupConfigsForRegion grp region \<in> {None, Some []}
   | Some sel \<Rightarrow> selection_ok grp region sel"
  by (rule selection_registered_main)

section \<open>A blacklisted endpoint is avoided\<close>

lemma parse_encoded:
  "decode (encode h) = Some h \<Longrightarrow> encode h \<noteq> [] \<Longrightarrow> parseHealth decode (Some (encode h)) = h"
  by (simp add: parseHealth_def)

lemma healthTTL_pos: "0 < healthTTL"
  by (simp add: healthTTL_def second_def)

text \<open>
  C29: a failing endpoint is left alone. If the router blacklists an endpoint after a live error and the
  write succeeds, then any selection made before the entry expires, while nobody has rewritten it, avoids
  the endpoint, unless it is the last resort of the group selected from. Health written between
  the router's read and its write is overwritten.
\<close>

theorem blacklisted_avoided:
  assumes "blacklistForLiveError encode decode wget wset meanwhile s now configKey errType statusCode msg = (s', None)"
    and "h = record_live_error now errType statusCode msg (parseHealth decode (cached s (healthKey configKey)))"
    and "decode (encode h) = Some h" and "encode h \<noteq> []"
    and "cached later (healthKey configKey) = cached s' (healthKey configKey)"
    and "getFastestForGroup decode w1 w2 later grp region = Some sel" and "sel_ConfigKey sel = configKey"
  shows "\<exists>mg. map_of modelGroups (sel_SelectedGroup sel) = Some mg \<and> configKey = mg_Fallback mg"
proof -
  obtain raw where get: "GetCache wget s (healthKey configKey) = Inr raw"
    and put: "SetCache wset (meanwhile s) (healthKey configKey)
      (encode (record_live_error now errType statusCode msg (parseHealth decode raw))) healthTTL = (s', None)"
    using assms(1) by (auto simp: blacklistForLiveError_def Let_def split: sum.splits)
  from rdb.put_ok [OF put healthTTL_pos] rdb.get_ok [OF get]
  have "cached later (healthKey configKey) = Some (encode h)" using assms(2,5) by simp
  then have "parseHealth decode (cached later (healthKey configKey)) = h"
    using parse_encoded [of decode encode h] assms(3,4) by simp
  then have out: "eh_Blacklisted (parseHealth decode (cached later (healthKey configKey)))"
    by (simp add: assms(2) record_live_error_def)
  have "fastestAvailable decode w later configs \<noteq> Some configKey" for w configs
  proof
    assume "fastestAvailable decode w later configs = Some configKey"
    then show False using out by (elim fastestAvailable_SomeD) (auto simp: score_def Let_def)
  qed
  with getFastest_SomeD [OF assms(6)] assms(7) show ?thesis by (auto simp: chosen_from_def)
qed

text \<open>The last resort of a group is still chosen when nothing else is available, blacklisted or not.\<close>

definition failed_health :: endpoint_health where
  "failed_health = record_live_error ''t'' ''other'' 500 ''down'' zero_health"

definition wit_decode :: "string \<Rightarrow> endpoint_health option" where
  "wit_decode t = (if t = ''failed'' then Some failed_health else None)"

definition wit_server :: redis_server where
  "wit_server = set_key (healthKey ''openrouter_gpt_oss_120b'') ''failed'' healthTTL empty_server"

lemma wit_blacklist:
  "blacklistForLiveError (\<lambda>h. ''failed'') wit_decode steady steady id empty_server ''t''
     ''openrouter_gpt_oss_120b'' ''other'' 500 ''down'' = (wit_server, None)"
  by code_simp

lemma wit_select:
  "getFastestForGroup wit_decode steady steady (at_time 5 wit_server) ''gpt-oss120-fast'' ''us'' =
     Some \<lparr>sel_ConfigKey = ''openrouter_gpt_oss_120b'', sel_UsingFallback = False,
       sel_SelectedGroup = ''gpt-oss120-fast''\<rparr>"
  by code_simp

lemma wit_cached:
  "cached (at_time 5 wit_server) (healthKey ''openrouter_gpt_oss_120b'')
     = cached wit_server (healthKey ''openrouter_gpt_oss_120b'')"
  by code_simp

lemma wit_failed: "failed_health = record_live_error ''t'' ''other'' 500 ''down''
    (parseHealth wit_decode (cached empty_server (healthKey ''openrouter_gpt_oss_120b'')))"
  by (simp add: failed_health_def empty_server_def cached_def parseHealth_def)

theorem blacklisted_avoided_witness:
  "\<exists>mg. map_of modelGroups ''gpt-oss120-fast'' = Some mg \<and> ''openrouter_gpt_oss_120b'' = mg_Fallback mg"
  using blacklisted_avoided [OF wit_blacklist wit_failed _ _ wit_cached wit_select]
  by (simp add: wit_decode_def)

end
