(* ===== verification/Providers.thy ===== *)
theory Providers
  imports LlmGroups Llm
begin

text \<open>
  Requests to the LLM providers (\<open>llmrouter/providers.go\<close>): the URL, the headers and the body of a
  streamed chat completion for an endpoint of the registry, and the classification of errors. The
  environment is an argument \<open>getenv\<close>; \<open>check_url\<close> is the error, if any, of \<open>http.NewRequest\<close> on a URL,
  and \<open>show_float\<close> the text of a \<open>float64\<close> in JSON.
\<close>

section \<open>Errors\<close>

definition errorTypeRateLimit :: string where "errorTypeRateLimit = ''rate_limit''"
definition errorTypeOther :: string where "errorTypeOther = ''other''"

definition classifyError :: "int \<Rightarrow> string \<Rightarrow> string" where
  "classifyError statusCode msg =
     (if statusCode = 429 then errorTypeRateLimit
      else let m = to_lower msg
           in if contains m ''ratelimit'' \<or> contains m ''rate_limit'' \<or> contains m ''rate limit''
                 \<or> contains m ''too many requests'' \<or> contains m ''resource_exhausted''
              then errorTypeRateLimit else errorTypeOther)"

definition apiErrorText :: "int \<Rightarrow> string \<Rightarrow> string" where
  "apiErrorText statusCode body =
     ''llmrouter: endpoint returned status '' @ int_str statusCode @ '': '' @ body"

section \<open>URLs\<close>

definition azureAPIVersion :: string where "azureAPIVersion = ''2024-02-01''"

text \<open>\<open>url.PathEscape\<close>.\<close>

definition upper_hex :: "nat \<Rightarrow> char" where
  "upper_hex n = (if n < 10 then char_of (48 + n) else char_of (55 + n))"

definition path_safe :: "char \<Rightarrow> bool" where
  "path_safe c =
     (48 \<le> code c \<and> code c \<le> 57 \<or> 65 \<le> code c \<and> code c \<le> 90 \<or> 97 \<le> code c \<and> code c \<le> 122
      \<or> c \<in> set ''-_.~$&+=:@'')"

definition path_escape :: "string \<Rightarrow> string" where
  "path_escape s =
     concat (map (\<lambda>c. if path_safe c then [c]
                        else [CHR ''%'', upper_hex (code c div 16), upper_hex (code c mod 16)]) s)"

definition vertexBaseURL :: "string \<Rightarrow> string \<Rightarrow> string" where
  "vertexBaseURL project location =
     (let host = (if location \<noteq> [] \<and> location \<noteq> ''global'' then location @ ''-aiplatform.googleapis.com''
                  else ''aiplatform.googleapis.com'')
      in ''https://'' @ host @ ''/v1/projects/'' @ project @ ''/locations/'' @ location @ ''/endpoints/openapi'')"

fun provider_name :: "provider \<Rightarrow> string" where
  "provider_name OpenAI = ''openai''"
| "provider_name Azure = ''azure''"
| "provider_name Grok = ''grok''"
| "provider_name Vertex = ''vertex''"
| "provider_name OpenRouter = ''openrouter''"
| "provider_name GoogleAIStudio = ''google_ai_studio''"
| "provider_name Cerebras = ''cerebras''"

definition endpoint_from_env :: "(string \<Rightarrow> string) \<Rightarrow> endpoint_config \<Rightarrow> string + string" where
  "endpoint_from_env getenv cfg =
     (let v = getenv (ec_EndpointEnv cfg)
      in if v = [] then Inl (''llmrouter: missing endpoint env '' @ ec_EndpointEnv cfg @ '' for '' @ ec_Key cfg)
         else Inr v)"

definition baseURL :: "(string \<Rightarrow> string) \<Rightarrow> endpoint_config \<Rightarrow> string + string" where
  "baseURL getenv cfg =
     (case ec_Provider cfg of
        Grok \<Rightarrow> endpoint_from_env getenv cfg
      | Azure \<Rightarrow> endpoint_from_env getenv cfg
      | OpenAI \<Rightarrow> Inr ''https://api.openai.com/v1''
      | Vertex \<Rightarrow> Inr (vertexBaseURL (ec_VertexProject cfg) (ec_VertexLocation cfg))
      | _ \<Rightarrow> (if ec_BaseURL cfg = [] then Inl (''llmrouter: missing base URL for '' @ ec_Key cfg)
              else Inr (ec_BaseURL cfg)))"

definition completionsURL :: "(string \<Rightarrow> string) \<Rightarrow> endpoint_config \<Rightarrow> string + string" where
  "completionsURL getenv cfg =
     (case baseURL getenv cfg of
        Inl e \<Rightarrow> Inl e
      | Inr base0 \<Rightarrow>
          let base = trim_right_char (CHR ''/'') base0
          in if ec_Provider cfg = Azure
             then Inr (base @ ''/openai/deployments/'' @ path_escape (ec_Model cfg)
                       @ ''/chat/completions?api-version='' @ azureAPIVersion)
             else Inr (base @ ''/chat/completions''))"

text \<open>\<open>token\<close> is the outcome of the Vertex token source of the config's credentials.\<close>

definition apiKeyFor :: "(string \<Rightarrow> string) \<Rightarrow> string + string \<Rightarrow> endpoint_config \<Rightarrow> string + string" where
  "apiKeyFor getenv token cfg =
     (if ec_Provider cfg = Vertex then token
      else let key = getenv (ec_APIKeyEnv cfg)
           in if key = [] then Inl (''llmrouter: missing API key env '' @ ec_APIKeyEnv cfg @ '' for '' @ ec_Key cfg)
              else Inr key)"

definition temperatureFor :: "endpoint_config \<Rightarrow> rat" where
  "temperatureFor cfg = (case ec_Temperature cfg of Some t \<Rightarrow> t | None \<Rightarrow> 0)"

section \<open>The body\<close>

definition extraBodyFor :: "endpoint_config \<Rightarrow> (string \<times> json) list" where
  "extraBodyFor cfg =
     (let model = to_lower (ec_Model cfg); gemini = contains model ''gemini''; old = contains model ''gemini-2.5''
      in case ec_Provider cfg of
           OpenRouter \<Rightarrow>
             (if contains model ''grok-4-fast'' \<or> contains model ''grok-4.1-fast''
              then [(''reasoning'', JObj [(''enabled'', JBool False)])]
              else if gemini
              then [(''reasoning'', JObj [(''effort'', JStr (if old then ''none'' else ''minimal''))])]
              else [])
         | Vertex \<Rightarrow>
             (if gemini
              then [(''google'', JObj [(''thinking_config'',
                     JObj [if old then (''thinking_budget'', JNum ''0'') else (''thinking_level'', JStr ''MINIMAL'')])])]
              else [])
         | GoogleAIStudio \<Rightarrow>
             (if gemini then [(''reasoning_effort'', JStr (if old then ''none'' else ''minimal''))] else [])
         | _ \<Rightarrow> [])"

text \<open>The messages and tools as \<open>json.Marshal\<close> writes them, empty optional fields left out.\<close>

definition tool_call_json :: "tool_call \<Rightarrow> json" where
  "tool_call_json tc =
     JObj [(''id'', JStr (tc_ID tc)), (''type'', JStr (tc_Type tc)),
           (''function'', JObj [(''name'', JStr (tcf_Name (tc_Function tc))),
                               (''arguments'', JStr (tcf_Arguments (tc_Function tc)))])]"

definition message_json :: "message \<Rightarrow> json" where
  "message_json m =
     JObj ([(''role'', JStr (msg_Role m))]
       @ (if msg_Content m = [] then [] else [(''content'', JStr (msg_Content m))])
       @ (if msg_ToolCalls m = [] then [] else [(''tool_calls'', JArr (map tool_call_json (msg_ToolCalls m)))])
       @ (if msg_ToolCallID m = [] then [] else [(''tool_call_id'', JStr (msg_ToolCallID m))]))"

definition tool_json :: "tool_definition \<Rightarrow> json" where
  "tool_json td =
     JObj [(''type'', JStr (td_Type td)),
       (''function'', JObj ([(''name'', JStr (td_Name td))]
          @ (if td_Description td = [] then [] else [(''description'', JStr (td_Description td))])
          @ (if td_Parameters td = [] then [] else [(''parameters'', JObj (td_Parameters td))])
          @ (case td_Strict td of None \<Rightarrow> [] | Some b \<Rightarrow> [(''strict'', JBool b)])))]"

definition json_put :: "string \<times> json \<Rightarrow> (string \<times> json) list \<Rightarrow> (string \<times> json) list" where
  "json_put kv body = kv # filter (\<lambda>e. fst e \<noteq> fst kv) body"

text \<open>A later field replaces an earlier one of the same name.\<close>

definition request_body ::
  "(rat \<Rightarrow> string) \<Rightarrow> endpoint_config \<Rightarrow> message list \<times> tool_definition list \<times> json \<Rightarrow> (string \<times> json) list" where
  "request_body show_float cfg req =
     (case req of (messages, tools, choice) \<Rightarrow>
        fold json_put
          ([(''model'', JStr (ec_Model cfg)), (''stream'', JBool True),
            (''stream_options'', JObj [(''include_usage'', JBool True)]),
            (''messages'', JArr (map message_json messages)),
            (''temperature'', JNum (show_float (temperatureFor cfg)))]
           @ (if length tools > 0 then [(''tools'', JArr (map tool_json tools))] else [])
           @ (if choice \<noteq> JNull then [(''tool_choice'', choice)] else [])
           @ (case ec_MaxTokens cfg of Some n \<Rightarrow> [(''max_tokens'', JNum (int_str n))] | None \<Rightarrow> [])
           @ extraBodyFor cfg @ ec_ExtraBody cfg) [])"

section \<open>The request\<close>

record http_request =
  hr_Method :: string
  hr_URL :: string
  hr_Header :: "(string \<times> string) list"
  hr_Body :: "(string \<times> json) list"

definition buildRequest ::
  "(string \<Rightarrow> string) \<Rightarrow> (string \<Rightarrow> string option) \<Rightarrow> (rat \<Rightarrow> string) \<Rightarrow> string + string \<Rightarrow> endpoint_config
   \<Rightarrow> message list \<times> tool_definition list \<times> json \<Rightarrow> string + http_request" where
  "buildRequest getenv check_url show_float token cfg req =
     (case completionsURL getenv cfg of
        Inl e \<Rightarrow> Inl e
      | Inr url \<Rightarrow>
          (case check_url url of
             Some e \<Rightarrow> Inl e
           | None \<Rightarrow>
               (case apiKeyFor getenv token cfg of
                  Inl e \<Rightarrow> Inl e
                | Inr apiKey \<Rightarrow>
                    Inr \<lparr>hr_Method = ''POST'', hr_URL = url,
                      hr_Header = [(''Content-Type'', ''application/json''),
                        if ec_Provider cfg = Azure then (''api-key'', apiKey)
                        else (''Authorization'', ''Bearer '' @ apiKey)],
                      hr_Body = request_body show_float cfg req\<rparr>)))"

section \<open>Every registered endpoint can be asked\<close>

definition reserved_fields :: "string list" where
  "reserved_fields = [''model'', ''stream'', ''stream_options'', ''messages'', ''temperature'', ''tools'',
     ''tool_choice'', ''max_tokens'']"

lemma registry_requests:
  "list_all (\<lambda>(k, cfg).
     list_all (\<lambda>f. f \<notin> set reserved_fields) (map fst (extraBodyFor cfg @ ec_ExtraBody cfg))
     \<and> (ec_Provider cfg \<in> {OpenRouter, GoogleAIStudio, Cerebras} \<longrightarrow> ec_BaseURL cfg \<noteq> [])
     \<and> (ec_Provider cfg \<in> {Grok, Azure} \<longrightarrow> ec_EndpointEnv cfg \<noteq> [])
     \<and> (ec_Provider cfg \<noteq> Vertex \<longrightarrow> ec_APIKeyEnv cfg \<noteq> [])) endpointConfigs"
  by code_simp

lemma map_of_put: "map_of (json_put kv body) k = (if k = fst kv then Some (snd kv) else map_of body k)"
  by (cases kv) (simp add: json_put_def)

lemma map_of_fold_put:
  "map_of (fold json_put kvs body) k = (case map_of (rev kvs) k of Some v \<Rightarrow> Some v | None \<Rightarrow> map_of body k)"
  by (induction kvs arbitrary: body) (auto simp: map_of_put map_add_def split: option.split)

definition environment_complete :: "(string \<Rightarrow> string) \<Rightarrow> string + string \<Rightarrow> endpoint_config \<Rightarrow> string \<Rightarrow> bool" where
  "environment_complete getenv token cfg key \<longleftrightarrow>
     (if ec_Provider cfg = Vertex then token = Inr key else getenv (ec_APIKeyEnv cfg) = key \<and> key \<noteq> [])
     \<and> (ec_Provider cfg \<in> {Grok, Azure} \<longrightarrow> getenv (ec_EndpointEnv cfg) \<noteq> [])"

lemma registry_entry:
  assumes "map_of endpointConfigs k = Some cfg"
  shows "f \<in> fst ` set (extraBodyFor cfg @ ec_ExtraBody cfg) \<Longrightarrow> f \<notin> set reserved_fields"
    and "ec_Provider cfg \<in> {OpenRouter, GoogleAIStudio, Cerebras} \<Longrightarrow> ec_BaseURL cfg \<noteq> []"
  using bspec [OF registry_requests [unfolded list_all_iff] map_of_SomeD [OF assms]]
  unfolding prod.case list_all_iff set_map by blast+

lemma completionsURL_complete:
  assumes "map_of endpointConfigs k = Some cfg" and "environment_complete getenv token cfg key"
  shows "\<exists>url. completionsURL getenv cfg = Inr url"
  using assms(2) registry_entry(2) [OF assms(1)]
  by (cases "ec_Provider cfg")
     (auto simp: completionsURL_def baseURL_def endpoint_from_env_def environment_complete_def Let_def)

lemma apiKeyFor_complete: "environment_complete getenv token cfg key \<Longrightarrow> apiKeyFor getenv token cfg = Inr key"
  by (auto simp: apiKeyFor_def environment_complete_def Let_def split: if_splits)

text \<open>What the body says under a name that no tuning field uses.\<close>

definition plain_fields ::
  "(rat \<Rightarrow> string) \<Rightarrow> endpoint_config \<Rightarrow> message list \<Rightarrow> tool_definition list \<Rightarrow> json \<Rightarrow> (string \<times> json) list" where
  "plain_fields show_float cfg ms tools choice =
     [(''model'', JStr (ec_Model cfg)), (''stream'', JBool True),
      (''stream_options'', JObj [(''include_usage'', JBool True)]),
      (''messages'', JArr (map message_json ms)),
      (''temperature'', JNum (show_float (temperatureFor cfg)))]
     @ (if length tools > 0 then [(''tools'', JArr (map tool_json tools))] else [])
     @ (if choice \<noteq> JNull then [(''tool_choice'', choice)] else [])
     @ (case ec_MaxTokens cfg of Some n \<Rightarrow> [(''max_tokens'', JNum (int_str n))] | None \<Rightarrow> [])"

lemma plain_fields_distinct: "distinct (map fst (plain_fields show_float cfg ms tools choice))"
  by (cases "length tools > 0"; cases "choice = JNull"; cases "ec_MaxTokens cfg") (simp_all add: plain_fields_def)

lemma map_of_rev_distinct: "distinct (map fst kvs) \<Longrightarrow> map_of (rev kvs) k = map_of kvs k"
  using map_of_inject_set [of "rev kvs" kvs] by (simp add: rev_map [symmetric])

lemma request_body_reserved:
  assumes "map_of endpointConfigs k0 = Some cfg" and "f \<in> set reserved_fields"
  shows "map_of (request_body show_float cfg (ms, tools, choice)) f = map_of (plain_fields show_float cfg ms tools choice) f"
proof -
  have "map_of (rev (extraBodyFor cfg @ ec_ExtraBody cfg)) f = None"
    using registry_entry(1) [OF assms(1), of f] assms(2) by (auto simp: map_of_eq_None_iff)
  moreover have "request_body show_float cfg (ms, tools, choice)
      = fold json_put (plain_fields show_float cfg ms tools choice @ (extraBodyFor cfg @ ec_ExtraBody cfg)) []"
    by (simp only: request_body_def plain_fields_def prod.case append_assoc)
  moreover note map_of_rev_distinct [OF plain_fields_distinct]
  ultimately show ?thesis
    by (simp only: map_of_fold_put rev_append [of "plain_fields _ _ _ _ _"] map_of_append)
       (simp add: map_add_def split: option.split)
qed

lemma plain_fields_lookup:
  fixes show_float cfg ms tools choice
  defines "body \<equiv> map_of (plain_fields show_float cfg ms tools choice)"
  shows "body ''model'' = Some (JStr (ec_Model cfg))" "body ''stream'' = Some (JBool True)"
    "body ''messages'' = Some (JArr (map message_json ms))"
    "body ''temperature'' = Some (JNum (show_float (temperatureFor cfg)))"
    "body ''tools'' = (if tools = [] then None else Some (JArr (map tool_json tools)))"
    "body ''tool_choice'' = (if choice = JNull then None else Some choice)"
    "body ''max_tokens'' = map_option (\<lambda>n. JNum (int_str n)) (ec_MaxTokens cfg)"
  by (cases "choice = JNull"; cases "ec_MaxTokens cfg"; simp add: body_def plain_fields_def)+

lemma request_body_fields:
  fixes show_float cfg ms tools choice
  assumes "map_of endpointConfigs k = Some cfg"
  defines "body \<equiv> map_of (request_body show_float cfg (ms, tools, choice))"
  shows "body ''model'' = Some (JStr (ec_Model cfg))" "body ''stream'' = Some (JBool True)"
    "body ''messages'' = Some (JArr (map message_json ms))"
    "body ''temperature'' = Some (JNum (show_float (temperatureFor cfg)))"
    "body ''tools'' = (if tools = [] then None else Some (JArr (map tool_json tools)))"
    "body ''tool_choice'' = (if choice = JNull then None else Some choice)"
    "body ''max_tokens'' = map_option (\<lambda>n. JNum (int_str n)) (ec_MaxTokens cfg)"
  unfolding body_def
  by (subst request_body_reserved [OF assms(1)]; simp add: reserved_fields_def plain_fields_lookup)+


definition wit_env :: "string \<Rightarrow> string" where
  "wit_env v = (if v = ''OPENAI_API_KEY'' then ''sk'' else [])"

definition wit_endpoint :: endpoint_config where
  "wit_endpoint = (endpoint ''openai_gpt_4_1'' OpenAI ''gpt-4.1'' ''us'')\<lparr>ec_APIKeyEnv := ''OPENAI_API_KEY''\<rparr>"

lemma wit_endpoint_registered: "map_of endpointConfigs ''openai_gpt_4_1'' = Some wit_endpoint"
  by code_simp

lemma wit_provider: "ec_Provider wit_endpoint = OpenAI"
  by code_simp

lemma wit_env_complete: "environment_complete wit_env (Inl []) wit_endpoint ''sk''"
  by code_simp

lemma wit_url: "completionsURL wit_env wit_endpoint = Inr ''https://api.openai.com/v1/chat/completions''"
  by code_simp


end
