(* ===== verification/Router.thy ===== *)
theory Router
  imports Health Providers
begin

text \<open>
  The LLM router (\<open>llmrouter/client.go\<close>, \<open>llmrouter/poll_trigger.go\<close>, \<open>llmrouter/logging.go\<close>): one
  \<open>Stream\<close> selects an endpoint, sends the request, reads the server-sent events of the reply, and after
  an error blacklists the endpoint and asks for a poll. The world of a stream is a record: the environment,
  the fate of each Redis command, the HTTP exchange with its times, and the points at which the turn's
  context is found cancelled. \<open>decode_chunk\<close> is \<open>json.Unmarshal\<close> into the chunk's type.
\<close>

section \<open>Server-sent events\<close>

record token_usage =
  us_PromptTokens :: int
  us_CompletionTokens :: int
  us_TotalTokens :: int

record chunk_tool_call =
  ct_Index :: "int option"
  ct_ID :: string
  ct_Type :: string
  ct_Name :: string
  ct_Arguments :: string

record chunk_choice =
  cc_Content :: string
  cc_ToolCalls :: "chunk_tool_call list"
  cc_FinishReason :: "string option"

record sse_chunk =
  sc_Choices :: "chunk_choice list"
  sc_Usage :: "token_usage option"

text \<open>What a line means: to be skipped, the end of the stream, or the parts of a chunk.\<close>

datatype sse_line =
    Skip
  | Done
  | Delta string "(int \<times> tool_call) list" string "token_usage option"

definition delta_of :: "chunk_tool_call \<Rightarrow> int \<times> tool_call" where
  "delta_of tc =
     (case ct_Index tc of Some i \<Rightarrow> i | None \<Rightarrow> 0,
      \<lparr>tc_ID = ct_ID tc, tc_Type = ct_Type tc,
       tc_Function = \<lparr>tcf_Name = ct_Name tc, tcf_Arguments = ct_Arguments tc\<rparr>\<rparr>)"

definition parseSSEChunk :: "(string \<Rightarrow> sse_chunk option) \<Rightarrow> string \<Rightarrow> sse_line" where
  "parseSSEChunk decode_chunk line =
     (if \<not> has_prefix line ''data:'' then Skip
      else let data = trim_space (drop (length ''data:'') line)
           in if data = [] then Skip
              else if data = ''[DONE]'' then Done
              else case decode_chunk data of
                None \<Rightarrow> Skip
              | Some chunk \<Rightarrow>
                  (case sc_Choices chunk of
                     [] \<Rightarrow> Delta [] [] [] (sc_Usage chunk)
                   | c # _ \<Rightarrow>
                       Delta (cc_Content c) (map delta_of (cc_ToolCalls c))
                         (case cc_FinishReason c of Some fr \<Rightarrow> fr | None \<Rightarrow> []) (sc_Usage chunk)))"

text \<open>One line of the body: when the scanner returns it, and whether the context is then cancelled.\<close>

record sse_event =
  se_time :: gotime
  se_cancelled :: bool
  se_line :: string

record stream_state =
  ss_first :: "gotime option"
  ss_tokens :: "(gotime \<times> string) list"
  ss_tools :: accumulator
  ss_usage :: token_usage
  ss_finish :: string

definition stream_start :: stream_state where
  "stream_start = \<lparr>ss_first = None, ss_tokens = [], ss_tools = NewToolCallAccumulator,
     ss_usage = \<lparr>us_PromptTokens = 0, us_CompletionTokens = 0, us_TotalTokens = 0\<rparr>, ss_finish = []\<rparr>"

text \<open>\<open>ss_first\<close> is the time of the first delta, \<open>None\<close> while \<open>firstToken\<close> holds.\<close>

definition mark_first :: "gotime \<Rightarrow> stream_state \<Rightarrow> stream_state" where
  "mark_first t st = (if ss_first st = None then st\<lparr>ss_first := Some t\<rparr> else st)"

definition on_delta :: "gotime \<Rightarrow> string \<Rightarrow> (int \<times> tool_call) list \<Rightarrow> string \<Rightarrow> token_usage option
    \<Rightarrow> stream_state \<Rightarrow> stream_state" where
  "on_delta t content toolDeltas fr usage st =
     (let st1 = (case usage of Some u \<Rightarrow> st\<lparr>ss_usage := u\<rparr> | None \<Rightarrow> st);
          st2 = (if fr \<noteq> [] then st1\<lparr>ss_finish := fr\<rparr> else st1);
          st3 = (if length toolDeltas > 0
                 then (let st' = mark_first t st2
                       in st'\<lparr>ss_tools := foldl (\<lambda>a (i, d). acc_Add a i d) (ss_tools st') toolDeltas\<rparr>)
                 else st2)
      in if content = [] then st3
         else (let st' = mark_first t st3 in st'\<lparr>ss_tokens := ss_tokens st' @ [(t, content)]\<rparr>))"

text \<open>The scan loop; the result is the time at which the context was found cancelled, if it was.\<close>

fun scan_loop :: "(string \<Rightarrow> sse_chunk option) \<Rightarrow> sse_event list \<Rightarrow> stream_state
    \<Rightarrow> stream_state \<times> gotime option" where
  "scan_loop decode_chunk [] st = (st, None)"
| "scan_loop decode_chunk (ev # evs) st =
     (if se_cancelled ev then (st, Some (se_time ev))
      else case parseSSEChunk decode_chunk (se_line ev) of
             Done \<Rightarrow> (st, None)
           | Skip \<Rightarrow> scan_loop decode_chunk evs st
           | Delta content toolDeltas fr usage \<Rightarrow>
               scan_loop decode_chunk evs (on_delta (se_time ev) content toolDeltas fr usage st))"

section \<open>The router\<close>

definition defaultRegion :: string where "defaultRegion = ''us''"
definition liveCallSlowThresholdMs :: rat where "liveCallSlowThresholdMs = 3000"
definition pollTriggerURLEnv :: string where "pollTriggerURLEnv = ''LLM_POLL_TRIGGER_URL''"
definition errNoEndpoint :: string where "errNoEndpoint = ''llmrouter: no endpoint available for group''"

record router =
  ro_Group :: string
  ro_Region :: string
  ro_LogSink :: bool
  ro_PromptMetadata :: "(string \<times> json) list"
  ro_pollTriggerURL :: string

text \<open>\<open>New\<close>; \<open>hasRedis\<close> tells whether a store was injected.\<close>

definition NewRouter :: "(string \<Rightarrow> string) \<Rightarrow> bool \<Rightarrow> string \<Rightarrow> string \<Rightarrow> bool \<Rightarrow> (string \<times> json) list
    \<Rightarrow> string + router" where
  "NewRouter getenv hasRedis grp region logSink meta =
     (if grp = [] then Inl ''llmrouter: Config.Group is required''
      else if \<not> hasRedis then Inl ''llmrouter: Config.Redis is required''
      else if map_of modelGroups grp = None then Inl (''llmrouter: unknown model group '' @ go_quote grp)
      else Inr \<lparr>ro_Group = grp, ro_Region = region, ro_LogSink = logSink, ro_PromptMetadata = meta,
                ro_pollTriggerURL = trim_space (getenv pollTriggerURLEnv)\<rparr>)"

definition region :: "router \<Rightarrow> string" where
  "region r = (if ro_Region r \<noteq> [] then ro_Region r else defaultRegion)"

definition msFromDuration :: "duration \<Rightarrow> rat" where
  "msFromDuration d = fdiv (float_of_int (quot d 1000)) 1000"

definition deploymentName :: "endpoint_config \<Rightarrow> string" where
  "deploymentName cfg =
     (if ec_APIKeyEnv cfg \<noteq> [] then
        (case index_of ''_API_KEY'' (ec_APIKeyEnv cfg) of
           Some i \<Rightarrow> take i (ec_APIKeyEnv cfg) | None \<Rightarrow> ec_APIKeyEnv cfg)
      else if ec_Provider cfg = Vertex then
        (let project0 = (if ec_VertexProject cfg = ''gen-lang-client-0439239631'' then ''dishaai''
                         else ec_VertexProject cfg);
             project = (if project0 = [] then ''curelinkai'' else project0)
         in join_with ''_'' ([provider_name (ec_Provider cfg), project]
              @ (if ec_VertexLocation cfg \<noteq> [] then [ec_VertexLocation cfg] else [])))
      else provider_name (ec_Provider cfg))"

subsection \<open>Polls\<close>

definition pollLockPrefix :: string where "pollLockPrefix = ''poll_openai_models_lock''"
definition groupPollLockTTL :: duration where "groupPollLockTTL = 60 * second"

text \<open>\<open>triggerPoll\<close> starts a goroutine for the reason, unless no trigger URL is configured.\<close>

definition triggerPoll :: "router \<Rightarrow> string \<Rightarrow> string list" where
  "triggerPoll r reason = (if ro_pollTriggerURL r = [] then [] else [reason])"

definition postPoll :: "router \<Rightarrow> string \<Rightarrow> http_request" where
  "postPoll r reason =
     \<lparr>hr_Method = ''POST'', hr_URL = ro_pollTriggerURL r, hr_Header = [(''Content-Type'', ''application/json'')],
      hr_Body = [(''model_group'', JStr (ro_Group r)), (''region'', JStr (region r)),
                 (''reason'', JStr reason), (''force'', JBool True)]\<rparr>"

text \<open>The goroutine: take the lock of the primary group, then post.\<close>

definition run_poll :: "network \<Rightarrow> router \<Rightarrow> string \<Rightarrow> redis_server \<Rightarrow> redis_server \<times> http_request option" where
  "run_poll w r reason s =
     (let (s', acquired) = AcquireLock w s (pollLockPrefix @ '':'' @ ro_Group r) groupPollLockTTL
      in (s', case acquired of Inl e \<Rightarrow> None | Inr got \<Rightarrow> if got then Some (postPoll r reason) else None))"

section \<open>Stream\<close>

datatype http_outcome =
    NoReply string bool gotime
  | Reply int string "sse_event list" bool gotime

record stream_world =
  sw_getenv :: "string \<Rightarrow> string"
  sw_check_url :: "string \<Rightarrow> string option"
  sw_show_float :: "rat \<Rightarrow> string"
  sw_token :: "string + string"
  sw_pick1 :: network
  sw_pick2 :: network
  sw_wget :: network
  sw_wset :: network
  sw_meanwhile :: "redis_server \<Rightarrow> redis_server"
  sw_encode :: "endpoint_health \<Rightarrow> string"
  sw_decode :: "string \<Rightarrow> endpoint_health option"
  sw_decode_chunk :: "string \<Rightarrow> sse_chunk option"
  sw_iso :: string
  sw_start :: gotime
  sw_http :: http_outcome

record llm_result =
  lr_Model :: string
  lr_TTFB :: duration
  lr_Total :: duration
  lr_Interrupted :: bool
  lr_ToolCalls :: "tool_call list"

record call_log =
  cl_Model :: string
  cl_ConfigKey :: string
  cl_Deployment :: string
  cl_Request :: "message list \<times> tool_definition list \<times> json"
  cl_ResponseContent :: string
  cl_ToolCalls :: "tool_call list"
  cl_PromptMetadata :: "(string \<times> json) list"
  cl_Usage :: token_usage
  cl_TTFBMs :: rat
  cl_TotalMs :: rat
  cl_StatusCode :: int
  cl_Completed :: bool
  cl_Interrupted :: bool
  cl_ErrorType :: string
  cl_ErrorMessage :: string
  cl_FinishReason :: string
  cl_UsingFallback :: bool
  cl_SelectedGroup :: string

text \<open>Everything a stream does: its result, the tokens it delivered, the server after it, the polls and the log.\<close>

record stream_run =
  sr_result :: llm_result
  sr_err :: "string option"
  sr_tokens :: "(gotime \<times> string) list"
  sr_server :: redis_server
  sr_polls :: "string list"
  sr_log :: "call_log option"

definition handleError :: "stream_world \<Rightarrow> router \<Rightarrow> redis_server \<Rightarrow> string \<Rightarrow> int \<Rightarrow> string
    \<Rightarrow> redis_server \<times> string list" where
  "handleError w r s configKey statusCode errMsg =
     (fst (blacklistForLiveError (sw_encode w) (sw_decode w) (sw_wget w) (sw_wset w) (sw_meanwhile w) s
             (sw_iso w) configKey (classifyError statusCode errMsg) statusCode errMsg),
      triggerPoll r ''live_call_error'')"

definition empty_result :: "string \<Rightarrow> llm_result" where
  "empty_result model = \<lparr>lr_Model = model, lr_TTFB = 0, lr_Total = 0, lr_Interrupted = False, lr_ToolCalls = []\<rparr>"

text \<open>The deferred log of the call.\<close>

definition call_log_of :: "router \<Rightarrow> selection \<Rightarrow> endpoint_config \<Rightarrow> message list \<times> tool_definition list \<times> json
    \<Rightarrow> llm_result \<Rightarrow> string option \<Rightarrow> stream_state \<Rightarrow> int \<Rightarrow> string \<Rightarrow> call_log option" where
  "call_log_of r sel cfg req res err st statusCode errType =
     (if \<not> ro_LogSink r then None
      else Some \<lparr>cl_Model = ec_Model cfg, cl_ConfigKey = ec_Key cfg, cl_Deployment = deploymentName cfg,
        cl_Request = req, cl_ResponseContent = concat (map snd (ss_tokens st)), cl_ToolCalls = lr_ToolCalls res,
        cl_PromptMetadata = ro_PromptMetadata r, cl_Usage = ss_usage st,
        cl_TTFBMs = msFromDuration (lr_TTFB res), cl_TotalMs = msFromDuration (lr_Total res),
        cl_StatusCode = statusCode, cl_Completed = (err = None \<and> \<not> lr_Interrupted res),
        cl_Interrupted = lr_Interrupted res, cl_ErrorType = errType,
        cl_ErrorMessage = (case err of Some e \<Rightarrow> e | None \<Rightarrow> []), cl_FinishReason = ss_finish st,
        cl_UsingFallback = sel_UsingFallback sel, cl_SelectedGroup = sel_SelectedGroup sel\<rparr>)"

definition ttfb_of :: "gotime \<Rightarrow> stream_state \<Rightarrow> duration" where
  "ttfb_of start st = (case ss_first st of Some t \<Rightarrow> time_sub t start | None \<Rightarrow> 0)"

text \<open>A failed attempt on the selected endpoint: blacklist it, ask for a poll.\<close>

definition stream_failed :: "stream_world \<Rightarrow> router \<Rightarrow> redis_server \<Rightarrow> selection \<Rightarrow> endpoint_config
    \<Rightarrow> message list \<times> tool_definition list \<times> json \<Rightarrow> duration \<Rightarrow> int \<Rightarrow> int \<Rightarrow> string \<Rightarrow> string \<Rightarrow> stream_run" where
  "stream_failed w r s sel cfg req elapsed loggedStatus statusCode errMsg err =
     (let res = (empty_result (ec_Model cfg))\<lparr>lr_Total := elapsed\<rparr>;
          (s', polls) = handleError w r s (ec_Key cfg) statusCode errMsg
      in \<lparr>sr_result = res, sr_err = Some err, sr_tokens = [], sr_server = s', sr_polls = polls,
          sr_log = call_log_of r sel cfg req res (Some err) stream_start loggedStatus
            (classifyError statusCode errMsg)\<rparr>)"

text \<open>A 2xx reply.\<close>

definition stream_reply :: "stream_world \<Rightarrow> router \<Rightarrow> redis_server \<Rightarrow> selection \<Rightarrow> endpoint_config
    \<Rightarrow> message list \<times> tool_definition list \<times> json \<Rightarrow> int \<Rightarrow> sse_event list \<Rightarrow> bool \<Rightarrow> gotime \<Rightarrow> stream_run" where
  "stream_reply w r s sel cfg req status events cancelled ended =
     (case scan_loop (sw_decode_chunk w) events stream_start of
        (st, Some t) \<Rightarrow>
          (let res = \<lparr>lr_Model = ec_Model cfg, lr_TTFB = ttfb_of (sw_start w) st,
                      lr_Total = time_sub t (sw_start w), lr_Interrupted = True, lr_ToolCalls = []\<rparr>;
               err = Some ''context canceled''
           in \<lparr>sr_result = res, sr_err = err, sr_tokens = ss_tokens st, sr_server = s, sr_polls = [],
               sr_log = call_log_of r sel cfg req res err st status []\<rparr>)
      | (st, None) \<Rightarrow>
          (let res = \<lparr>lr_Model = ec_Model cfg, lr_TTFB = ttfb_of (sw_start w) st,
                      lr_Total = time_sub ended (sw_start w), lr_Interrupted = cancelled,
                      lr_ToolCalls = acc_List (ss_tools st)\<rparr>
           in \<lparr>sr_result = res, sr_err = None, sr_tokens = ss_tokens st, sr_server = s,
               sr_polls = (if msFromDuration (lr_Total res) > liveCallSlowThresholdMs then triggerPoll r ''slow_live_call''
                           else if sel_UsingFallback sel then triggerPoll r ''fallback_recovery'' else []),
               sr_log = call_log_of r sel cfg req res None st status []\<rparr>))"

definition Stream :: "stream_world \<Rightarrow> router \<Rightarrow> redis_server \<Rightarrow> message list \<times> tool_definition list \<times> json
    \<Rightarrow> stream_run" where
  "Stream w r s req =
     (case getFastestForGroup (sw_decode w) (sw_pick1 w) (sw_pick2 w) s (ro_Group r) (region r) of
        None \<Rightarrow> \<lparr>sr_result = empty_result [], sr_err = Some errNoEndpoint, sr_tokens = [], sr_server = s,
                  sr_polls = [], sr_log = None\<rparr>
      | Some sel \<Rightarrow>
          (case map_of endpointConfigs (sel_ConfigKey sel) of
             None \<Rightarrow> \<lparr>sr_result = empty_result [],
                       sr_err = Some (''llmrouter: unknown config '' @ go_quote (sel_ConfigKey sel)),
                       sr_tokens = [], sr_server = s, sr_polls = [], sr_log = None\<rparr>
           | Some cfg \<Rightarrow>
               (case buildRequest (sw_getenv w) (sw_check_url w) (sw_show_float w) (sw_token w) cfg req of
                  Inl e \<Rightarrow> stream_failed w r s sel cfg req 0 0 0 e e
                | Inr _ \<Rightarrow>
                    (case sw_http w of
                       NoReply e cancelled t \<Rightarrow>
                         (if cancelled
                          then (let res = (empty_result (ec_Model cfg))
                                      \<lparr>lr_Total := time_sub t (sw_start w), lr_Interrupted := True\<rparr>
                                in \<lparr>sr_result = res, sr_err = Some e, sr_tokens = [], sr_server = s, sr_polls = [],
                                    sr_log = call_log_of r sel cfg req res (Some e) stream_start 0 []\<rparr>)
                          else stream_failed w r s sel cfg req (time_sub t (sw_start w)) 0 0 e e)
                     | Reply status body events cancelled ended \<Rightarrow>
                         (if status < 200 \<or> status \<ge> 300
                          then stream_failed w r s sel cfg req (time_sub ended (sw_start w)) status status
                                 (trim_space (take 4096 body)) (apiErrorText status (trim_space (take 4096 body)))
                          else stream_reply w r s sel cfg req status events cancelled ended)))))"

section \<open>The live-error policy\<close>

text \<open>
  The endpoint is to blame when the request cannot be built, when the exchange fails although nobody
  cancelled it, and when the reply is not 2xx; the status and the message are what is recorded.
\<close>

definition endpoint_failure :: "stream_world \<Rightarrow> endpoint_config \<Rightarrow> message list \<times> tool_definition list \<times> json
    \<Rightarrow> (int \<times> string) option" where
  "endpoint_failure w cfg req =
     (case buildRequest (sw_getenv w) (sw_check_url w) (sw_show_float w) (sw_token w) cfg req of
        Inl e \<Rightarrow> Some (0, e)
      | Inr _ \<Rightarrow>
          (case sw_http w of
             NoReply e cancelled t \<Rightarrow> if cancelled then None else Some (0, e)
           | Reply status body evs c t \<Rightarrow>
               if status < 200 \<or> status \<ge> 300 then Some (status, trim_space (take 4096 body)) else None))"

text \<open>What is promised in each case.\<close>

definition failed_run :: "stream_world \<Rightarrow> router \<Rightarrow> redis_server \<Rightarrow> endpoint_config \<Rightarrow> int \<Rightarrow> string \<Rightarrow> stream_run \<Rightarrow> bool" where
  "failed_run w r s cfg status msg run \<longleftrightarrow>
     sr_err run \<noteq> None \<and> sr_tokens run = [] \<and> lr_ToolCalls (sr_result run) = [] \<and> \<not> lr_Interrupted (sr_result run)
     \<and> sr_server run = fst (blacklistForLiveError (sw_encode w) (sw_decode w) (sw_wget w) (sw_wset w)
          (sw_meanwhile w) s (sw_iso w) (ec_Key cfg) (classifyError status msg) status msg)
     \<and> sr_polls run = triggerPoll r ''live_call_error''"

definition spared_run :: "router \<Rightarrow> redis_server \<Rightarrow> selection \<Rightarrow> stream_run \<Rightarrow> bool" where
  "spared_run r s sel run \<longleftrightarrow>
     sr_server run = s
     \<and> (case sr_err run of
          Some e \<Rightarrow> lr_Interrupted (sr_result run) \<and> lr_ToolCalls (sr_result run) = [] \<and> sr_polls run = []
        | None \<Rightarrow> sr_polls run =
            (if msFromDuration (lr_Total (sr_result run)) > liveCallSlowThresholdMs then triggerPoll r ''slow_live_call''
             else if sel_UsingFallback sel then triggerPoll r ''fallback_recovery'' else []))"

lemma stream_failed_run:
  "failed_run w r s cfg status msg
     (stream_failed w r s sel cfg req elapsed logged status msg err)"
  by (simp add: failed_run_def stream_failed_def handleError_def empty_result_def Let_def)

lemma stream_failed_model: "lr_Model (sr_result (stream_failed w r s sel cfg req elapsed l st m e)) = ec_Model cfg"
  by (simp add: stream_failed_def empty_result_def split_beta Let_def)

lemma stream_reply_model: "lr_Model (sr_result (stream_reply w r s sel cfg req st evs c t)) = ec_Model cfg"
  by (simp add: stream_reply_def Let_def split: prod.split option.split)

lemma stream_reply_spared: "spared_run r s sel (stream_reply w r s sel cfg req status evs c t)"
  by (simp add: spared_run_def stream_reply_def Let_def split: prod.split option.split)

lemma cancelled_spared:
  "lr_Interrupted res \<Longrightarrow> lr_ToolCalls res = [] \<Longrightarrow>
    spared_run r s sel \<lparr>sr_result = res, sr_err = Some e, sr_tokens = [], sr_server = s, sr_polls = [], sr_log = l\<rparr>"
  by (simp add: spared_run_def)

lemma NewRouter_group: "NewRouter getenv h grp rgn sink meta = Inr r \<Longrightarrow>
    ro_Group r = grp \<and> ro_Region r = rgn \<and> map_of modelGroups grp \<noteq> None"
  by (auto simp: NewRouter_def split: if_splits)

lemma us_selection:
  assumes "map_of modelGroups grp \<noteq> None"
  obtains sel cfg where "getFastestForGroup decode w1 w2 s grp ''us'' = Some sel"
    and "map_of endpointConfigs (sel_ConfigKey sel) = Some cfg"
proof -
  obtain mg where mg: "map_of modelGroups grp = Some mg" using assms by blast
  obtain c where c: "map_of endpointConfigs (mg_Fallback mg) = Some c" "region_match ''us'' c"
    using group_fallback(4) [OF mg] by blast
  from fallback_config [OF mg c(2,1)] have "groupConfigsForRegion grp ''us'' \<notin> {None, Some []}"
    by fastforce
  with selection_registered_main [where grp = grp and region = "''us''" and decode = decode and ?w1.0 = w1 and ?w2.0 = w2 and s = s] that show thesis
    by (auto simp: selection_ok_def split: option.splits)
qed

text \<open>
  C14: the live-error policy. For a router made for a registered group in the default region, a stream
  always has a registered endpoint. When the endpoint is to blame, the stream fails with no token and no
  tool call, exactly that endpoint is blacklisted with the classified error, and one re-poll is asked for;
  otherwise Redis is untouched, the stream fails only by being cancelled, then without tool calls and
  without a poll, and a completed one asks for a poll only when it was slow or served by the fallback group.
\<close>

theorem stream_policy:
  assumes "NewRouter getenv h grp rgn sink meta = Inr r" and "rgn = [] \<or> rgn = ''us''"
  shows "\<exists>sel cfg. getFastestForGroup (sw_decode w) (sw_pick1 w) (sw_pick2 w) s grp ''us'' = Some sel
    \<and> map_of endpointConfigs (sel_ConfigKey sel) = Some cfg
    \<and> lr_Model (sr_result (Stream w r s req)) = ec_Model cfg
    \<and> (case endpoint_failure w cfg req of
         Some (status, msg) \<Rightarrow> failed_run w r s cfg status msg (Stream w r s req)
       | None \<Rightarrow> spared_run r s sel (Stream w r s req))"
proof -
  have reg: "region r = ''us''" "ro_Group r = grp" and grp: "map_of modelGroups grp \<noteq> None"
    using assms NewRouter_group by (auto simp: region_def defaultRegion_def)
  obtain sel cfg where sel: "getFastestForGroup (sw_decode w) (sw_pick1 w) (sw_pick2 w) s grp ''us'' = Some sel"
    and cfg: "map_of endpointConfigs (sel_ConfigKey sel) = Some cfg"
    using us_selection [OF grp] .
  note run = Stream_def [of w r s req] reg sel cfg endpoint_failure_def stream_failed_model stream_failed_run
    stream_reply_model stream_reply_spared
  have "lr_Model (sr_result (Stream w r s req)) = ec_Model cfg
    \<and> (case endpoint_failure w cfg req of
         Some (status, msg) \<Rightarrow> failed_run w r s cfg status msg (Stream w r s req)
       | None \<Rightarrow> spared_run r s sel (Stream w r s req))"
  proof (cases "buildRequest (sw_getenv w) (sw_check_url w) (sw_show_float w) (sw_token w) cfg req")
    case (Inl e)
    then show ?thesis by (simp add: run)
  next
    case (Inr q)
    show ?thesis
    proof (cases "sw_http w")
      case (NoReply e c t)
      then show ?thesis by (cases c) (simp_all add: run Inr Let_def cancelled_spared empty_result_def)
    next
      case (Reply status body evs c t)
      then show ?thesis by (cases "status < 200 \<or> status \<ge> 300") (simp_all add: run Inr)
    qed
  qed
  with sel cfg show ?thesis by blast
qed

text \<open>No key is configured: the selected endpoint cannot be asked and is blacklisted.\<close>

definition wit_router :: router where
  "wit_router = \<lparr>ro_Group = ''gpt-oss120-fast'', ro_Region = [], ro_LogSink = False, ro_PromptMetadata = [],
     ro_pollTriggerURL = ''http://poll''\<rparr>"

definition wit_world :: "http_outcome \<Rightarrow> (string \<Rightarrow> string) \<Rightarrow> (string \<Rightarrow> sse_chunk option) \<Rightarrow> stream_world" where
  "wit_world http getenv decode_chunk = \<lparr>sw_getenv = getenv, sw_check_url = (\<lambda>u. None),
     sw_show_float = (\<lambda>x. ''0''), sw_token = Inl [], sw_pick1 = steady, sw_pick2 = steady, sw_wget = steady,
     sw_wset = steady, sw_meanwhile = id, sw_encode = (\<lambda>h. ''failed''), sw_decode = wit_decode,
     sw_decode_chunk = decode_chunk, sw_iso = ''t'', sw_start = 0, sw_http = http\<rparr>"

lemma wit_router_new: "NewRouter (\<lambda>v. if v = pollTriggerURLEnv then ''http://poll'' else []) True ''gpt-oss120-fast'' [] False []
    = Inr wit_router"
  by code_simp

theorem stream_policy_witness:
  "\<exists>cfg :: endpoint_config. lr_Model (sr_result (Stream (wit_world (NoReply ''eof'' False 5) (\<lambda>v. []) (\<lambda>d. None)) wit_router
     empty_server ([], [], JNull))) = ec_Model cfg"
  using stream_policy [OF wit_router_new disjI1 [OF refl], of "wit_world (NoReply ''eof'' False 5) (\<lambda>v. []) (\<lambda>d. None)"
      empty_server "([], [], JNull)"]
  by blast

text \<open>
  Polls are rate limited. Once some router has posted a poll for a group, no router of the group, in
  this pod or another, posts again within a minute, for whatever reason and whatever happens to the
  replies of Redis, as long as nobody else deletes the lock.
\<close>

theorem polls_rate_limited:
  assumes "run_poll w r reason s = (s', Some q)" and "ro_Group r' = ro_Group r"
    and "rs_now later < rs_now s + 60 * second"
    and "cached later (pollLockPrefix @ '':'' @ ro_Group r) =
         cached (at_time (rs_now later) s') (pollLockPrefix @ '':'' @ ro_Group r)"
  shows "run_poll w' r' reason' later = (later, None)"
proof -
  let ?key = "pollLockPrefix @ '':'' @ ro_Group r"
  have ttl: "0 < groupPollLockTTL" by (simp add: groupPollLockTTL_def second_def)
  have "AcquireLock w s ?key groupPollLockTTL = (s', Inr True)"
    using assms(1) by (auto simp: run_poll_def split_beta Let_def prod_eq_iff split: sum.splits if_splits)
  then have "s' = set_key ?key ''1'' groupPollLockTTL s" using lock_taken [OF _ ttl] by blast
  then have "cached later ?key \<noteq> None"
    using lock_lives [of "rs_now later" s groupPollLockTTL ?key "''1''"] assms(3,4) by (simp add: groupPollLockTTL_def)
  from lock_held [OF this ttl, of w'] show ?thesis
    by (auto simp: run_poll_def assms(2) split_beta Let_def prod_eq_iff split: sum.split)
qed

lemma wit_poll: "run_poll steady wit_router ''slow_live_call'' empty_server =
    (set_key ''poll_openai_models_lock:gpt-oss120-fast'' ''1'' (60 * second) empty_server,
     Some (postPoll wit_router ''slow_live_call''))"
  by code_simp

theorem polls_rate_limited_witness:
  "run_poll flaky wit_router ''live_call_error''
     (at_time 7 (set_key ''poll_openai_models_lock:gpt-oss120-fast'' ''1'' (60 * second) empty_server))
   = (at_time 7 (set_key ''poll_openai_models_lock:gpt-oss120-fast'' ''1'' (60 * second) empty_server), None)"
  by (rule polls_rate_limited [OF wit_poll refl])
     (simp_all add: at_time_def empty_server_def second_def)

section \<open>What a served turn says\<close>

text \<open>The chunks that count: up to the end marker.\<close>

fun chunks_of :: "(string \<Rightarrow> sse_chunk option) \<Rightarrow> sse_event list
    \<Rightarrow> (gotime \<times> string \<times> (int \<times> tool_call) list) list" where
  "chunks_of decode_chunk [] = []"
| "chunks_of decode_chunk (ev # evs) =
     (case parseSSEChunk decode_chunk (se_line ev) of
        Done \<Rightarrow> []
      | Skip \<Rightarrow> chunks_of decode_chunk evs
      | Delta content toolDeltas fr usage \<Rightarrow> (se_time ev, content, toolDeltas) # chunks_of decode_chunk evs)"

lemma on_delta_parts:
  "ss_tokens (on_delta t c ds fr u st) = ss_tokens st @ (if c = [] then [] else [(t, c)])"
  "ss_tools (on_delta t c ds fr u st) = foldl (\<lambda>a (i, d). acc_Add a i d) (ss_tools st) ds"
  by (auto simp: on_delta_def mark_first_def Let_def split: option.split)

lemma scan_loop_chunks:
  assumes "\<forall>ev \<in> set evs. \<not> se_cancelled ev"
  shows "snd (scan_loop dec evs st) = None
    \<and> ss_tokens (fst (scan_loop dec evs st)) =
        ss_tokens st @ filter (\<lambda>tc. snd tc \<noteq> []) (map (\<lambda>(t, c, ds). (t, c)) (chunks_of dec evs))
    \<and> ss_tools (fst (scan_loop dec evs st)) =
        foldl (\<lambda>a (i, d). acc_Add a i d) (ss_tools st) (concat (map (\<lambda>(t, c, ds). ds) (chunks_of dec evs)))"
  using assms
proof (induction evs arbitrary: st)
  case (Cons ev evs)
  then show ?case
    by (cases "parseSSEChunk dec (se_line ev)") (simp_all add: on_delta_parts)
qed simp

text \<open>
  The client's interface (\<open>LLMClient\<close> of \<open>llm_processor.go\<close>): a completion delivers every non-empty
  delta and nothing else, and its tool calls come with its result.
\<close>

locale llm_client =
  fixes complete :: "'w \<Rightarrow> 'q \<Rightarrow> stream_outcome"
  assumes nonempty_tokens: "(t, c) \<in> set (so_tokens (complete w q)) \<Longrightarrow> c \<noteq> []"
begin

lemma turn_frames_tokens:
  "turn_frames (fst (snd (runLLM p (complete w q)))) =
     [(LLMResponseStartFrame (so_start (complete w q)), Downstream)]
     @ map (\<lambda>tc. (TextFrame (snd tc), Downstream)) (so_tokens (complete w q))
     @ (if so_cancelled (complete w q) then [] else [(LLMResponseEndFrame, Downstream)])"
proof -
  have "filter (\<lambda>c. c \<noteq> []) (map snd (so_tokens (complete w q))) = map snd (so_tokens (complete w q))"
    using nonempty_tokens by (auto simp: filter_id_conv)
  then show ?thesis using turn_well_formed [of p "complete w q"] by (simp add: comp_def)
qed

end

text \<open>
  The processor's view of a stream of the router: it started the turn at \<open>t0\<close>, and saw the client
  return at \<open>t1\<close>, with the turn's context cancelled or not.
\<close>

definition router_client :: "stream_world \<times> router \<times> redis_server \<times> gotime \<times> gotime \<times> bool
    \<Rightarrow> message list \<times> tool_definition list \<times> json \<Rightarrow> stream_outcome" where
  "router_client wr req =
     (case wr of (w, r, s, t0, t1, cancelled) \<Rightarrow>
        let run = Stream w r s req
        in \<lparr>so_start = t0, so_tokens = sr_tokens run, so_Model = lr_Model (sr_result run),
            so_TTFB = lr_TTFB (sr_result run), so_ToolCalls = lr_ToolCalls (sr_result run), so_err = sr_err run,
            so_cancelled = cancelled, so_end = t1\<rparr>)"

lemma router_client_parts:
  defines "so \<equiv> \<lambda>w r s t0 t1 cancelled req. router_client (w, r, s, t0, t1, cancelled) req"
  shows "so_start (so w r s t0 t1 cancelled req) = t0"
    "so_tokens (so w r s t0 t1 cancelled req) = sr_tokens (Stream w r s req)"
    "so_ToolCalls (so w r s t0 t1 cancelled req) = lr_ToolCalls (sr_result (Stream w r s req))"
    "so_err (so w r s t0 t1 cancelled req) = sr_err (Stream w r s req)"
    "so_cancelled (so w r s t0 t1 cancelled req) = cancelled"
  by (simp_all add: so_def router_client_def Let_def)

lemma scan_loop_nonempty:
  "(t, c) \<in> set (ss_tokens (fst (scan_loop dec evs st))) \<Longrightarrow> (t, c) \<in> set (ss_tokens st) \<or> c \<noteq> []"
proof (induction evs arbitrary: st)
  case (Cons ev evs)
  show ?case
  proof (cases "se_cancelled ev")
    case False
    then show ?thesis using Cons
      by (cases "parseSSEChunk dec (se_line ev)") (fastforce simp: on_delta_parts split: if_splits)+
  qed (use Cons in simp)
qed simp

lemma stream_start_parts [simp]:
  "ss_tokens stream_start = []" "ss_tools stream_start = NewToolCallAccumulator"
  by (simp_all add: stream_start_def)

lemma stream_reply_tokens:
  "sr_tokens (stream_reply w r s sel cfg req st evs c t) = ss_tokens (fst (scan_loop (sw_decode_chunk w) evs stream_start))"
  by (simp add: stream_reply_def Let_def split: prod.split option.split)

lemma Stream_tokens_nonempty: "(t, c) \<in> set (sr_tokens (Stream w r s req)) \<Longrightarrow> c \<noteq> []"
  using scan_loop_nonempty [of t c "sw_decode_chunk w" _ stream_start]
  by (auto simp: Stream_def stream_failed_def Let_def split_beta stream_reply_tokens
      split: option.splits sum.splits http_outcome.splits if_splits)

interpretation routed: llm_client router_client
  by unfold_locales (auto simp: router_client_def Let_def dest: Stream_tokens_nonempty split: prod.splits)

text \<open>
  C10: what the endpoint says is what the turn says. When the selected endpoint answers with a 2xx and
  nobody cancels the reading, the frames of the turn are one response start, a text frame for each
  non-empty content of the chunks before the end marker, in order, and a response end unless the turn was
  cancelled by then; the tool calls it executes are those accumulated from all deltas of those chunks.
\<close>

theorem served_turn:
  fixes p t0 t1 cancelled
  assumes "getFastestForGroup (sw_decode w) (sw_pick1 w) (sw_pick2 w) s (ro_Group r) (region r) = Some sel"
    and "map_of endpointConfigs (sel_ConfigKey sel) = Some cfg" and "endpoint_failure w cfg req = None"
    and "sw_http w = Reply status body evs c t" and "\<forall>ev \<in> set evs. \<not> se_cancelled ev"
  defines "chunks \<equiv> chunks_of (sw_decode_chunk w) evs"
    and "turn \<equiv> runLLM p (router_client (w, r, s, t0, t1, cancelled) req)"
  shows "turn_frames (fst (snd turn)) =
      [(LLMResponseStartFrame t0, Downstream)]
      @ concat (map (\<lambda>(t, content, ds). if content = [] then [] else [(TextFrame content, Downstream)]) chunks)
      @ (if cancelled then [] else [(LLMResponseEndFrame, Downstream)])
    \<and> snd (snd turn) =
      (if cancelled then [] else acc_List (acc_run (concat (map (\<lambda>(t, content, ds). ds) chunks))))"
proof -
  have run: "Stream w r s req = stream_reply w r s sel cfg req status evs c t"
    using assms(1-4) by (auto simp: Stream_def endpoint_failure_def split: sum.splits if_splits)
  note scan = scan_loop_chunks [OF assms(5), of "sw_decode_chunk w" stream_start]
  have tokens: "sr_tokens (Stream w r s req) =
      filter (\<lambda>tc. snd tc \<noteq> []) (map (\<lambda>(t, c, ds). (t, c)) chunks)"
    using scan by (simp add: run stream_reply_tokens chunks_def)
  have calls: "sr_err (Stream w r s req) = None" "lr_ToolCalls (sr_result (Stream w r s req)) =
      acc_List (acc_run (concat (map (\<lambda>(t, content, ds). ds) chunks)))"
    using scan by (auto simp: run stream_reply_def Let_def chunks_def acc_run_def split: prod.split option.split)
  have texts: "map (\<lambda>tc. (TextFrame (snd tc), Downstream)) (filter (\<lambda>tc. snd tc \<noteq> []) (map (\<lambda>(t, c, ds). (t, c)) cs))
      = concat (map (\<lambda>(t, content, ds). if content = [] then [] else [(TextFrame content, Downstream)]) cs)" for cs :: "(gotime \<times> string \<times> (int \<times> tool_call) list) list"
    by (induction cs) auto
  show ?thesis
    using routed.turn_frames_tokens [of p "(w, r, s, t0, t1, cancelled)" req]
      conjunct2 [OF turn_well_formed [of p "router_client (w, r, s, t0, t1, cancelled) req"]]
    by (simp add: turn_def router_client_parts tokens calls texts)
qed

text \<open>One content chunk, then the end marker.\<close>

definition wit_chunk :: "string \<Rightarrow> sse_chunk option" where
  "wit_chunk d = Some \<lparr>sc_Choices = [\<lparr>cc_Content = ''Hi'', cc_ToolCalls = [], cc_FinishReason = None\<rparr>],
     sc_Usage = None\<rparr>"

definition wit_events :: "sse_event list" where
  "wit_events = map (\<lambda>(t, l). \<lparr>se_time = t, se_cancelled = False, se_line = l\<rparr>)
     [(1, ''data: {}''), (2, []), (3, ''data: [DONE]''), (4, ''data: {}'')]"

definition wit_served :: stream_world where
  "wit_served = wit_world (Reply 200 [] wit_events False 5) (\<lambda>v. ''key'') wit_chunk"

definition wit_sel :: selection where
  "wit_sel = \<lparr>sel_ConfigKey = ''openrouter_gpt_oss_120b'', sel_UsingFallback = False,
     sel_SelectedGroup = ''gpt-oss120-fast''\<rparr>"

definition wit_cfg :: endpoint_config where
  "wit_cfg = the (map_of endpointConfigs ''openrouter_gpt_oss_120b'')"

lemma wit_served_sel: "getFastestForGroup (sw_decode wit_served) (sw_pick1 wit_served) (sw_pick2 wit_served)
    empty_server (ro_Group wit_router) (region wit_router) = Some wit_sel"
  by code_simp

lemma wit_served_cfg: "map_of endpointConfigs (sel_ConfigKey wit_sel) = Some wit_cfg"
  by code_simp

lemma wit_served_ok: "endpoint_failure wit_served wit_cfg ([], [], JNull) = None"
  by code_simp

lemma wit_served_http: "sw_http wit_served = Reply 200 [] wit_events False 5"
  by (simp add: wit_served_def wit_world_def)

lemma wit_served_chunks: "chunks_of (sw_decode_chunk wit_served) wit_events = [(1, ''Hi'', [])]"
  by code_simp

theorem served_turn_witness:
  "turn_frames (fst (snd (runLLM NewLLMProcessorWithClient
      (router_client (wit_served, wit_router, empty_server, 0, 6, False) ([], [], JNull))))) =
    [(LLMResponseStartFrame 0, Downstream), (TextFrame ''Hi'', Downstream), (LLMResponseEndFrame, Downstream)]"
  using served_turn [OF wit_served_sel wit_served_cfg wit_served_ok wit_served_http, where
      p = NewLLMProcessorWithClient and ?t0.0 = 0 and ?t1.0 = 6 and cancelled = False]
  by (simp add: wit_served_chunks) (simp add: wit_events_def)

end
