(* ===== verification/VertexToken.thy ===== *)
theory VertexToken
  imports Providers
begin

text \<open>
  The Vertex token source (\<open>llmrouter/vertex_token.go\<close>): a service-account key loaded once, a signed
  assertion, and the access token it is exchanged for, cached until shortly before it expires. Loading
  the key, RSA signing, parsing of keys and the HTTP exchange are arguments.
\<close>

definition vertexScope :: string where "vertexScope = ''https://www.googleapis.com/auth/cloud-platform''"
definition defaultGoogleToken :: string where "defaultGoogleToken = ''https://oauth2.googleapis.com/token''"
definition tokenRefreshSkew :: duration where "tokenRefreshSkew = 5 * 60 * second"
definition vertexCredsEnv :: string where "vertexCredsEnv = ''VERTEX_DISHAAI_CREDS_FILE''"

record service_account =
  sa_ClientEmail :: string
  sa_PrivateKey :: string
  sa_TokenURI :: string

record 'k token_source =
  vt_inited :: bool
  vt_sa :: service_account
  vt_key :: "'k option"
  vt_token :: string
  vt_expiresAt :: gotime

definition newVertexTokenSource :: "'k token_source" where
  "newVertexTokenSource = \<lparr>vt_inited = False, vt_sa = \<lparr>sa_ClientEmail = [], sa_PrivateKey = [], sa_TokenURI = []\<rparr>,
     vt_key = None, vt_token = [], vt_expiresAt = 0\<rparr>"

text \<open>The name of the environment variable that holds the S3 key of the credentials.\<close>

definition vertexCredsEnvForConfig :: "endpoint_config \<Rightarrow> string" where
  "vertexCredsEnvForConfig cfg =
     (if ec_VertexCredsEnv cfg \<noteq> [] then ec_VertexCredsEnv cfg
      else if ec_VertexProject cfg = ''gen-lang-client-0439239631'' then ''VERTEX_DISHAAI_CREDS_FILE''
      else if ec_VertexProject cfg = ''disha-ai2'' then ''VERTEX_DISHA_AI2_CREDS_FILE''
      else ''VERTEX_AI_CREDS_FILE'')"

text \<open>The process-wide sources, one for each variable; the key under which a source is found.\<close>

definition source_key :: "string \<Rightarrow> string" where
  "source_key envKey = (let k = trim_space envKey in if k = [] then vertexCredsEnv else k)"

definition vertexTokenSourceForEnv ::
  "(string \<times> 'k token_source) list \<Rightarrow> string \<Rightarrow> (string \<times> 'k token_source) list \<times> 'k token_source" where
  "vertexTokenSourceForEnv sources envKey =
     (case map_of sources (source_key envKey) of
        Some src \<Rightarrow> (sources, src)
      | None \<Rightarrow> ((source_key envKey, newVertexTokenSource) # sources, newVertexTokenSource))"

text \<open>
  The world of one \<open>Token\<close> call. The decoders of the library are among it: PEM gives the bytes of the
  first block, PKCS#8 a private key of any algorithm, PKCS#1 an RSA key.
\<close>

datatype 'k pkcs8_key = RSAKey 'k | OtherKey

record 'k token_world =
  tw_load :: "string + string"
  tw_parse :: "string \<Rightarrow> string + service_account"
  tw_pem :: "string \<Rightarrow> byte list option"
  tw_pkcs8 :: "byte list \<Rightarrow> 'k pkcs8_key option"
  tw_pkcs1 :: "byte list \<Rightarrow> 'k option"
  tw_sign :: "'k \<Rightarrow> string \<Rightarrow> string + string"
  tw_check_url :: "string \<Rightarrow> string option"
  tw_post :: "string \<Rightarrow> string \<Rightarrow> string + (int \<times> string \<times> int \<times> string \<times> string)"
  tw_sign_time :: gotime
  tw_done_time :: gotime

text \<open>\<open>base64.RawURLEncoding\<close>.\<close>

definition b64_char :: "nat \<Rightarrow> char" where
  "b64_char n = ''ABCDEFGHIJKLMNOPQRSTUVWXYZabcdefghijklmnopqrstuvwxyz0123456789-_'' ! n"

fun base64URL :: "string \<Rightarrow> string" where
  "base64URL (a # b # c # r) =
     [b64_char (code a div 4), b64_char (code a mod 4 * 16 + code b div 16),
      b64_char (code b mod 16 * 4 + code c div 64), b64_char (code c mod 64)] @ base64URL r"
| "base64URL [a, b] =
     [b64_char (code a div 4), b64_char (code a mod 4 * 16 + code b div 16), b64_char (code b mod 16 * 4)]"
| "base64URL [a] = [b64_char (code a div 4), b64_char (code a mod 4 * 16)]"
| "base64URL [] = []"

definition unix_seconds :: "gotime \<Rightarrow> int" where
  "unix_seconds t = t div second"

definition signedJWT :: "('k \<Rightarrow> string \<Rightarrow> string + string) \<Rightarrow> gotime \<Rightarrow> 'k \<Rightarrow> service_account \<Rightarrow> string + string" where
  "signedJWT sign now key sa =
     (let header = json_marshal (JObj [(''alg'', JStr ''RS256''), (''typ'', JStr ''JWT'')]);
          claims = json_marshal (JObj
            [(''iss'', JStr (sa_ClientEmail sa)), (''scope'', JStr vertexScope), (''aud'', JStr (sa_TokenURI sa)),
             (''iat'', JNum (int_str (unix_seconds now))),
             (''exp'', JNum (int_str (unix_seconds (now + 3600 * second))))]);
          signingInput = base64URL header @ ''.'' @ base64URL claims
      in case sign key signingInput of
           Inl e \<Rightarrow> Inl (''llmrouter: sign vertex JWT: '' @ e)
         | Inr sig \<Rightarrow> Inr (signingInput @ ''.'' @ base64URL sig))"

definition parseRSAPrivateKey :: "'k token_world \<Rightarrow> string \<Rightarrow> string + 'k" where
  "parseRSAPrivateKey w pemStr =
     (case tw_pem w pemStr of
        None \<Rightarrow> Inl ''llmrouter: vertex private_key is not valid PEM''
      | Some block \<Rightarrow>
          (case tw_pkcs8 w block of
             Some (RSAKey key) \<Rightarrow> Inr key
           | Some OtherKey \<Rightarrow> Inl ''llmrouter: vertex private_key is not RSA''
           | None \<Rightarrow>
               (case tw_pkcs1 w block of
                  Some key \<Rightarrow> Inr key
                | None \<Rightarrow> Inl ''llmrouter: unable to parse vertex private_key (PKCS#8/PKCS#1)'')))"

definition ensureCreds :: "'k token_world \<Rightarrow> 'k token_source \<Rightarrow> string + 'k token_source" where
  "ensureCreds w src =
     (if vt_inited src then Inr src
      else case tw_load w of
        Inl e \<Rightarrow> Inl e
      | Inr raw \<Rightarrow>
          (if raw = [] then Inl ''llmrouter: empty vertex service-account JSON''
           else case tw_parse w raw of
             Inl e \<Rightarrow> Inl (''llmrouter: parse vertex service account: '' @ e)
           | Inr sa0 \<Rightarrow>
               (if sa_ClientEmail sa0 = [] \<or> sa_PrivateKey sa0 = []
                then Inl ''llmrouter: vertex service account missing client_email/private_key''
                else let sa = (if sa_TokenURI sa0 = [] then sa0\<lparr>sa_TokenURI := defaultGoogleToken\<rparr> else sa0)
                     in case parseRSAPrivateKey w (sa_PrivateKey sa) of
                          Inl e \<Rightarrow> Inl e
                        | Inr key \<Rightarrow> Inr (src\<lparr>vt_sa := sa, vt_key := Some key, vt_inited := True\<rparr>))))"

text \<open>The exchange: the token and its lifetime in seconds, an hour when the reply gives none.\<close>

definition exchange :: "'k token_world \<Rightarrow> 'k \<Rightarrow> service_account \<Rightarrow> string + (string \<times> int)" where
  "exchange w key sa =
     (case signedJWT (tw_sign w) (tw_sign_time w) key sa of
        Inl e \<Rightarrow> Inl e
      | Inr assertion \<Rightarrow>
          (case tw_check_url w (sa_TokenURI sa) of
             Some e \<Rightarrow> Inl e
           | None \<Rightarrow>
               (case tw_post w (sa_TokenURI sa) assertion of
                  Inl e \<Rightarrow> Inl e
                | Inr (status, access, expires, err, desc) \<Rightarrow>
                    if status < 200 \<or> status \<ge> 300 \<or> access = []
                    then Inl (''llmrouter: vertex token exchange failed ('' @ int_str status @ ''): '' @ err @ '' '' @ desc)
                    else Inr (access, if expires \<le> 0 then 3600 else expires))))"

definition Token :: "'k token_world \<Rightarrow> gotime \<Rightarrow> 'k token_source \<Rightarrow> 'k token_source \<times> (string + string)" where
  "Token w now src =
     (if vt_token src \<noteq> [] \<and> now < vt_expiresAt src - tokenRefreshSkew then (src, Inr (vt_token src))
      else case ensureCreds w src of
        Inl e \<Rightarrow> (src, Inl e)
      | Inr src1 \<Rightarrow>
          (case exchange w (the (vt_key src1)) (vt_sa src1) of
             Inl e \<Rightarrow> (src1, Inl e)
           | Inr (tok, expiresIn) \<Rightarrow>
               (src1\<lparr>vt_token := tok, vt_expiresAt := tw_done_time w + expiresIn * second\<rparr>, Inr tok)))"

section \<open>The cached token\<close>

text \<open>Loaded credentials are complete, and a cached token came with them.\<close>

definition source_ok :: "'k token_source \<Rightarrow> bool" where
  "source_ok src \<longleftrightarrow>
     (vt_inited src = (vt_key src \<noteq> None)) \<and> (vt_token src \<noteq> [] \<longrightarrow> vt_inited src)
     \<and> (vt_inited src \<longrightarrow> sa_ClientEmail (vt_sa src) \<noteq> [] \<and> sa_TokenURI (vt_sa src) \<noteq> [])"

lemma source_ok_new: "source_ok newVertexTokenSource"
  by (simp add: source_ok_def newVertexTokenSource_def)

lemma ensureCreds_ok: "source_ok src \<Longrightarrow> ensureCreds w src = Inr src1 \<Longrightarrow>
    source_ok src1 \<and> vt_inited src1 \<and> vt_token src1 = vt_token src \<and> vt_expiresAt src1 = vt_expiresAt src"
  by (auto simp: ensureCreds_def source_ok_def Let_def defaultGoogleToken_def split: if_splits sum.splits)

lemma Token_cached: "vt_token src \<noteq> [] \<Longrightarrow> now < vt_expiresAt src - tokenRefreshSkew \<Longrightarrow>
    Token w now src = (src, Inr (vt_token src))"
  by (simp add: Token_def)

lemma exchange_Inr: "exchange w key sa = Inr (tok, n) \<Longrightarrow> tok \<noteq> [] \<and> 0 < n"
  by (auto simp: exchange_def split: sum.splits option.splits prod.splits if_splits)


definition wit_token_world :: "unit token_world" where
  "wit_token_world = \<lparr>tw_load = Inr ''{}'',
     tw_parse = (\<lambda>r. Inr \<lparr>sa_ClientEmail = ''a'', sa_PrivateKey = ''k'', sa_TokenURI = []\<rparr>),
     tw_pem = (\<lambda>p. Some []), tw_pkcs8 = (\<lambda>b. Some (RSAKey ())), tw_pkcs1 = (\<lambda>b. None), tw_sign = (\<lambda>k s. Inr ''sig''), tw_check_url = (\<lambda>u. None),
     tw_post = (\<lambda>u a. Inr (200, ''tok'', 600, [], [])), tw_sign_time = 0, tw_done_time = 0\<rparr>"

lemma wit_token: "fst (Token wit_token_world 0 newVertexTokenSource)
    = \<lparr>vt_inited = True, vt_sa = \<lparr>sa_ClientEmail = ''a'', sa_PrivateKey = ''k'', sa_TokenURI = defaultGoogleToken\<rparr>,
       vt_key = Some (), vt_token = ''tok'', vt_expiresAt = 600 * second\<rparr>"
  by (simp add: Token_def newVertexTokenSource_def ensureCreds_def parseRSAPrivateKey_def exchange_def signedJWT_def
      wit_token_world_def Let_def trim_space_def defaultGoogleToken_def)


end
