(* ===== verification/Startup.thy ===== *)
theory Startup
  imports Providers Redis
begin

text \<open>
  Starting a call (\<open>disha/call_startup.go\<close>, \<open>disha/tool_context_chunks.go\<close>, the types of
  \<open>disha/types.go\<close> it reads): the conversation is loaded from Redis, its stored chunks are replayed as
  the initial messages of the model, and a resumed call is told how to resume. A chunk tuple is a list of
  decoded JSON values; object keys are matched exactly.
\<close>

section \<open>The conversation's data\<close>

record conversation_row =
  cr_ID :: string
  cr_UserID :: string
  cr_BotType :: string
  cr_PatientInfo :: string
  cr_Direction :: string
  cr_Agenda :: string
  cr_DynamicVariables :: "(string \<times> json) list"
  cr_CallFlowKey :: string
  cr_CompiledCallFlowS3Key :: string
  cr_ResumedFromChunkID :: "string option"
  cr_ResumeGracefully :: "bool option"
  cr_StartChunkID :: "string option"
  cr_EndChunkID :: "string option"

record user_profile =
  up_UserID :: string
  up_Phone :: string
  up_RemainingTalktimeSeconds :: "rat option"
  up_CampaignFlag :: "string option"
  up_ShortTermMemory :: "string option"
  up_LastDietChartXML :: string
  up_IdealCallTimeSlots :: "(string \<times> json) list"
  up_DevanagariName :: string
  up_FirstName :: string
  up_Name :: string
  up_Gender :: string

record conversation_data =
  cd_Conversation :: conversation_row
  cd_Chunks :: "json list list"
  cd_UserProfile :: user_profile
  cd_UnprocessedChatContext :: "string option"
  cd_ResumedChunk :: "(string \<times> json) list"

record call_startup =
  su_ConversationID :: string
  su_UserID :: string
  su_BotType :: string
  su_Data :: conversation_data

datatype startup_error =
    MissingConversationID
  | MissingRedis
  | MissingAPI
  | LoadError "conversation_data conversation_load"
  | UnsupportedBotType string
  | MissingUserID

definition collectCallStartup ::
  "(string \<Rightarrow> conversation_data option) \<Rightarrow> network \<Rightarrow> redis_server \<Rightarrow> bool \<Rightarrow> bool \<Rightarrow> string \<Rightarrow> string
   \<Rightarrow> startup_error + call_startup" where
  "collectCallStartup decode w s hasRedis hasAPI conversationID expectedBotType =
     (if conversationID = [] then Inl MissingConversationID
      else if \<not> hasRedis then Inl MissingRedis
      else if \<not> hasAPI then Inl MissingAPI
      else case GetConversationData decode w s conversationID of
        Loaded d \<Rightarrow>
          (if expectedBotType \<noteq> [] \<and> cr_BotType (cd_Conversation d) \<noteq> expectedBotType
           then Inl (UnsupportedBotType (cr_BotType (cd_Conversation d)))
           else let userID = (if cr_UserID (cd_Conversation d) = [] then up_UserID (cd_UserProfile d)
                              else cr_UserID (cd_Conversation d))
                in if userID = [] then Inl MissingUserID
                   else Inr \<lparr>su_ConversationID = conversationID, su_UserID = userID,
                     su_BotType = cr_BotType (cd_Conversation d), su_Data = d\<rparr>)
      | failure \<Rightarrow> Inl (LoadError failure))"

section \<open>Replaying chunks\<close>

text \<open>A type assertion that ignores failure gives the zero value.\<close>

fun as_string :: "json \<Rightarrow> string" where
  "as_string (JStr s) = s"
| "as_string _ = []"

fun as_bool :: "json \<Rightarrow> bool" where
  "as_bool (JBool b) = b"
| "as_bool _ = False"

text \<open>\<open>json.Unmarshal\<close> of a value into a string field, a function and a tool call; null changes nothing.\<close>

fun string_field :: "json option \<Rightarrow> string option" where
  "string_field None = Some []"
| "string_field (Some JNull) = Some []"
| "string_field (Some (JStr s)) = Some s"
| "string_field (Some _) = None"

fun function_of_json :: "json option \<Rightarrow> tool_call_function option" where
  "function_of_json (Some (JObj kvs)) =
     (case (string_field (map_of kvs ''name''), string_field (map_of kvs ''arguments'')) of
        (Some n, Some a) \<Rightarrow> Some \<lparr>tcf_Name = n, tcf_Arguments = a\<rparr> | _ \<Rightarrow> None)"
| "function_of_json None = Some \<lparr>tcf_Name = [], tcf_Arguments = []\<rparr>"
| "function_of_json (Some JNull) = Some \<lparr>tcf_Name = [], tcf_Arguments = []\<rparr>"
| "function_of_json (Some _) = None"

fun tool_call_of_json :: "json \<Rightarrow> tool_call option" where
  "tool_call_of_json (JObj kvs) =
     (case (string_field (map_of kvs ''id''), string_field (map_of kvs ''type''), function_of_json (map_of kvs ''function'')) of
        (Some i, Some t, Some f) \<Rightarrow> Some \<lparr>tc_ID = i, tc_Type = t, tc_Function = f\<rparr> | _ \<Rightarrow> None)"
| "tool_call_of_json JNull = Some zero_call"
| "tool_call_of_json _ = None"

fun tool_calls_of_json :: "json \<Rightarrow> tool_call list option" where
  "tool_calls_of_json (JArr vs) = those (map tool_call_of_json vs)"
| "tool_calls_of_json JNull = Some []"
| "tool_calls_of_json _ = None"

definition messageFromToolContextChunk :: "string \<Rightarrow> string \<Rightarrow> json \<Rightarrow> message option" where
  "messageFromToolContextChunk role txt additionalData =
     (case additionalData of
        JObj data \<Rightarrow>
          (case map_of data ''tool_calls'' of
             Some raw \<Rightarrow>
               (case tool_calls_of_json raw of
                  None \<Rightarrow> None
                | Some toolCalls \<Rightarrow>
                    if length toolCalls = 0 then None
                    else Some \<lparr>msg_Role = role, msg_Content = [], msg_ToolCalls = toolCalls, msg_ToolCallID = []\<rparr>)
           | None \<Rightarrow>
               (case map_of data ''tool_call_id'' of
                  Some (JStr i) \<Rightarrow>
                    if i \<noteq> [] then Some \<lparr>msg_Role = role, msg_Content = txt, msg_ToolCalls = [], msg_ToolCallID = i\<rparr>
                    else None
                | _ \<Rightarrow> None))
      | _ \<Rightarrow> None)"

definition messageFromChunkTuple :: "json list \<Rightarrow> message option" where
  "messageFromChunkTuple tuple =
     (if length tuple < 4 then None
      else if as_bool (tuple ! 3) then None
      else if length tuple \<ge> 5 \<and> isTruthyJSON (tuple ! 4)
      then messageFromToolContextChunk (as_string (tuple ! 1)) (as_string (tuple ! 2)) (tuple ! 4)
      else Some (text_message (as_string (tuple ! 1)) (as_string (tuple ! 2))))"

definition toolContextAdditionalData :: "message \<Rightarrow> json" where
  "toolContextAdditionalData m =
     (if msg_Role m = ''assistant'' then
        (if length (msg_ToolCalls m) = 0 then JNull
         else JObj [(''tool_calls'', JArr (map tool_call_json (msg_ToolCalls m)))])
      else if msg_Role m = ''tool'' then
        (if msg_ToolCallID m = [] then JNull else JObj [(''tool_call_id'', JStr (msg_ToolCallID m))])
      else JNull)"

section \<open>Reordering tool results\<close>

definition plain :: "message \<Rightarrow> bool" where
  "plain m \<longleftrightarrow> msg_Role m \<noteq> ''tool'' \<or> msg_ToolCallID m = []"

text \<open>The tool messages by id, and the ids in the order first seen: one association list.\<close>

fun add_result :: "message \<Rightarrow> (string \<times> message list) list \<Rightarrow> (string \<times> message list) list" where
  "add_result m [] = [(msg_ToolCallID m, [m])]"
| "add_result m ((i, ms) # rest) =
     (if i = msg_ToolCallID m then (i, ms @ [m]) # rest else (i, ms) # add_result m rest)"

definition toolMessagesByID :: "message list \<Rightarrow> (string \<times> message list) list" where
  "toolMessagesByID msgs = fold add_result (filter (\<lambda>m. \<not> plain m) msgs) []"

text \<open>The results of one message's calls, each taken out of the map.\<close>

fun take_results :: "tool_call list \<Rightarrow> (string \<times> message list) list \<Rightarrow> message list \<times> (string \<times> message list) list" where
  "take_results [] byID = ([], byID)"
| "take_results (tc # tcs) byID =
     (if tc_ID tc = [] then take_results tcs byID
      else case map_of byID (tc_ID tc) of
        None \<Rightarrow> take_results tcs byID
      | Some ms \<Rightarrow>
          (let (rs, rest) = take_results tcs (filter (\<lambda>kv. fst kv \<noteq> tc_ID tc) byID) in (ms @ rs, rest)))"

fun place_results :: "message list \<Rightarrow> (string \<times> message list) list \<Rightarrow> message list \<times> (string \<times> message list) list" where
  "place_results [] byID = ([], byID)"
| "place_results (m # ms) byID =
     (let (rs, byID1) = take_results (msg_ToolCalls m) byID; (out, byID2) = place_results ms byID1
      in (m # rs @ out, byID2))"

definition reorderToolResultMessages :: "message list \<Rightarrow> message list" where
  "reorderToolResultMessages msgs =
     (if length msgs = 0 then []
      else let byID = toolMessagesByID msgs
           in if length byID = 0 then msgs
              else let (ordered, left) = place_results (filter plain msgs) byID
                   in ordered @ concat (map snd left))"

section \<open>The initial messages\<close>

definition buildInitialMessages :: "string \<Rightarrow> json list list \<Rightarrow> string \<Rightarrow> message list" where
  "buildInitialMessages systemPrompt chunks resumeMessage =
     (let msgs = reorderToolResultMessages
                   (text_message ''system'' systemPrompt # List.map_filter messageFromChunkTuple chunks);
          hasPriorTurns = length msgs > 1;
          msgs1 = (if hasPriorTurns \<and> resumeMessage \<noteq> [] then msgs @ [text_message ''system'' resumeMessage] else msgs)
      in if \<not> hasPriorTurns then msgs1 @ [text_message ''user'' ''hello?''] else msgs1)"

definition resumeWindowGraceful :: duration where "resumeWindowGraceful = 5 * 60 * second"

definition resumeMessageGracefulWithinWindow :: string where
  "resumeMessageGracefulWithinWindow = join_with [CHR 0x0A]
     [''The conversation might have interrupted a few mins ago. Here's how to resume, follow carefully:'',
      ''1. If the interruption was user initiated (like '' @ [CHR 0x22] @ ''ill call you back, give me a min''
        @ [CHR 0x22] @ '') then say something like 'hanji to aap keh rhe the' and resume. Make sure to not acknowledge their interrupt request (this already happened), just continue.'',
      ''2. If not, make sure to first acknowledge the call being disconnected and then continue.'']"

definition resumeMessageAfterWindow :: string where
  "resumeMessageAfterWindow = ''This conversation was interrupted because the call ended. Now you have to resume this conversation by saying hi and acknowledge the things that have been discussed very briefly and inform the next agenda. Then ask the user if we should continue further''"

text \<open>
  \<open>parse_time\<close> is the first of the three layouts that parses, \<open>unix_of\<close> the time of a number of seconds.
\<close>

definition parseResumedChunkCreated :: "(string \<Rightarrow> gotime option) \<Rightarrow> (string \<Rightarrow> gotime) \<Rightarrow> (string \<times> json) list \<Rightarrow> gotime option" where
  "parseResumedChunkCreated parse_time unix_of payload =
     (case map_of payload ''created'' of
        Some (JStr v) \<Rightarrow> parse_time v
      | Some (JNum n) \<Rightarrow> Some (unix_of n)
      | _ \<Rightarrow> None)"

definition buildResumeSystemMessage :: "(string \<Rightarrow> gotime option) \<Rightarrow> (string \<Rightarrow> gotime) \<Rightarrow> conversation_data option
    \<Rightarrow> gotime \<Rightarrow> string" where
  "buildResumeSystemMessage parse_time unix_of data now =
     (case data of None \<Rightarrow> []
      | Some d \<Rightarrow>
          (case cr_ResumedFromChunkID (cd_Conversation d) of None \<Rightarrow> []
           | Some i \<Rightarrow>
               if trim_space i = [] \<or> length (cd_ResumedChunk d) = 0 then []
               else (case parseResumedChunkCreated parse_time unix_of (cd_ResumedChunk d) of
                       None \<Rightarrow> []
                     | Some created \<Rightarrow>
                         if cr_ResumeGracefully (cd_Conversation d) \<noteq> Some True then []
                         else if time_sub now created < resumeWindowGraceful then resumeMessageGracefulWithinWindow
                         else resumeMessageAfterWindow)))"

definition mergeShortTermMemory :: "string \<Rightarrow> string \<Rightarrow> string" where
  "mergeShortTermMemory shortTerm0 unprocessed0 =
     (let shortTerm = trim_space shortTerm0; unprocessed = trim_space unprocessed0
      in if shortTerm = [] \<and> unprocessed = [] then []
         else if shortTerm = [] then unprocessed
         else if unprocessed = [] then shortTerm
         else shortTerm @ [CHR 0x0A, CHR 0x0A] @ unprocessed)"

definition derefString :: "string option \<Rightarrow> string" where
  "derefString s = (case s of None \<Rightarrow> [] | Some v \<Rightarrow> v)"

fun firstNonEmptyString :: "string list \<Rightarrow> string" where
  "firstNonEmptyString [] = []"
| "firstNonEmptyString (v # vs) = (if trim_space v \<noteq> [] then trim_space v else firstNonEmptyString vs)"

section \<open>Reordering, without the map\<close>

text \<open>The results of an id, the ids a message requests, and those not requested before.\<close>

definition results :: "message list \<Rightarrow> string \<Rightarrow> message list" where
  "results msgs i = filter (\<lambda>m. \<not> plain m \<and> msg_ToolCallID m = i) msgs"

definition call_ids :: "message \<Rightarrow> string list" where
  "call_ids m = filter (\<lambda>i. i \<noteq> []) (map tc_ID (msg_ToolCalls m))"

fun fresh :: "string list \<Rightarrow> string list \<Rightarrow> string list" where
  "fresh seen [] = []"
| "fresh seen (i # is) = (if i \<in> set seen then fresh seen is else i # fresh (i # seen) is)"

text \<open>Each message followed by the results of the calls it is the first to request.\<close>

fun with_results :: "message list \<Rightarrow> string list \<Rightarrow> message list \<Rightarrow> message list" where
  "with_results msgs seen [] = []"
| "with_results msgs seen (m # ms) =
     m # concat (map (results msgs) (fresh seen (call_ids m))) @ with_results msgs (call_ids m @ seen) ms"

lemma map_of_add_result:
  "map_of (add_result m acc) i =
     (if i = msg_ToolCallID m then Some ((case map_of acc i of None \<Rightarrow> [] | Some ms \<Rightarrow> ms) @ [m]) else map_of acc i)"
  by (induction m acc rule: add_result.induct) auto

lemma keys_add_result:
  "map fst (add_result m acc) = map fst acc @ (if msg_ToolCallID m \<in> fst ` set acc then [] else [msg_ToolCallID m])"
  by (induction m acc rule: add_result.induct) auto

lemma mset_add_result: "mset (concat (map snd (add_result m acc))) = add_mset m (mset (concat (map snd acc)))"
  by (induction m acc rule: add_result.induct) auto

lemma add_results:
  "map_of (fold add_result ms acc) i =
     (case filter (\<lambda>m. msg_ToolCallID m = i) ms of [] \<Rightarrow> map_of acc i
      | new \<Rightarrow> Some ((case map_of acc i of None \<Rightarrow> [] | Some old \<Rightarrow> old) @ new))"
  by (induction ms arbitrary: acc) (auto simp: map_of_add_result split: list.split option.split)

lemma add_results_keys:
  "distinct (map fst acc) \<Longrightarrow> distinct (map fst (fold add_result ms acc))
     \<and> fst ` set (fold add_result ms acc) = fst ` set acc \<union> msg_ToolCallID ` set ms"
proof (induction ms arbitrary: acc)
  case (Cons m ms)
  have d: "distinct (map fst (add_result m acc))" using Cons.prems by (simp add: keys_add_result)
  have k: "fst ` set (add_result m acc) = insert (msg_ToolCallID m) (fst ` set acc)"
    using arg_cong [OF keys_add_result [of m acc], of set] by auto
  show ?case using Cons.IH [OF d] k by auto
qed simp

lemma add_results_mset: "mset (concat (map snd (fold add_result ms acc))) = mset ms + mset (concat (map snd acc))"
  by (induction ms arbitrary: acc) (simp_all add: mset_add_result)

lemma byID_keys: "distinct (map fst (toolMessagesByID msgs))"
  and byID_lookup: "map_of (toolMessagesByID msgs) i = (if results msgs i = [] then None else Some (results msgs i))"
  and byID_mset: "mset (concat (map snd (toolMessagesByID msgs))) = mset (filter (\<lambda>m. \<not> plain m) msgs)"
  using add_results_keys [of "[]" "filter (\<lambda>m. \<not> plain m) msgs"]
  by (auto simp: toolMessagesByID_def add_results add_results_mset results_def filter_filter conj_commute
      cong: conj_cong split: list.split)

lemma byID_entry: "(i, ms) \<in> set (toolMessagesByID msgs) \<Longrightarrow> ms = results msgs i"
  using map_of_is_SomeI [OF byID_keys] by (fastforce simp: byID_lookup split: if_splits)

lemma map_of_filter_key: "map_of (filter (\<lambda>kv. P (fst kv)) m) k = (if P k then map_of m k else None)"
  by (induction m) auto

lemma take_results_fresh:
  "take_results tcs (filter (\<lambda>kv. fst kv \<notin> set seen) (toolMessagesByID msgs)) =
     (concat (map (results msgs) (fresh seen (filter (\<lambda>i. i \<noteq> []) (map tc_ID tcs)))),
      filter (\<lambda>kv. fst kv \<notin> set (filter (\<lambda>i. i \<noteq> []) (map tc_ID tcs) @ seen)) (toolMessagesByID msgs))"
proof (induction tcs arbitrary: seen)
  case (Cons tc tcs)
  let ?i = "tc_ID tc"
  let ?left = "\<lambda>seen. filter (\<lambda>kv. fst kv \<notin> set seen) (toolMessagesByID msgs)"
  have look: "map_of (?left seen) ?i = (if ?i \<in> set seen \<or> results msgs ?i = [] then None else Some (results msgs ?i))"
    by (simp add: map_of_filter_key [of "\<lambda>k. k \<notin> set seen"] byID_lookup)
  have drop: "filter (\<lambda>kv. fst kv \<noteq> ?i) (?left seen) = ?left (?i # seen)"
    by (auto simp: filter_filter intro!: filter_cong)
  have same: "results msgs ?i = [] \<Longrightarrow> ?left (?i # seen) = ?left seen"
    using byID_lookup [of msgs ?i] by (intro filter_cong) (auto simp: map_of_eq_None_iff image_iff)
  have comm: "?left (is @ ?i # seen) = ?left (?i # is @ seen)" for "is" by (auto intro!: filter_cong)
  note ih = Cons.IH [of seen] Cons.IH [of "?i # seen"]
  consider "?i = []" | "?i \<noteq> []" "?i \<in> set seen" | "?i \<noteq> []" "?i \<notin> set seen" "results msgs ?i = []"
    | "?i \<noteq> []" "?i \<notin> set seen" "results msgs ?i \<noteq> []" by blast
  then show ?case
  proof cases
    case 1
    then show ?thesis by (simp add: ih(1))
  next
    case 2
    then show ?thesis using look ih(1) by (auto intro!: filter_cong)
  next
    case 3
    then show ?thesis using look ih(2) [unfolded same [OF 3(3)]] comm by simp
  next
    case 4
    then show ?thesis using look ih(2) drop comm by simp
  qed
qed simp

lemma place_results_fresh:
  "place_results ms (filter (\<lambda>kv. fst kv \<notin> set seen) (toolMessagesByID msgs)) =
     (with_results msgs seen ms,
      filter (\<lambda>kv. fst kv \<notin> set (concat (map call_ids ms) @ seen)) (toolMessagesByID msgs))"
proof (induction ms arbitrary: seen)
  case (Cons m ms)
  have "filter (\<lambda>kv. fst kv \<notin> set (concat (map call_ids ms) @ call_ids m @ seen)) (toolMessagesByID msgs) =
      filter (\<lambda>kv. fst kv \<notin> set (concat (map call_ids (m # ms)) @ seen)) (toolMessagesByID msgs)"
    by (intro filter_cong) auto
  then show ?case using Cons.IH [of "call_ids m @ seen"]
    by (simp add: take_results_fresh call_ids_def [symmetric])
qed simp

lemma taken_mset:
  "map_of byID i = Some ms \<Longrightarrow> distinct (map fst byID) \<Longrightarrow>
     mset (concat (map snd byID)) = mset ms + mset (concat (map snd (filter (\<lambda>kv. fst kv \<noteq> i) byID)))"
proof (induction byID)
  case (Cons e byID)
  have "fst e = i \<Longrightarrow> filter (\<lambda>kv. fst kv \<noteq> i) byID = byID"
    using Cons.prems(2) by (auto simp: filter_id_conv image_iff)
  with Cons show ?case by (cases e) (auto split: if_splits)
qed simp

definition holds :: "message list \<times> (string \<times> message list) list \<Rightarrow> message multiset" where
  "holds r = mset (fst r) + mset (concat (map snd (snd r)))"

lemma take_results_mset:
  "distinct (map fst byID) \<Longrightarrow> holds (take_results tcs byID) = mset (concat (map snd byID))
     \<and> distinct (map fst (snd (take_results tcs byID)))"
proof (induction tcs arbitrary: byID)
  case (Cons tc tcs)
  show ?case
  proof (cases "tc_ID tc = [] \<or> map_of byID (tc_ID tc) = None")
    case True
    then show ?thesis using Cons by auto
  next
    case False
    then obtain ms where ms: "map_of byID (tc_ID tc) = Some ms" by blast
    have "distinct (map fst (filter (\<lambda>kv. fst kv \<noteq> tc_ID tc) byID))"
      using Cons.prems by (simp add: distinct_map_filter)
    from Cons.IH [OF this] taken_mset [OF ms Cons.prems] False ms show ?thesis
      by (simp add: holds_def split_beta)
  qed
qed (simp add: holds_def)

lemma mset_shuffle:
  fixes t p r x m b :: "'a multiset"
  assumes "t + x = b" and "p + r = m + x"
  shows "(t + p) + r = m + b"
proof -
  have "(t + p) + r = t + (m + x)" unfolding add.assoc assms(2) ..
  also have "\<dots> = m + (t + x)" by (simp add: ac_simps)
  finally show ?thesis unfolding assms(1) .
qed

lemma place_results_mset:
  "distinct (map fst byID) \<Longrightarrow> holds (place_results ms byID) = mset ms + mset (concat (map snd byID))"
proof (induction ms arbitrary: byID)
  case (Cons m ms)
  let ?t = "take_results (msg_ToolCalls m) byID"
  have t: "mset (fst ?t) + mset (concat (map snd (snd ?t))) = mset (concat (map snd byID))"
    and d: "distinct (map fst (snd ?t))"
    using take_results_mset [OF Cons.prems, of "msg_ToolCalls m"] by (simp_all add: holds_def)
  from Cons.IH [OF d] have p: "mset (fst (place_results ms (snd ?t))) + mset (concat (map snd (snd (place_results ms (snd ?t)))))
      = mset ms + mset (concat (map snd (snd ?t)))"
    by (simp add: holds_def)
  have "holds (place_results (m # ms) byID) = add_mset m (mset ms + mset (concat (map snd byID)))"
    using mset_shuffle [OF t p] by (simp add: holds_def split_beta Let_def)
  then show ?case by simp
qed (simp add: holds_def)

lemma reorder_mset: "mset (reorderToolResultMessages msgs) = mset msgs"
proof -
  have "mset (filter plain msgs) + mset (filter (\<lambda>m. \<not> plain m) msgs) = mset msgs"
    by (simp add: mset_filter multiset_partition [symmetric])
  then show ?thesis using place_results_mset [OF byID_keys, of "filter plain msgs" msgs]
    by (auto simp: reorderToolResultMessages_def holds_def byID_mset split_beta Let_def)
qed

text \<open>The results nobody requested, in the order their ids were first seen.\<close>

definition orphans :: "message list \<Rightarrow> message list" where
  "orphans msgs = concat (map (results msgs)
     (filter (\<lambda>i. i \<notin> set (concat (map call_ids (filter plain msgs)))) (map fst (toolMessagesByID msgs))))"

lemma map_snd_byID: "map snd (filter P (toolMessagesByID msgs)) = map (results msgs \<circ> fst) (filter P (toolMessagesByID msgs))"
  using byID_entry by (auto simp: comp_def)

lemma with_results_no_results: "(\<And>i. results msgs i = []) \<Longrightarrow> with_results msgs seen ms = ms"
  by (induction ms arbitrary: seen) auto

lemma reorder_spec: "reorderToolResultMessages msgs = with_results msgs [] (filter plain msgs) @ orphans msgs"
proof (cases "toolMessagesByID msgs = []")
  case True
  then have none: "results msgs i = []" for i using byID_lookup [of msgs i] by (simp split: if_splits)
  have "filter (\<lambda>m. \<not> plain m) msgs = []"
    using none by (auto simp: results_def filter_empty_conv)
  then have "filter plain msgs = msgs" by (auto simp: filter_empty_conv filter_id_conv)
  then show ?thesis using True none by (simp add: reorderToolResultMessages_def orphans_def with_results_no_results)
next
  case False
  then have "msgs \<noteq> []" by (auto simp: toolMessagesByID_def)
  have all: "filter (\<lambda>kv. fst kv \<notin> set []) (toolMessagesByID msgs) = toolMessagesByID msgs" by simp
  have "concat (map snd (filter (\<lambda>kv. fst kv \<notin> set (concat (map call_ids (filter plain msgs)) @ [])) (toolMessagesByID msgs)))
      = orphans msgs"
    unfolding map_snd_byID orphans_def by (simp add: filter_map comp_def)
  then show ?thesis
    using False \<open>msgs \<noteq> []\<close> place_results_fresh [of "filter plain msgs" "[]" msgs]
    by (simp add: reorderToolResultMessages_def all del: concat.simps)
qed

lemma results_not_plain: "filter plain (results msgs i) = []"
  by (auto simp: results_def filter_empty_conv)

lemma filter_plain_concat: "filter plain (concat (map (results msgs) is)) = []"
  by (induction "is") (simp_all add: results_not_plain)

lemma with_results_plain: "filter plain (with_results msgs seen ms) = filter plain ms"
  by (induction ms arbitrary: seen) (simp_all add: filter_plain_concat)

lemma reorder_plain: "filter plain (reorderToolResultMessages msgs) = filter plain msgs"
  by (simp add: reorder_spec orphans_def with_results_plain filter_plain_concat)

text \<open>
  C21: replaying a stored conversation puts every tool result where the model needs it. The reordered
  messages are exactly the non-tool messages in their stored order, each followed at once by the results
  of the calls it is the first to request, in the order of its calls and, for one id, in stored order,
  with the results nobody requested last; nothing is lost or added.
\<close>

theorem tool_results_follow_requests:
  "reorderToolResultMessages msgs = with_results msgs [] (filter plain msgs) @ orphans msgs
   \<and> mset (reorderToolResultMessages msgs) = mset msgs
   \<and> filter plain (reorderToolResultMessages msgs) = filter plain msgs"
  by (simp add: reorder_spec [symmetric] reorder_mset reorder_plain)

section \<open>What was stored is replayed\<close>

text \<open>
  A stored conversation is a sequence of blocks: a text turn, or a tool request with its result. The
  tuple of a message holds its role, its text, that it is no debug line, and its additional data.
\<close>

definition text_turn :: "message \<Rightarrow> bool" where
  "text_turn m \<longleftrightarrow> msg_ToolCalls m = [] \<and> msg_ToolCallID m = []"

definition tool_pair :: "message \<Rightarrow> message \<Rightarrow> bool" where
  "tool_pair a t \<longleftrightarrow>
     msg_Role a = ''assistant'' \<and> msg_Content a = [] \<and> msg_ToolCallID a = []
     \<and> map tc_ID (msg_ToolCalls a) = [msg_ToolCallID t]
     \<and> msg_Role t = ''tool'' \<and> msg_ToolCallID t \<noteq> [] \<and> msg_ToolCalls t = []"

fun block_ok :: "message list \<Rightarrow> bool" where
  "block_ok [m] = text_turn m"
| "block_ok [a, t] = tool_pair a t"
| "block_ok _ = False"

fun block_ids :: "message list \<Rightarrow> string list" where
  "block_ids [a, t] = [msg_ToolCallID t]"
| "block_ids _ = []"

definition stored_tuple :: "message \<Rightarrow> json list \<Rightarrow> bool" where
  "stored_tuple m tuple \<longleftrightarrow> 5 \<le> length tuple \<and> tuple ! 1 = JStr (msg_Role m) \<and> tuple ! 2 = JStr (msg_Content m)
     \<and> tuple ! 3 = JBool False \<and> tuple ! 4 = toolContextAdditionalData m"

lemma tool_call_json_back: "tool_call_of_json (tool_call_json c) = Some c"
  by (cases c; cases "tc_Function c") (simp add: tool_call_json_def)

lemma tool_calls_json_back: "tool_calls_of_json (JArr (map tool_call_json cs)) = Some cs"
  by (induction cs) (simp_all add: tool_call_json_back)

lemma replay_text: "text_turn m \<Longrightarrow> stored_tuple m tuple \<Longrightarrow> messageFromChunkTuple tuple = Some m"
  by (cases m) (auto simp: stored_tuple_def messageFromChunkTuple_def toolContextAdditionalData_def text_turn_def text_message_def)

lemma replay_request: "tool_pair a t \<Longrightarrow> stored_tuple a tuple \<Longrightarrow> messageFromChunkTuple tuple = Some a"
  by (cases a) (auto simp: stored_tuple_def messageFromChunkTuple_def toolContextAdditionalData_def tool_pair_def
      messageFromToolContextChunk_def tool_calls_json_back simp del: tool_calls_of_json.simps)

lemma replay_result: "tool_pair a t \<Longrightarrow> stored_tuple t tuple \<Longrightarrow> messageFromChunkTuple tuple = Some t"
  by (cases t) (auto simp: stored_tuple_def messageFromChunkTuple_def toolContextAdditionalData_def tool_pair_def
      messageFromToolContextChunk_def)

lemma replay_block: "block_ok b \<Longrightarrow> list_all2 stored_tuple b tuples \<Longrightarrow> List.map_filter messageFromChunkTuple tuples = b"
  by (cases b rule: block_ok.cases)
     (auto simp: list_all2_Cons1 List.map_filter_def replay_text replay_request replay_result)

lemma map_filter_append: "List.map_filter f (xs @ ys) = List.map_filter f xs @ List.map_filter f ys"
  by (simp add: List.map_filter_def)

lemma replay_blocks:
  "list_all block_ok bs \<Longrightarrow> list_all2 stored_tuple (concat bs) tuples \<Longrightarrow>
     List.map_filter messageFromChunkTuple tuples = concat bs"
proof (induction bs arbitrary: tuples)
  case (Cons b bs)
  then obtain us vs where "tuples = us @ vs" "list_all2 stored_tuple b us" "list_all2 stored_tuple (concat bs) vs"
    by (auto simp: list_all2_append1)
  with Cons show ?case by (simp only: map_filter_append) (simp add: replay_block)
qed (simp add: List.map_filter_def)

lemma text_turn_plain [simp]: "text_turn m \<Longrightarrow> plain m \<and> call_ids m = []"
  by (simp add: text_turn_def plain_def call_ids_def)

lemma tool_pair_parts [simp]: "tool_pair a t \<Longrightarrow> plain a \<and> \<not> plain t \<and> call_ids a = [msg_ToolCallID t]"
  by (auto simp: tool_pair_def plain_def call_ids_def filter_map comp_def)

lemma results_append: "results (xs @ ys) i = results xs i @ results ys i"
  by (simp add: results_def)

lemma results_block: "block_ok b \<Longrightarrow> i \<notin> set (block_ids b) \<Longrightarrow> results b i = []"
  by (cases b rule: block_ok.cases) (auto simp: results_def)

lemma results_blocks_none: "list_all block_ok bs \<Longrightarrow> i \<notin> set (concat (map block_ids bs)) \<Longrightarrow> results (concat bs) i = []"
proof (induction bs)
  case (Cons b bs)
  then show ?case using results_block [of b i] by (simp add: results_append)
qed (simp add: results_def)

lemma results_pair:
  assumes "list_all block_ok bs" "distinct (concat (map block_ids bs))" "[a, t] \<in> set bs"
  shows "results (concat bs) (msg_ToolCallID t) = [t]"
  using assms
proof (induction bs)
  case (Cons b bs)
  show ?case
  proof (cases "b = [a, t]")
    case True
    then have "tool_pair a t" using Cons.prems(1) by simp
    from tool_pair_parts [OF this] True have "results b (msg_ToolCallID t) = [t]" by (simp add: results_def)
    moreover have "results (concat bs) (msg_ToolCallID t) = []"
      using Cons.prems(1,2) True by (intro results_blocks_none) auto
    ultimately show ?thesis by (simp add: results_append)
  next
    case False
    then have m: "[a, t] \<in> set bs" using Cons.prems(3) by simp
    then have "msg_ToolCallID t \<in> set (concat (map block_ids bs))" by force
    then have "msg_ToolCallID t \<notin> set (block_ids b)" using Cons.prems(2) by auto
    then have "results b (msg_ToolCallID t) = []" using Cons.prems(1) by (intro results_block) simp_all
    then show ?thesis using Cons.IH Cons.prems(1,2) m by (simp add: results_append)
  qed
qed simp

lemma with_results_blocks:
  assumes "\<And>a t. [a, t] \<in> set bs \<Longrightarrow> results msgs (msg_ToolCallID t) = [t]"
    and "list_all block_ok bs" and "distinct (concat (map block_ids bs))"
    and "set seen \<inter> set (concat (map block_ids bs)) = {}"
  shows "with_results msgs seen (filter plain (concat bs)) = concat bs"
  using assms
proof (induction bs arbitrary: seen)
  case (Cons b bs)
  have IH: "with_results msgs seen' (filter plain (concat bs)) = concat bs"
    if "set seen' \<inter> set (concat (map block_ids bs)) = {}" for seen'
    using Cons that by auto
  show ?case
  proof (cases b rule: block_ok.cases)
    case (1 m)
    then show ?thesis using Cons.prems IH [of seen] by simp
  next
    case (2 a t)
    have "results msgs (msg_ToolCallID t) = [t]" by (rule Cons.prems(1) [of a]) (simp add: 2)
    moreover have "msg_ToolCallID t \<notin> set seen" using Cons.prems(4) 2 by auto
    moreover have "with_results msgs (msg_ToolCallID t # seen) (filter plain (concat bs)) = concat bs"
      using Cons.prems(3,4) 2 by (intro IH) auto
    moreover have "tool_pair a t" using Cons.prems(2) 2 by simp
    ultimately show ?thesis using tool_pair_parts [of a t] 2 by simp
  qed (use Cons.prems(2) in auto)
qed simp

lemma block_ids_calls: "block_ok b \<Longrightarrow> set (concat (map call_ids (filter plain b))) = set (block_ids b)"
  by (cases b rule: block_ok.cases) auto

lemma blocks_calls: "list_all block_ok bs \<Longrightarrow>
    set (concat (map call_ids (filter plain (concat bs)))) = set (concat (map block_ids bs))"
  by (induction bs) (use block_ids_calls in auto)

lemma reorder_blocks:
  assumes "list_all block_ok bs" and "distinct (concat (map block_ids bs))"
  shows "reorderToolResultMessages (concat bs) = concat bs"
proof -
  have "results (concat bs) i = []" if "i \<notin> set (concat (map call_ids (filter plain (concat bs))))" for i
    using results_blocks_none [OF assms(1)] that blocks_calls [OF assms(1)] by blast
  then have "orphans (concat bs) = []" by (auto simp: orphans_def)
  then show ?thesis
    using with_results_blocks [OF results_pair [OF assms] assms, where seen = "[]"] by (simp add: reorder_spec)
qed

end
