(* ===== verification/Callbacks.thy ===== *)
theory Callbacks
  imports Startup Pipeline
begin

text \<open>
  The callbacks of a call (\<open>disha/call_event_callbacks.go\<close>) and the API client they use
  (\<open>disha/api_client.go\<close>): call events become chunks appended to the conversation's list in Redis and
  requests to the Disha API, with a queued job when a request fails. The outcome of a request, the
  formatting of times and numbers, and the marshalling of a chunk are arguments.
\<close>

section \<open>The API client\<close>

record api_request =
  ar_Method :: string
  ar_Path :: string
  ar_Body :: "(string \<times> json) list"

text \<open>\<open>send\<close>: the request is made; \<open>api\<close> is its error, if any.\<close>

type_synonym api_world = "api_request \<Rightarrow> string option"

definition defaultAPIBaseURL :: string where "defaultAPIBaseURL = ''https://disha-ai.curelinktech.in''"

definition api_base_url :: "string \<Rightarrow> string" where
  "api_base_url baseURL0 =
     (let b = trim_right_char (CHR ''/'') (trim_space baseURL0) in if b = [] then defaultAPIBaseURL else b)"

definition enqueue_request :: "string \<Rightarrow> string \<Rightarrow> (string \<times> json) list \<Rightarrow> string \<Rightarrow> api_request" where
  "enqueue_request moduleName funcName kwargs queue =
     \<lparr>ar_Method = ''POST'', ar_Path = ''/common/enqueue_job'',
      ar_Body = [(''module_name'', JStr moduleName), (''func_name'', JStr funcName), (''kwargs'', JObj kwargs),
                 (''sqs_queue'', JStr queue)]\<rparr>"

definition EnqueueJob :: "api_world \<Rightarrow> string \<Rightarrow> string \<Rightarrow> (string \<times> json) list \<Rightarrow> string
    \<Rightarrow> api_request list \<times> string option" where
  "EnqueueJob api moduleName funcName kwargs queue =
     (let r = enqueue_request moduleName funcName kwargs queue in ([r], api r))"

definition enqueueAPIFallback :: "api_world \<Rightarrow> string \<Rightarrow> string \<Rightarrow> string \<Rightarrow> (string \<times> json) list \<Rightarrow> string
    \<Rightarrow> api_request list \<times> string option" where
  "enqueueAPIFallback api operationName moduleName funcName kwargs originalErr =
     (let (rs, err) = EnqueueJob api moduleName funcName kwargs ''p0-fast-l1''
      in (rs, map_option (\<lambda>e. ''disha: '' @ operationName @ '' API failed ('' @ originalErr
                @ '') and fallback enqueue failed: '' @ e) err))"

text \<open>A request that fails is queued as a job with the same arguments.\<close>

definition send_with_fallback :: "api_world \<Rightarrow> string \<Rightarrow> string \<Rightarrow> string \<Rightarrow> (string \<times> json) list
    \<Rightarrow> api_request list \<times> string option" where
  "send_with_fallback api method path operation body =
     (let r = \<lparr>ar_Method = method, ar_Path = path, ar_Body = body\<rparr>
      in case api r of
           None \<Rightarrow> ([r], None)
         | Some e \<Rightarrow>
             (let (rs, err) = enqueueAPIFallback api operation ''bots.operations.voice_bot_operations'' operation body e
              in (r # rs, err)))"

definition UpdateConversationWithFallback :: "api_world \<Rightarrow> (string \<times> json) list \<Rightarrow> api_request list \<times> string option" where
  "UpdateConversationWithFallback api body =
     send_with_fallback api ''PATCH'' ''/bot/update_conversation'' ''update_conversation'' body"

definition RunPostCallOperationsWithFallback :: "api_world \<Rightarrow> (string \<times> json) list \<Rightarrow> api_request list \<times> string option" where
  "RunPostCallOperationsWithFallback api body =
     send_with_fallback api ''POST'' ''/bot/run_post_call_operations'' ''run_post_call_operations'' body"

section \<open>Chunks\<close>

record conversation_chunk =
  ck_ID :: string
  ck_Text :: string
  ck_Role :: string
  ck_BotType :: string
  ck_ConversationID :: string
  ck_UserID :: string
  ck_LLMTTFB :: "rat option"
  ck_TTSTTFB :: "rat option"
  ck_V2VLatency :: "rat option"
  ck_TextAggregation :: "rat option"
  ck_Created :: string
  ck_IsDebugLog :: bool
  ck_AdditionalData :: json
  ck_PromptKey :: "string option"

record callbacks =
  cb_ConversationID :: string
  cb_UserID :: string
  cb_BotType :: string

definition NewCallEventCallbacks :: "call_startup \<Rightarrow> callbacks" where
  "NewCallEventCallbacks su =
     \<lparr>cb_ConversationID = su_ConversationID su, cb_UserID = su_UserID su, cb_BotType = su_BotType su\<rparr>"

record callback_world =
  cw_redis :: "nat \<Rightarrow> network"
  cw_api :: api_world
  cw_uuid :: "nat \<Rightarrow> string"
  cw_fmt :: "gotime \<Rightarrow> string"
  cw_marshal :: "conversation_chunk \<Rightarrow> string"

definition assistantMetricSeconds :: "string \<Rightarrow> rat \<Rightarrow> rat option" where
  "assistantMetricSeconds role valueMs =
     (if role \<noteq> ''assistant'' \<or> valueMs = 0 then None else Some (fdiv valueMs 1000))"

definition conversation_chunk_of :: "callbacks \<Rightarrow> string \<Rightarrow> string \<Rightarrow> string \<Rightarrow> string \<Rightarrow> turn_metrics \<Rightarrow> string \<Rightarrow> json
    \<Rightarrow> conversation_chunk" where
  "conversation_chunk_of cb uuid created txt role m promptKey additionalData =
     \<lparr>ck_ID = uuid, ck_Text = txt, ck_Role = role, ck_BotType = cb_BotType cb,
      ck_ConversationID = cb_ConversationID cb, ck_UserID = cb_UserID cb,
      ck_LLMTTFB = assistantMetricSeconds role (tm_LLMTTFBMs m),
      ck_TTSTTFB = assistantMetricSeconds role (tm_TTSTTFBMs m),
      ck_V2VLatency = assistantMetricSeconds role (tm_E2ELatencyMs m),
      ck_TextAggregation = assistantMetricSeconds role (tm_TTSTextAggregationMs m),
      ck_Created = created, ck_IsDebugLog = False, ck_AdditionalData = additionalData,
      ck_PromptKey = (if promptKey \<noteq> [] then Some promptKey else None)\<rparr>"

definition no_metrics :: turn_metrics where
  "no_metrics = \<lparr>tm_LLMTTFBMs = 0, tm_LLMProcessingMs = 0, tm_TTSTextAggregationMs = 0, tm_TTSTTFBMs = 0,
     tm_E2ELatencyMs = 0\<rparr>"

text \<open>The chunks one event persists.\<close>

fun event_chunks :: "callback_world \<Rightarrow> callbacks \<Rightarrow> call_event \<Rightarrow> conversation_chunk list" where
  "event_chunks w cb (UserTurnCommitted txt t promptKey) =
     [conversation_chunk_of cb (cw_uuid w 0) (cw_fmt w t) txt ''user'' no_metrics promptKey JNull]"
| "event_chunks w cb (AssistantTurnCommitted txt t m promptKey) =
     [conversation_chunk_of cb (cw_uuid w 0) (cw_fmt w t) txt ''assistant'' m promptKey JNull]"
| "event_chunks w cb (ToolResultCommitted a r t) =
     [conversation_chunk_of cb (cw_uuid w 0) (cw_fmt w t) (msg_Content a) (msg_Role a) no_metrics []
        (toolContextAdditionalData a),
      conversation_chunk_of cb (cw_uuid w 1) (cw_fmt w (t + 1)) (msg_Content r) (msg_Role r) no_metrics []
        (toolContextAdditionalData r)]"
| "event_chunks w cb _ = []"

text \<open>\<open>appendConversationChunkWithAdditionalData\<close> for each, one after the other; an error is only logged.\<close>

fun append_chunks :: "callback_world \<Rightarrow> callbacks \<Rightarrow> nat \<Rightarrow> conversation_chunk list \<Rightarrow> redis_server \<Rightarrow> redis_server" where
  "append_chunks w cb n [] s = s"
| "append_chunks w cb n (c # cs) s =
     append_chunks w cb (n + 1) cs
       (fst (AppendChunk (cw_redis w n) s (cb_UserID cb) (cb_ConversationID cb) (cw_marshal w c)))"

definition update_body :: "callbacks \<Rightarrow> string \<Rightarrow> string \<Rightarrow> (string \<times> json) list" where
  "update_body cb field at_text = [(''conversation_id'', JStr (cb_ConversationID cb)), (field, JStr at_text)]"

text \<open>The requests one event makes.\<close>

fun event_requests :: "callback_world \<Rightarrow> callbacks \<Rightarrow> call_event \<Rightarrow> api_request list" where
  "event_requests w cb (BotJoined t) =
     fst (UpdateConversationWithFallback (cw_api w) (update_body cb ''bot_joined_at'' (cw_fmt w t)))"
| "event_requests w cb (UserJoined t) =
     fst (UpdateConversationWithFallback (cw_api w) (update_body cb ''user_joined_at'' (cw_fmt w t)))"
| "event_requests w cb (UserFirstSpeech t) =
     fst (UpdateConversationWithFallback (cw_api w) (update_body cb ''user_first_speech_at'' (cw_fmt w t)))"
| "event_requests w cb (BotFirstSpeech t) =
     fst (UpdateConversationWithFallback (cw_api w) (update_body cb ''bot_first_speech_at'' (cw_fmt w t)))"
| "event_requests w cb _ = []"

definition on_event :: "callback_world \<Rightarrow> callbacks \<Rightarrow> redis_server \<Rightarrow> call_event \<Rightarrow> redis_server \<times> api_request list" where
  "on_event w cb s ev = (append_chunks w cb 0 (event_chunks w cb ev) s, event_requests w cb ev)"

text \<open>The events of a call, each with its own world.\<close>

fun on_events :: "callbacks \<Rightarrow> redis_server \<Rightarrow> (callback_world \<times> call_event) list \<Rightarrow> redis_server" where
  "on_events cb s [] = s"
| "on_events cb s ((w, ev) # evs) = on_events cb (fst (on_event w cb s ev)) evs"

section \<open>The end of a call\<close>

definition mapEndReason :: "string \<Rightarrow> json" where
  "mapEndReason reason =
     (if reason = EndReasonTalkTimeExhausted then JStr ''talktime_exhausted''
      else if reason = EndReasonUserIdle then JStr ''user_idle'' else JNull)"

definition optionalTime :: "(gotime \<Rightarrow> string) \<Rightarrow> gotime \<Rightarrow> json" where
  "optionalTime fmt t = (if t = 0 then JNull else JStr (fmt t))"

definition post_call_body :: "callback_world \<Rightarrow> callbacks \<Rightarrow> gotime \<Rightarrow> string \<Rightarrow> string \<Rightarrow> final_stats \<Rightarrow> (string \<times> json) list" where
  "post_call_body w cb now logKey reason stats =
     [(''conversation_id'', JStr (cb_ConversationID cb)), (''end_reason'', mapEndReason reason),
      (''total_user_duration'', JNum (int_str (int_of_float (fs_TotalUserDurationSec stats)))),
      (''first_user_audio_frames_received_at'', optionalTime (cw_fmt w) (fs_FirstUserAudioFrameAt stats)),
      (''ended_at'', JStr (cw_fmt w (if fs_EndedAt stats = 0 then now else fs_EndedAt stats))),
      (''log_data_s3_key'', JStr logKey), (''onboarding_call_done'', JBool False),
      (''diet_plan_intensity_level'', JNull), (''fitness_plan_intensity_level'', JNull),
      (''latest_onboarding_call_stage'', JNull), (''conversation_variables'', JNull)]"

definition enqueueDailyMetrics :: "callback_world \<Rightarrow> callbacks \<Rightarrow> final_stats \<Rightarrow> api_request list" where
  "enqueueDailyMetrics w cb stats =
     (if fs_MeetingID stats = [] \<or> fs_UserSessionID stats = [] then []
      else if fs_TransportType stats \<noteq> [] \<and> fs_TransportType stats \<noteq> ''daily'' then []
      else fst (EnqueueJob (cw_api w) ''bots.webhooks'' ''fetch_and_store_daily_metrics''
        [(''conversation_id'', JStr (cb_ConversationID cb)), (''meeting_id'', JStr (fs_MeetingID stats)),
         (''bot_session_id'', JStr (fs_BotSessionID stats)), (''user_session_id'', JStr (fs_UserSessionID stats))]
        ''p1-fast-l1''))"

definition enqueueChunkSync :: "callback_world \<Rightarrow> callbacks \<Rightarrow> api_request list" where
  "enqueueChunkSync w cb =
     fst (EnqueueJob (cw_api w) ''services.conversation_chunk_manager'' ''sync_conversation_chunks_to_db''
       [(''user_id'', JStr (cb_UserID cb)), (''conversation_id'', JStr (cb_ConversationID cb)),
        (''bot_type'', JStr (cb_BotType cb))] ''p1-fast-l1'')"

text \<open>\<open>OnCallEnded\<close>; \<open>logKey\<close> is the key under which the debug log was uploaded, empty if it was not.\<close>

definition OnCallEnded :: "callback_world \<Rightarrow> callbacks \<Rightarrow> gotime \<Rightarrow> string \<Rightarrow> string \<Rightarrow> final_stats \<Rightarrow> api_request list" where
  "OnCallEnded w cb now logKey reason stats =
     fst (RunPostCallOperationsWithFallback (cw_api w) (post_call_body w cb now logKey reason stats))
     @ enqueueDailyMetrics w cb stats @ enqueueChunkSync w cb"

section \<open>What reaches Redis\<close>

text \<open>The messages an event adds to the history, and the tuple a chunk is stored as.\<close>

fun event_block :: "call_event \<Rightarrow> message list list" where
  "event_block (UserTurnCommitted txt t k) = [[text_message ''user'' txt]]"
| "event_block (AssistantTurnCommitted txt t m k) = [[text_message ''assistant'' txt]]"
| "event_block (ToolResultCommitted a r t) = [[a, r]]"
| "event_block _ = []"

definition chunk_tuple :: "conversation_chunk \<Rightarrow> json list" where
  "chunk_tuple c = [JStr (ck_ID c), JStr (ck_Role c), JStr (ck_Text c), JBool (ck_IsDebugLog c), ck_AdditionalData c]"

lemma event_chunks_stored:
  "list_all2 stored_tuple (concat (event_block ev)) (map chunk_tuple (event_chunks w cb ev))"
  by (cases ev) (simp_all add: stored_tuple_def chunk_tuple_def conversation_chunk_of_def text_message_def
      toolContextAdditionalData_def)

lemma append_chunks_list:
  assumes "\<And>i j. lost (nw_attempt (cw_redis w i) j) = 0"
    and "\<And>i c s. snd (AppendChunk (cw_redis w i) s (cb_UserID cb) (cb_ConversationID cb) c) = None"
  shows "list_at (append_chunks w cb n cs s) (conversationChunksKey (cb_UserID cb) (cb_ConversationID cb)) =
    list_at s (conversationChunksKey (cb_UserID cb) (cb_ConversationID cb)) @ map (cw_marshal w) cs"
proof (induction cs arbitrary: n s)
  case (Cons c cs)
  let ?r = "AppendChunk (cw_redis w n) s (cb_UserID cb) (cb_ConversationID cb) (cw_marshal w c)"
  obtain k where "fst ?r = (rpush (conversationChunksKey (cb_UserID cb) (cb_ConversationID cb)) (cw_marshal w c) ^^ k) s"
    and "(\<forall>i. lost (nw_attempt (cw_redis w n) i) = 0) \<Longrightarrow> k = (if snd ?r = None then 1 else 0)"
    by (rule AppendChunk_applied [OF prod.collapse [symmetric], of "cw_redis w n" s "cb_UserID cb"
          "cb_ConversationID cb" "cw_marshal w c", where m = 0]) blast
  then have "fst ?r = rpush (conversationChunksKey (cb_UserID cb) (cb_ConversationID cb)) (cw_marshal w c) s"
    using assms by simp
  then have "list_at (fst ?r) (conversationChunksKey (cb_UserID cb) (cb_ConversationID cb)) =
      list_at s (conversationChunksKey (cb_UserID cb) (cb_ConversationID cb)) @ [cw_marshal w c]"
    by (simp add: list_at_rpush)
  then show ?case by (simp add: Cons.IH)
qed simp

lemma on_events_list:
  assumes "list_all (\<lambda>(w, ev). (\<forall>i j. lost (nw_attempt (cw_redis w i) j) = 0)
      \<and> (\<forall>i c s. snd (AppendChunk (cw_redis w i) s (cb_UserID cb) (cb_ConversationID cb) c) = None)) evs"
  shows "list_at (on_events cb s evs) (conversationChunksKey (cb_UserID cb) (cb_ConversationID cb)) =
    list_at s (conversationChunksKey (cb_UserID cb) (cb_ConversationID cb))
    @ concat (map (\<lambda>(w, ev). map (cw_marshal w) (event_chunks w cb ev)) evs)"
  using assms
proof (induction evs arbitrary: s)
  case (Cons e evs)
  obtain w ev where e: "e = (w, ev)" by (cases e)
  from Cons.prems have "\<And>i j. lost (nw_attempt (cw_redis w i) j) = 0"
    "\<And>i c s. snd (AppendChunk (cw_redis w i) s (cb_UserID cb) (cb_ConversationID cb) c) = None"
    by (auto simp: e)
  from append_chunks_list [OF this] Cons show ?case by (simp add: e on_event_def)
qed simp

text \<open>The turns of a call: texts, and tool requests of one call with their result, no call twice.\<close>

definition call_turns_ok :: "call_event list \<Rightarrow> bool" where
  "call_turns_ok evs \<longleftrightarrow> list_all block_ok (concat (map event_block evs))
     \<and> distinct (concat (map block_ids (concat (map event_block evs))))"

definition turns_of :: "call_event list \<Rightarrow> message list" where
  "turns_of evs = concat (concat (map event_block evs))"

lemma stored_turns:
  "list_all2 stored_tuple (turns_of evs) (map chunk_tuple (concat (map (\<lambda>ev. event_chunks (w ev) cb ev) evs)))"
  by (induction evs) (simp_all add: turns_of_def list_all2_appendI event_chunks_stored)

lemma system_first:
  "list_all block_ok bs \<Longrightarrow> distinct (concat (map block_ids bs)) \<Longrightarrow>
    reorderToolResultMessages (text_message ''system'' p # concat bs) = text_message ''system'' p # concat bs"
  using reorder_blocks [of "[text_message ''system'' p] # bs"] by (simp add: text_turn_def text_message_def)

lemma call_resumes_main:
  assumes "call_turns_ok evs"
  shows "buildInitialMessages prompt (map chunk_tuple (concat (map (\<lambda>ev. event_chunks (w ev) cb ev) evs))) resume =
    text_message ''system'' prompt # turns_of evs
      @ (if turns_of evs = [] then [text_message ''user'' ''hello?'']
         else if resume = [] then [] else [text_message ''system'' resume])"
proof -
  have ok: "list_all block_ok (concat (map event_block evs))"
    and d: "distinct (concat (map block_ids (concat (map event_block evs))))"
    using assms by (simp_all add: call_turns_ok_def)
  have "List.map_filter messageFromChunkTuple
      (map chunk_tuple (concat (map (\<lambda>ev. event_chunks (w ev) cb ev) evs))) = turns_of evs"
    using replay_blocks [OF ok stored_turns [unfolded turns_of_def]] by (simp add: turns_of_def)
  then show ?thesis
    using system_first [OF ok d, of prompt]
    by (simp add: buildInitialMessages_def turns_of_def [symmetric] Let_def)
qed


definition answering :: network where
  "answering = \<lparr>nw_attempt = (\<lambda>i. Replied 0), nw_cancelled = (\<lambda>i. None)\<rparr>"

definition wit_call :: "call_event list" where
  "wit_call = [UserTurnCommitted ''weather?'' 1 [],
     ToolResultCommitted (assistantToolCallMessageFromFrame ''w'' ''c1'' [] ''{}'')
       \<lparr>msg_Role = ''tool'', msg_Content = ''sunny'', msg_ToolCalls = [], msg_ToolCallID = ''c1''\<rparr> 2,
     AssistantTurnCommitted ''Sunny'' 3 no_metrics []]"

lemma wit_call_ok: "call_turns_ok wit_call"
  by code_simp


end
