(* ===== verification/Worker.thy ===== *)
theory Worker
  imports Callbacks
begin

text \<open>
  The worker process (\<open>worker_api.go\<close>, the task bookkeeping of \<open>main.go\<close>, \<open>disha/bot.go\<close>,
  \<open>disha/gke_pod.go\<close>): one call at a time. A request claims the worker under its mutex and starts a
  goroutine that pins the pod, builds the task, runs the call and, when the call has ended, gives the
  worker back. The goroutines are interleaved with requests at the granularity of their calls.
\<close>

section \<open>The claim\<close>

record worker_runtime =
  wr_active :: bool
  wr_reserved :: bool
  wr_task :: "string option"
  wr_activeConversationID :: string

definition idle_worker :: worker_runtime where
  "idle_worker = \<lparr>wr_active = False, wr_reserved = False, wr_task = None, wr_activeConversationID = []\<rparr>"

datatype claimOutcome = claimGranted | claimDuplicate | claimConflict

definition claim :: "string \<Rightarrow> worker_runtime \<Rightarrow> worker_runtime \<times> claimOutcome \<times> string" where
  "claim conversationID w =
     (if wr_active w then
        (if wr_activeConversationID w = conversationID then (w, claimDuplicate, wr_activeConversationID w)
         else (w, claimConflict, wr_activeConversationID w))
      else (w\<lparr>wr_active := True, wr_activeConversationID := conversationID\<rparr>, claimGranted, conversationID))"

definition setTask :: "string \<Rightarrow> worker_runtime \<Rightarrow> worker_runtime" where
  "setTask sid w = w\<lparr>wr_task := Some sid\<rparr>"

definition finish :: "worker_runtime \<Rightarrow> worker_runtime" where
  "finish w = w\<lparr>wr_active := False, wr_reserved := False, wr_task := None, wr_activeConversationID := []\<rparr>"

definition markReserved :: "worker_runtime \<Rightarrow> worker_runtime" where
  "markReserved w = w\<lparr>wr_reserved := True\<rparr>"

definition snapshot :: "worker_runtime \<Rightarrow> bool \<times> bool" where
  "snapshot w = (wr_active w, wr_reserved w)"

section \<open>Requests\<close>

record room_request =
  rq_RoomURL :: string
  rq_RoomName :: string
  rq_BotToken :: string
  rq_Token :: string
  rq_ConversationID :: string
  rq_BotWorkerType :: string

definition normalize_request :: "room_request \<Rightarrow> room_request" where
  "normalize_request r =
     (let r1 = r\<lparr>rq_RoomURL := trim_space (rq_RoomURL r), rq_RoomName := trim_space (rq_RoomName r),
                 rq_BotToken := trim_space (rq_BotToken r), rq_Token := trim_space (rq_Token r),
                 rq_ConversationID := trim_space (rq_ConversationID r),
                 rq_BotWorkerType := trim_space (rq_BotWorkerType r)\<rparr>
      in if rq_BotToken r1 = [] then r1\<lparr>rq_BotToken := rq_Token r1\<rparr> else r1)"

definition requireFields :: "(string \<times> string) list \<Rightarrow> string list" where
  "requireFields fs = map fst (filter (\<lambda>f. trim_space (snd f) = []) fs)"

definition missing_text :: "string list \<Rightarrow> string" where
  "missing_text fs = ''Missing required parameters: '' @ join_with '', '' fs"

definition validate :: "room_request \<Rightarrow> string option" where
  "validate r =
     (let missing = requireFields [(''room_url'', rq_RoomURL r), (''token'', rq_Token r),
        (''conversation_id'', rq_ConversationID r), (''bot_worker_type'', rq_BotWorkerType r),
        (''room_name'', rq_RoomName r)]
      in if missing = [] then None else Some (missing_text missing))"

datatype http_reply = Json int json | Text int string | Bare int

text \<open>\<open>decodeJSONRequest\<close>: the request, or the reply that refuses it.\<close>

definition decodeJSONRequest :: "(string \<Rightarrow> room_request option) \<Rightarrow> string \<Rightarrow> http_reply + room_request" where
  "decodeJSONRequest decode body =
     (case decode body of
        None \<Rightarrow> Inl (Text 400 ''invalid JSON body'')
      | Some r0 \<Rightarrow>
          let r = normalize_request r0
          in (case validate r of Some e \<Rightarrow> Inl (Text 400 e) | None \<Rightarrow> Inr r))"

definition success_reply :: "room_request \<Rightarrow> http_reply" where
  "success_reply r = Json 200 (JObj [(''status'', JStr ''success''), (''room_url'', JStr (rq_RoomURL r))])"

definition conflict_reply :: "string \<Rightarrow> http_reply" where
  "conflict_reply activeID = Json 409 (JObj [(''detail'', JObj
     [(''message'', JStr ''Worker machine already has an active session''),
      (''active_conversation_id'', JStr activeID)])])"

text \<open>The last component is the request a new goroutine runs.\<close>

definition handleCreateWorkerRoom :: "(string \<Rightarrow> room_request option) \<Rightarrow> string \<Rightarrow> worker_runtime
    \<Rightarrow> worker_runtime \<times> http_reply \<times> room_request option" where
  "handleCreateWorkerRoom decode body w =
     (case decodeJSONRequest decode body of
        Inl reply \<Rightarrow> (w, reply, None)
      | Inr req \<Rightarrow>
          (case claim (rq_ConversationID req) w of
             (w', claimDuplicate, _) \<Rightarrow> (w', success_reply req, None)
           | (w', claimConflict, activeID) \<Rightarrow> (w', conflict_reply activeID, None)
           | (w', claimGranted, _) \<Rightarrow> (w', success_reply req, Some req)))"

definition handleHasActiveSession :: "worker_runtime \<Rightarrow> http_reply" where
  "handleHasActiveSession w =
     (let active = fst (snapshot w)
      in Json 200 (JObj [(''has_active_session'', JBool active),
           (''active_sessions'', JNum (if active then ''1'' else ''0''))]))"

definition handleHealthCheck :: http_reply where
  "handleHealthCheck = Json 200 (JObj [(''status'', JStr ''healthy'')])"

definition handleReadinessCheck :: "worker_runtime \<Rightarrow> http_reply" where
  "handleReadinessCheck w =
     (case snapshot w of (active, reserved) \<Rightarrow>
        if active \<or> reserved
        then Json 503 (JObj [(''status'', JStr ''not ready''), (''detail'', JStr ''Worker is active or reserved'')])
        else Json 200 (JObj [(''status'', JStr ''ready'')]))"

section \<open>The pod's annotation\<close>

text \<open>The patcher, absent outside Kubernetes, the pod's name, and the API server.\<close>

record pod =
  pd_patcher :: "(string \<times> string \<times> string) option"
  pd_hostname :: string

definition safeToEvictAnnotation :: string where
  "safeToEvictAnnotation = ''cluster-autoscaler.kubernetes.io/safe-to-evict''"

definition evict_patch :: "bool \<Rightarrow> string" where
  "evict_patch safe = ''{'' @ json_quote ''metadata'' @ '':{'' @ json_quote ''annotations'' @ '':{''
     @ json_quote safeToEvictAnnotation @ '':'' @ json_quote (if safe then ''true'' else ''false'') @ ''}}}''"

definition SetSafeToEvict :: "string \<times> string \<times> string \<Rightarrow> string \<Rightarrow> bool
    \<Rightarrow> string + (string \<times> string \<times> (string \<times> string) list \<times> string)" where
  "SetSafeToEvict patcher podName safe =
     (case patcher of (apiServer, namespace, token) \<Rightarrow>
        if trim_space podName = [] then Inl ''disha: pod name is required''
        else Inr (''PATCH'', apiServer @ ''/api/v1/namespaces/'' @ namespace @ ''/pods/'' @ podName,
          [(''Authorization'', ''Bearer '' @ token), (''Content-Type'', ''application/strategic-merge-patch+json''),
           (''Accept'', ''application/json'')], evict_patch safe))"

text \<open>
  \<open>pinPodAgainstEviction\<close> and \<open>unpinPodAfterCall\<close>: the pod's annotation after the patch, which the API
  server applies or not; failures are only logged.
\<close>

definition patch_pod :: "pod \<Rightarrow> bool \<Rightarrow> bool \<Rightarrow> bool \<Rightarrow> bool" where
  "patch_pod p applied safe evictable =
     (case pd_patcher p of None \<Rightarrow> evictable
      | Some patcher \<Rightarrow>
          if trim_space (pd_hostname p) = [] then evictable
          else (case SetSafeToEvict patcher (trim_space (pd_hostname p)) safe of
                  Inl e \<Rightarrow> evictable | Inr r \<Rightarrow> if applied then safe else evictable))"

section \<open>Building a task\<close>

definition SalesCallBotType :: string where "SalesCallBotType = ''sales_call''"
definition FollowUpBotType :: string where "FollowUpBotType = ''follow_up''"

datatype bot_kind = SalesCallBot | FollowUpBot

definition NewBot :: "string \<Rightarrow> string + bot_kind" where
  "NewBot botType =
     (if botType = SalesCallBotType then Inr SalesCallBot
      else if botType = FollowUpBotType then Inr FollowUpBot
      else Inl (''disha: unsupported bot_type '' @ go_quote botType))"

text \<open>\<open>build\<close> is the bot's \<open>BuildTask\<close>: an error, or the session id of a task that has joined its room.\<close>

definition buildBotTask :: "(bot_kind \<Rightarrow> room_request \<Rightarrow> string \<Rightarrow> string + string) \<Rightarrow> room_request \<Rightarrow> string + string" where
  "buildBotTask build req =
     (if rq_RoomURL req = [] then Inl ''room_url is required''
      else if rq_ConversationID req = [] then Inl ''conversation_id is required''
      else let botToken = (if rq_BotToken req = [] then rq_Token req else rq_BotToken req);
               botType = (if rq_BotWorkerType req = [] then SalesCallBotType else rq_BotWorkerType req)
           in (case NewBot botType of Inl e \<Rightarrow> Inl e | Inr k \<Rightarrow> build k req botToken))"

definition registerTask :: "string \<Rightarrow> string list \<Rightarrow> string list" where
  "registerTask sid sessions = sid # filter (\<lambda>x. x \<noteq> sid) sessions"

definition unregisterTask :: "string \<Rightarrow> string list \<Rightarrow> string list" where
  "unregisterTask sid sessions = filter (\<lambda>x. x \<noteq> sid) sessions"

text \<open>
  \<open>prepareTask\<close>: the session id of the task, which is now registered. The cleanup it leaves with the task
  unregisters it and calls the bot's own; \<open>bot_step\<close> takes it in steps, from \<open>Running\<close> on.
\<close>

definition prepareTask :: "(bot_kind \<Rightarrow> room_request \<Rightarrow> string \<Rightarrow> string + string) \<Rightarrow> room_request \<Rightarrow> string list
    \<Rightarrow> string + (string \<times> string list)" where
  prepareTask_def [simp]: "prepareTask build req sessions =
     (case buildBotTask build req of
        Inl e \<Rightarrow> Inl e
      | Inr sid \<Rightarrow> Inr (sid, registerTask sid sessions))"

section \<open>The server\<close>

text \<open>
  A bot is the goroutine of one granted request, between these points of \<open>runWorkerRoom\<close> and of the
  task's \<open>OnCleanup\<close>. \<open>bt_pinned\<close> records whether its pin was applied; it is not part of the code's state.
\<close>

datatype bot_phase =
    Launched
  | Pinned
  | Registered string
  | TaskSet string
  | Running string
  | Ended
  | Unpinned
  | Finished

record bot =
  bt_req :: room_request
  bt_phase :: bot_phase
  bt_pinned :: bool

record server =
  sv_worker :: worker_runtime
  sv_sessions :: "string list"
  sv_evictable :: bool
  sv_cleanups :: nat
  sv_bots :: "bot list"

definition new_server :: server where
  "new_server = \<lparr>sv_worker = idle_worker, sv_sessions = [], sv_evictable = True, sv_cleanups = 0, sv_bots = []\<rparr>"

text \<open>
  One step of a bot: pin, build and register the task, store it, start it, unregister it at its end,
  unpin, finish, and queue the cleanup job. \<open>build\<close> and \<open>applied\<close> are the outcomes of the calls made.
\<close>

definition bot_step :: "pod \<Rightarrow> (bot_kind \<Rightarrow> room_request \<Rightarrow> string \<Rightarrow> string + string) \<Rightarrow> bool \<Rightarrow> bot \<Rightarrow> server \<Rightarrow> bot option \<times> server" where
  "bot_step p build applied b sv =
     (case bt_phase b of
        Launched \<Rightarrow>
          (let e = patch_pod p applied False (sv_evictable sv)
           in (Some (b\<lparr>bt_phase := Pinned, bt_pinned := \<not> e\<rparr>), sv\<lparr>sv_evictable := e\<rparr>))
      | Pinned \<Rightarrow>
          (case prepareTask build (bt_req b) (sv_sessions sv) of
             Inl e \<Rightarrow> (Some (b\<lparr>bt_phase := Ended\<rparr>), sv)
           | Inr (sid, sessions) \<Rightarrow> (Some (b\<lparr>bt_phase := Registered sid\<rparr>), sv\<lparr>sv_sessions := sessions\<rparr>))
      | Registered sid \<Rightarrow> (Some (b\<lparr>bt_phase := TaskSet sid\<rparr>), sv\<lparr>sv_worker := setTask sid (sv_worker sv)\<rparr>)
      | TaskSet sid \<Rightarrow> (Some (b\<lparr>bt_phase := Running sid\<rparr>), sv)
      | Running sid \<Rightarrow>
          (Some (b\<lparr>bt_phase := Ended\<rparr>), sv\<lparr>sv_sessions := unregisterTask sid (sv_sessions sv)\<rparr>)
      | Ended \<Rightarrow>
          (Some (b\<lparr>bt_phase := Unpinned, bt_pinned := False\<rparr>),
           sv\<lparr>sv_evictable := patch_pod p applied True (sv_evictable sv)\<rparr>)
      | Unpinned \<Rightarrow> (Some (b\<lparr>bt_phase := Finished\<rparr>), sv\<lparr>sv_worker := finish (sv_worker sv)\<rparr>)
      | Finished \<Rightarrow>
          (None, sv\<lparr>sv_cleanups := (if trim_space (pd_hostname p) = [] then sv_cleanups sv else sv_cleanups sv + 1)\<rparr>))"

definition create_room :: "(string \<Rightarrow> room_request option) \<Rightarrow> string \<Rightarrow> server \<Rightarrow> server \<times> http_reply" where
  "create_room decode body sv =
     (let (w, reply, launched) = handleCreateWorkerRoom decode body (sv_worker sv)
      in (sv\<lparr>sv_worker := w,
             sv_bots := sv_bots sv @ (case launched of None \<Rightarrow> []
               | Some req \<Rightarrow> [\<lparr>bt_req = req, bt_phase = Launched, bt_pinned = False\<rparr>])\<rparr>, reply))"

text \<open>\<open>handleMarkMachineReserved\<close>: the mark, then the pin.\<close>

definition mark_reserved :: "pod \<Rightarrow> bool \<Rightarrow> server \<Rightarrow> server \<times> http_reply" where
  "mark_reserved p applied sv =
     (sv\<lparr>sv_worker := markReserved (sv_worker sv), sv_evictable := patch_pod p applied False (sv_evictable sv)\<rparr>,
      Json 200 (JObj [(''status'', JStr ''success'')]))"

definition advance :: "pod \<Rightarrow> (bot_kind \<Rightarrow> room_request \<Rightarrow> string \<Rightarrow> string + string) \<Rightarrow> bool \<Rightarrow> nat \<Rightarrow> server \<Rightarrow> server" where
  "advance p build applied i sv =
     (case bot_step p build applied (sv_bots sv ! i) sv of
        (Some b, sv') \<Rightarrow> sv'\<lparr>sv_bots := (sv_bots sv)[i := b]\<rparr>
      | (None, sv') \<Rightarrow> sv'\<lparr>sv_bots := take i (sv_bots sv) @ drop (i + 1) (sv_bots sv)\<rparr>)"

datatype server_event =
    Created "string \<Rightarrow> room_request option" string
  | Reserved bool
  | Advanced "bot_kind \<Rightarrow> room_request \<Rightarrow> string \<Rightarrow> string + string" bool nat

inductive server_step :: "pod \<Rightarrow> server \<Rightarrow> server_event \<Rightarrow> server \<Rightarrow> bool" for p where
  created: "server_step p sv (Created decode body) (fst (create_room decode body sv))"
| reserved: "server_step p sv (Reserved applied) (fst (mark_reserved p applied sv))"
| advanced: "i < length (sv_bots sv) \<Longrightarrow> server_step p sv (Advanced build applied i) (advance p build applied i sv)"

inductive_cases created_cases: "server_step p sv (Created decode body) sv'"
inductive_cases advanced_cases: "server_step p sv (Advanced build applied i) sv'"
inductive_simps server_step_simps: "server_step p sv ev sv'"

inductive reachable :: "pod \<Rightarrow> server \<Rightarrow> bool" for p where
  start: "reachable p new_server"
| step: "reachable p sv \<Longrightarrow> server_step p sv ev sv' \<Longrightarrow> reachable p sv'"

section \<open>One bot at a time\<close>

text \<open>A bot holds the worker until it has called \<open>finish\<close>; what holds of the worker while it does.\<close>

definition holding :: "bot \<Rightarrow> bool" where
  "holding b \<longleftrightarrow> bt_phase b \<noteq> Finished"

fun session_of :: "bot_phase \<Rightarrow> string list" where
  "session_of (Registered sid) = [sid]"
| "session_of (TaskSet sid) = [sid]"
| "session_of (Running sid) = [sid]"
| "session_of _ = []"

definition server_ok :: "server \<Rightarrow> bool" where
  "server_ok sv \<longleftrightarrow>
     (case filter holding (sv_bots sv) of
        [] \<Rightarrow> \<not> wr_active (sv_worker sv) \<and> wr_task (sv_worker sv) = None \<and> sv_sessions sv = []
      | [b] \<Rightarrow> wr_active (sv_worker sv) \<and> wr_activeConversationID (sv_worker sv) = rq_ConversationID (bt_req b)
          \<and> sv_sessions sv = session_of (bt_phase b) \<and> (bt_pinned b \<longrightarrow> \<not> sv_evictable sv)
      | _ \<Rightarrow> False)"

lemma server_ok_new: "server_ok new_server"
  by (simp add: server_ok_def new_server_def idle_worker_def)

text \<open>The bot that holds the worker, if there is one, and what the server knows of it.\<close>

definition held_by :: "server \<Rightarrow> bot \<Rightarrow> bool" where
  "held_by sv b \<longleftrightarrow>
     wr_active (sv_worker sv) \<and> wr_activeConversationID (sv_worker sv) = rq_ConversationID (bt_req b)
     \<and> sv_sessions sv = session_of (bt_phase b) \<and> (bt_pinned b \<longrightarrow> \<not> sv_evictable sv)"

definition idle :: "server \<Rightarrow> bool" where
  "idle sv \<longleftrightarrow> \<not> wr_active (sv_worker sv) \<and> wr_task (sv_worker sv) = None \<and> sv_sessions sv = []"

lemma server_ok_cases:
  "server_ok sv \<longleftrightarrow> filter holding (sv_bots sv) = [] \<and> idle sv
     \<or> (\<exists>b. filter holding (sv_bots sv) = [b] \<and> held_by sv b)"
  by (auto simp: server_ok_def held_by_def idle_def split: list.split)

lemma patch_pod_pin: "\<not> evictable \<Longrightarrow> \<not> patch_pod p applied False evictable"
  by (auto simp: patch_pod_def split: option.split sum.split)

lemma patch_pod_unsafe: "patch_pod p applied False evictable \<Longrightarrow> evictable"
  using patch_pod_pin by blast

lemma at_split:
  assumes "i < length xs"
  obtains us b vs where "xs = us @ b # vs" "i = length us"
  using assms id_take_nth_drop [OF assms] by (metis length_take min.absorb4)

lemma advance_split:
  assumes "sv_bots sv = us @ b # vs"
  shows "advance p build applied (length us) sv =
    (case bot_step p build applied b sv of
       (Some b', sv') \<Rightarrow> sv'\<lparr>sv_bots := us @ b' # vs\<rparr> | (None, sv') \<Rightarrow> sv'\<lparr>sv_bots := us @ vs\<rparr>)"
  using assms by (simp add: advance_def split: prod.split option.split)

lemma claim_parts:
  "wr_active w \<Longrightarrow> fst (claim c w) = w \<and> fst (snd (claim c w)) \<noteq> claimGranted"
  "\<not> wr_active w \<Longrightarrow> claim c w = (w\<lparr>wr_active := True, wr_activeConversationID := c\<rparr>, claimGranted, c)"
  by (simp_all add: claim_def)

lemma create_busy:
  assumes "wr_active (sv_worker sv)"
  shows "fst (create_room decode body sv) = sv"
  using claim_parts(1) [OF assms]
  by (auto simp: create_room_def handleCreateWorkerRoom_def split_beta split: sum.split claimOutcome.split)

lemma create_idle:
  assumes "\<not> wr_active (sv_worker sv)"
  shows "fst (create_room decode body sv) =
    (case decodeJSONRequest decode body of Inl reply \<Rightarrow> sv
     | Inr req \<Rightarrow> sv\<lparr>sv_worker := (sv_worker sv)\<lparr>wr_active := True, wr_activeConversationID := rq_ConversationID req\<rparr>,
         sv_bots := sv_bots sv @ [\<lparr>bt_req = req, bt_phase = Launched, bt_pinned = False\<rparr>]\<rparr>)"
  using claim_parts(2) [OF assms]
  by (auto simp: create_room_def handleCreateWorkerRoom_def split: sum.split)

lemma created_ok:
  assumes "server_ok sv"
  shows "server_ok (fst (create_room decode body sv))"
proof (cases "wr_active (sv_worker sv)")
  case True
  then show ?thesis using assms by (simp add: create_busy)
next
  case False
  then have "filter holding (sv_bots sv) = [] \<and> idle sv"
    using assms by (auto simp: server_ok_cases held_by_def)
  then show ?thesis using False
    by (auto simp: create_idle server_ok_cases held_by_def idle_def holding_def split: sum.split)
qed

lemma reserved_ok:
  assumes "server_ok sv"
  shows "server_ok (fst (mark_reserved p applied sv))"
  using assms patch_pod_pin [of "sv_evictable sv" p applied]
  by (auto simp: server_ok_cases mark_reserved_def markReserved_def held_by_def idle_def)

text \<open>A bot that no longer holds the worker changes nothing of it.\<close>

lemma finished_step:
  "\<not> holding b \<Longrightarrow> \<exists>n. bot_step p build applied b sv = (None, sv\<lparr>sv_cleanups := n\<rparr>)"
  by (rule exI [of _ "if trim_space (pd_hostname p) = [] then sv_cleanups sv else sv_cleanups sv + 1"])
     (simp add: holding_def bot_step_def)

text \<open>A step of the bot that holds the worker: it still holds it, or the worker is idle.\<close>

lemma holder_step:
  assumes "held_by sv b" and "holding b"
  shows "\<exists>b' sv'. bot_step p build applied b sv = (Some b', sv') \<and> sv_bots sv' = sv_bots sv
    \<and> (if holding b' then held_by sv' b' else idle sv')"
proof (cases "bt_phase b")
  case Pinned
  then show ?thesis using assms
    by (cases "buildBotTask build (bt_req b)") (auto simp: bot_step_def held_by_def holding_def registerTask_def)
qed (use assms in \<open>auto simp: bot_step_def held_by_def idle_def holding_def Let_def setTask_def finish_def
  unregisterTask_def\<close>)

lemma idle_bots [simp]: "idle (sv\<lparr>sv_bots := bs\<rparr>) = idle sv" "held_by (sv\<lparr>sv_bots := bs\<rparr>) b = held_by sv b"
  "idle (sv\<lparr>sv_cleanups := n\<rparr>) = idle sv" "held_by (sv\<lparr>sv_cleanups := n\<rparr>) b = held_by sv b"
  by (simp_all add: idle_def held_by_def)

lemma advanced_ok:
  assumes "server_ok sv" and "i < length (sv_bots sv)"
  shows "server_ok (advance p build applied i sv)"
proof -
  obtain us b vs where bots: "sv_bots sv = us @ b # vs" and i: "i = length us"
    using at_split [OF assms(2)] .
  show ?thesis
  proof (cases "holding b")
    case False
    obtain n where "bot_step p build applied b sv = (None, sv\<lparr>sv_cleanups := n\<rparr>)"
      using finished_step [OF False] by blast
    then show ?thesis using assms(1) False bots by (auto simp: i advance_split [OF bots] server_ok_cases)
  next
    case True
    then have held: "held_by sv b" and rest: "filter holding us = []" "filter holding vs = []"
      using assms(1) bots by (auto simp: server_ok_cases append_eq_Cons_conv)
    obtain b' sv' where step: "bot_step p build applied b sv = (Some b', sv')"
      and after: "if holding b' then held_by sv' b' else idle sv'"
      using holder_step [OF held True] by blast
    show ?thesis using after rest
      by (cases "holding b'") (auto simp: i advance_split [OF bots] step server_ok_cases)
  qed
qed

lemma reachable_ok: "reachable p sv \<Longrightarrow> server_ok sv"
proof (induction rule: reachable.induct)
  case start
  show ?case by (rule server_ok_new)
next
  case (step sv ev sv')
  from step(2) show ?case
    by cases (use step(3) created_ok reserved_ok advanced_ok in auto)
qed

text \<open>
  C9: a worker runs one call at a time, and knows which. In every reachable state at most one bot holds
  the worker; the worker is active exactly if one does, then for that bot's conversation; the session
  registry holds exactly that bot's session while it is registered; and while a bot whose pin was applied
  holds the worker, up to its own unpin, the pod cannot be evicted.
\<close>

theorem one_call_at_a_time:
  assumes "reachable p sv"
  shows "length (filter holding (sv_bots sv)) \<le> 1
    \<and> wr_active (sv_worker sv) = list_ex holding (sv_bots sv)
    \<and> list_all (\<lambda>b. wr_activeConversationID (sv_worker sv) = rq_ConversationID (bt_req b)
        \<and> sv_sessions sv = session_of (bt_phase b) \<and> \<not> (bt_pinned b \<and> sv_evictable sv))
      (filter holding (sv_bots sv))"
proof -
  have "filter holding (sv_bots sv) = [] \<longleftrightarrow> \<not> list_ex holding (sv_bots sv)"
    by (auto simp: filter_empty_conv list_ex_iff)
  then show ?thesis using reachable_ok [OF assms] by (auto simp: server_ok_cases idle_def held_by_def)
qed

text \<open>A server whose one request has been granted and whose bot has pinned the pod.\<close>

definition wit_pod :: pod where
  "wit_pod = \<lparr>pd_patcher = Some (''https://api'', ''ns'', ''tok''), pd_hostname = ''pod-1''\<rparr>"

definition wit_request :: room_request where
  "wit_request = \<lparr>rq_RoomURL = ''u'', rq_RoomName = ''r'', rq_BotToken = ''t'', rq_Token = ''t'',
     rq_ConversationID = ''c1'', rq_BotWorkerType = ''sales_call''\<rparr>"

definition wit_busy :: server where
  "wit_busy = advance wit_pod (\<lambda>k r t. Inr ''c1'') True 0 (fst (create_room (\<lambda>b. Some wit_request) [] new_server))"

lemma wit_busy_value: "wit_busy = \<lparr>sv_worker = idle_worker\<lparr>wr_active := True, wr_activeConversationID := ''c1''\<rparr>,
    sv_sessions = [], sv_evictable = False, sv_cleanups = 0,
    sv_bots = [\<lparr>bt_req = wit_request, bt_phase = Pinned, bt_pinned = True\<rparr>]\<rparr>"
  by code_simp

lemma wit_busy_reachable: "reachable wit_pod wit_busy"
proof -
  let ?sv = "fst (create_room (\<lambda>b. Some wit_request) [] new_server)"
  have "0 < length (sv_bots ?sv)" by code_simp
  then have "server_step wit_pod ?sv (Advanced (\<lambda>k r t. Inr ''c1'') True 0) wit_busy"
    unfolding wit_busy_def by (rule server_step.advanced)
  with reachable.step [OF reachable.start server_step.created] show ?thesis by (rule reachable.step)
qed

theorem one_call_at_a_time_witness:
  "list_all (\<lambda>b. wr_activeConversationID (sv_worker wit_busy) = rq_ConversationID (bt_req b)
      \<and> sv_sessions wit_busy = session_of (bt_phase b) \<and> \<not> (bt_pinned b \<and> sv_evictable wit_busy))
    (filter holding (sv_bots wit_busy)) \<and> length (sv_bots wit_busy) = 1"
  using one_call_at_a_time [OF wit_busy_reachable] by (simp add: wit_busy_value holding_def)

section \<open>The worker's contract\<close>

text \<open>
  Abstractly a worker is the conversation it runs, if any. A request for a conversation is granted,
  repeated or refused; a call that is over gives the worker back.
\<close>

datatype contract_event = Ask string | GiveBack | Internal

fun contract_next :: "contract_event \<Rightarrow> string option \<Rightarrow> string option" where
  "contract_next (Ask c) None = Some c"
| "contract_next (Ask c) (Some d) = Some d"
| "contract_next GiveBack cur = None"
| "contract_next Internal cur = cur"

fun contract_reply :: "room_request \<Rightarrow> string option \<Rightarrow> http_reply" where
  "contract_reply req None = success_reply req"
| "contract_reply req (Some d) = (if d = rq_ConversationID req then success_reply req else conflict_reply d)"

definition current_call :: "server \<Rightarrow> string option" where
  "current_call sv = (if wr_active (sv_worker sv) then Some (wr_activeConversationID (sv_worker sv)) else None)"

fun contract_event_of :: "server \<Rightarrow> server_event \<Rightarrow> contract_event" where
  "contract_event_of sv (Created decode body) =
     (case decodeJSONRequest decode body of Inl reply \<Rightarrow> Internal | Inr req \<Rightarrow> Ask (rq_ConversationID req))"
| "contract_event_of sv (Reserved applied) = Internal"
| "contract_event_of sv (Advanced build applied i) =
     (if bt_phase (sv_bots sv ! i) = Unpinned then GiveBack else Internal)"

lemma create_contract:
  "decodeJSONRequest decode body = Inr req \<Longrightarrow>
     current_call (fst (create_room decode body sv)) = contract_next (Ask (rq_ConversationID req)) (current_call sv)
     \<and> snd (create_room decode body sv) = contract_reply req (current_call sv)"
  by (auto simp: create_room_def handleCreateWorkerRoom_def claim_def current_call_def)

lemma create_refused:
  "decodeJSONRequest decode body = Inl reply \<Longrightarrow>
     fst (create_room decode body sv) = sv \<and> snd (create_room decode body sv) = reply"
  by (simp add: create_room_def handleCreateWorkerRoom_def)

lemma advance_contract:
  "i < length (sv_bots sv) \<Longrightarrow> current_call (advance p build applied i sv) =
     (if bt_phase (sv_bots sv ! i) = Unpinned then None else current_call sv)"
  by (auto simp: advance_def bot_step_def current_call_def finish_def setTask_def Let_def
      split: bot_phase.split sum.split)

text \<open>
  C20: the server refines its contract. Under any interleaving of requests, reservations and steps of bots,
  the conversation the worker runs changes as the abstract worker's does, which is given back by the
  step in which a bot finishes and by no other; and a well-formed request is answered as the abstract
  worker answers it: success when granted or repeated, a conflict naming the running call otherwise.
\<close>

theorem server_refines_contract:
  assumes "server_step p sv ev sv'"
  shows "current_call sv' = contract_next (contract_event_of sv ev) (current_call sv)
    \<and> (case ev of Created decode body \<Rightarrow>
         (case decodeJSONRequest decode body of
            Inl reply \<Rightarrow> sv' = sv \<and> snd (create_room decode body sv) = reply
          | Inr req \<Rightarrow> snd (create_room decode body sv) = contract_reply req (current_call sv))
       | _ \<Rightarrow> True)"
  using assms
proof cases
  case (created decode body)
  then show ?thesis
    by (cases "decodeJSONRequest decode body") (simp_all add: create_contract create_refused)
next
  case (reserved applied)
  then show ?thesis by (simp add: mark_reserved_def markReserved_def current_call_def)
next
  case (advanced i build applied)
  then show ?thesis by (simp add: advance_contract)
qed

definition other_request :: "string \<Rightarrow> room_request option" where
  "other_request b = Some (wit_request\<lparr>rq_ConversationID := '' c2 ''\<rparr>)"

lemma other_request_decoded: "decodeJSONRequest other_request [] = Inr (wit_request\<lparr>rq_ConversationID := ''c2''\<rparr>)"
  by code_simp

theorem server_refines_contract_witness:
  "snd (create_room other_request [] wit_busy) = conflict_reply ''c1''"
  using server_refines_contract [OF server_step.created, of other_request "[]" wit_busy]
  by (simp add: other_request_decoded) (simp add: wit_busy_value current_call_def wit_request_def)

section \<open>The worker is given back\<close>

fun steps_left :: "bot_phase \<Rightarrow> nat" where
  "steps_left Launched = 8"
| "steps_left Pinned = 7"
| "steps_left (Registered sid) = 6"
| "steps_left (TaskSet sid) = 5"
| "steps_left (Running sid) = 4"
| "steps_left Ended = 3"
| "steps_left Unpinned = 2"
| "steps_left Finished = 1"

definition work :: "server \<Rightarrow> nat" where
  "work sv = sum_list (map (\<lambda>b. steps_left (bt_phase b)) (sv_bots sv))"

text \<open>A run of the bots alone.\<close>

fun run_bots :: "pod \<Rightarrow> ((bot_kind \<Rightarrow> room_request \<Rightarrow> string \<Rightarrow> string + string) \<times> bool \<times> nat) list \<Rightarrow> server \<Rightarrow> server option" where
  "run_bots p [] sv = Some sv"
| "run_bots p ((build, applied, i) # steps) sv =
     (if i < length (sv_bots sv) then run_bots p steps (advance p build applied i sv) else None)"

definition cleanups_due :: "pod \<Rightarrow> server \<Rightarrow> nat" where
  "cleanups_due p sv = (if trim_space (pd_hostname p) = [] then 0 else length (sv_bots sv)) + sv_cleanups sv"

lemma bot_step_work:
  "case fst (bot_step p build applied b sv) of
     Some b' \<Rightarrow> steps_left (bt_phase b') < steps_left (bt_phase b) \<and> sv_cleanups (snd (bot_step p build applied b sv)) = sv_cleanups sv
   | None \<Rightarrow> 0 < steps_left (bt_phase b) \<and> sv_cleanups (snd (bot_step p build applied b sv)) =
       (if trim_space (pd_hostname p) = [] then 0 else 1) + sv_cleanups sv"
  by (simp add: bot_step_def Let_def split: bot_phase.split sum.split)

lemma advance_work:
  assumes "i < length (sv_bots sv)"
  shows "work (advance p build applied i sv) < work sv \<and> cleanups_due p (advance p build applied i sv) = cleanups_due p sv"
proof -
  obtain us b vs where bots: "sv_bots sv = us @ b # vs" and i: "i = length us"
    using at_split [OF assms] .
  obtain r sv' where step: "bot_step p build applied b sv = (r, sv')" by fastforce
  show ?thesis using bot_step_work [where p = p and build = build and applied = applied and b = b and sv = sv]
    by (cases r) (simp_all add: i advance_split [OF bots] step work_def cleanups_due_def bots)
qed

lemma run_bots_work:
  "run_bots p steps sv = Some sv' \<Longrightarrow>
     length steps + work sv' \<le> work sv \<and> cleanups_due p sv' = cleanups_due p sv"
proof (induction steps arbitrary: sv)
  case (Cons st steps)
  obtain build applied i where st: "st = (build, applied, i)" by (cases st)
  from Cons.prems have i: "i < length (sv_bots sv)" and run: "run_bots p steps (advance p build applied i sv) = Some sv'"
    by (auto simp: st split: if_splits)
  from Cons.IH [OF run] advance_work [OF i, of p build applied] show ?case by simp
qed simp

lemma run_bots_reachable: "run_bots p steps sv = Some sv' \<Longrightarrow> reachable p sv \<Longrightarrow> reachable p sv'"
proof (induction steps arbitrary: sv)
  case (Cons st steps)
  obtain build applied i where st: "st = (build, applied, i)" by (cases st)
  from Cons.prems(1) have i: "i < length (sv_bots sv)" and run: "run_bots p steps (advance p build applied i sv) = Some sv'"
    by (auto simp: st split: if_splits)
  from Cons.IH [OF run reachable.step [OF Cons.prems(2) server_step.advanced [OF i]]] show ?case .
qed simp

lemma work_bound: "work sv \<le> 8 * length (sv_bots sv)"
proof -
  have "steps_left ph \<le> 8" for ph by (cases ph) simp_all
  then have "sum_list (map (\<lambda>b. steps_left (bt_phase b)) bs) \<le> 8 * length bs" for bs
    by (induction bs) (auto simp: add_mono)
  then show ?thesis by (simp add: work_def)
qed


lemma wit_run: "run_bots wit_pod (replicate 3 (\<lambda>k r t. Inl ''no room'', True, 0)) wit_busy =
    Some \<lparr>sv_worker = idle_worker, sv_sessions = [], sv_evictable = True, sv_cleanups = 0,
      sv_bots = [\<lparr>bt_req = wit_request, bt_phase = Finished, bt_pinned = False\<rparr>]\<rparr>"
  by code_simp


end
