(* ===== verification/Lifecycle.thy ===== *)
theory Lifecycle
  imports Worker
begin

text \<open>
  The pod's life around the calls: registration and shutdown (\<open>disha/worker_lifecycle.go\<close>,
  \<open>signal_handler.go\<close>, \<open>abrupt_shutdown.go\<close>) and the settings \<open>main.go\<close> reads from the environment. What
  the process does to the outside world is a list of effects; \<open>getenv\<close> is the environment.
\<close>

section \<open>Registration\<close>

definition workerRegistrationTTL :: duration where "workerRegistrationTTL = 24 * 3600 * second"
definition workerSigtermTTL :: duration where "workerSigtermTTL = 2 * 3600 * second"

record registration =
  rg_PodIP :: string
  rg_PodName :: string
  rg_PodUID :: string
  rg_AppName :: string

definition workerRegistrationKey :: "string \<Rightarrow> string \<Rightarrow> string" where
  "workerRegistrationKey podName podUID = ''registered_pod:'' @ podName @ '':'' @ podUID"

definition workerSigtermKey :: "string \<Rightarrow> string" where
  "workerSigtermKey podName = ''pod_sigterm:'' @ podName"

datatype lifecycle_error = MissingDependency string | Incomplete | RedisFailed redis_error | APIFailed string

text \<open>What a lifecycle operation leaves behind: the server, the requests sent, and its error.\<close>

type_synonym lifecycle_result = "redis_server \<times> api_request list \<times> lifecycle_error option"

definition register_job :: "registration \<Rightarrow> (string \<times> json) list" where
  "register_job reg = [(''pod_ip'', JStr (rg_PodIP reg)), (''pod_name'', JStr (rg_PodName reg)),
     (''pod_uid'', JStr (rg_PodUID reg)), (''app_name'', JStr (rg_AppName reg))]"

definition RegisterWorkerPod :: "network \<Rightarrow> network \<Rightarrow> api_world \<Rightarrow> redis_server \<Rightarrow> registration \<Rightarrow> lifecycle_result" where
  "RegisterWorkerPod wget wset api s reg =
     (if rg_PodIP reg = [] \<or> rg_PodName reg = [] \<or> rg_PodUID reg = [] \<or> rg_AppName reg = []
      then (s, [], Some Incomplete)
      else let key = workerRegistrationKey (rg_PodName reg) (rg_PodUID reg)
           in (case GetCache wget s key of
                 Inl e \<Rightarrow> (s, [], Some (RedisFailed e))
               | Inr (Some v) \<Rightarrow> (s, [], None)
               | Inr None \<Rightarrow>
                   (case EnqueueJob api ''bots.gke_pod_manager'' ''register_worker_pod_db_ops'' (register_job reg)
                           ''fifo-p0-fast-l1'' of
                      (rs, Some e) \<Rightarrow> (s, rs, Some (APIFailed e))
                    | (rs, None) \<Rightarrow>
                        (case SetCache wset s key ''true'' workerRegistrationTTL of
                           (s', err) \<Rightarrow> (s', rs, map_option RedisFailed err)))))"

definition EnqueueWorkerCleanup :: "api_world \<Rightarrow> string \<Rightarrow> api_request list \<times> lifecycle_error option" where
  "EnqueueWorkerCleanup api podName =
     (if podName = [] then ([], Some (MissingDependency ''pod_name''))
      else (case EnqueueJob api ''bots.signal_handler'' ''cleanup_state'' [(''pod_name'', JStr podName)] ''p0-fast-l1'' of
              (rs, err) \<Rightarrow> (rs, map_option APIFailed err)))"

definition EnqueueWorkerGracefulShutdown :: "network \<Rightarrow> api_world \<Rightarrow> redis_server \<Rightarrow> string \<Rightarrow> lifecycle_result" where
  "EnqueueWorkerGracefulShutdown wset api s podName =
     (if podName = [] then (s, [], Some (MissingDependency ''pod_name''))
      else (case SetCache wset s (workerSigtermKey podName) ''true'' workerSigtermTTL of
              (s', Some e) \<Rightarrow> (s', [], Some (RedisFailed e))
            | (s', None) \<Rightarrow>
                (case EnqueueJob api ''bots.signal_handler'' ''on_graceful_shutdown_initiated''
                        [(''pod_name'', JStr podName)] ''fifo-p0-fast-l1'' of
                   (rs, err) \<Rightarrow> (s', rs, map_option APIFailed err))))"

section \<open>Signals and exit\<close>

datatype os_signal = SIGTERM | SIGINT

record process =
  pc_shutdownInitiated :: bool
  pc_gracefulShutdownCompleted :: bool
  pc_abruptShutdownReported :: bool

definition new_process :: process where
  "new_process = \<lparr>pc_shutdownInitiated = False, pc_gracefulShutdownCompleted = False,
     pc_abruptShutdownReported = False\<rparr>"

datatype process_effect = ExitProcess int | Sent api_request | Report string

definition handleShutdownSignal :: "(string \<Rightarrow> string) \<Rightarrow> network \<Rightarrow> api_world \<Rightarrow> os_signal \<Rightarrow> process \<times> redis_server
    \<Rightarrow> (process \<times> redis_server) \<times> process_effect list" where
  "handleShutdownSignal getenv wset api sig ps =
     (case ps of (p, s) \<Rightarrow>
        if pc_shutdownInitiated p then ((p, s), [])
        else let p1 = p\<lparr>pc_shutdownInitiated := True, pc_gracefulShutdownCompleted := True\<rparr>;
                 podName = trim_space (getenv ''HOSTNAME'')
             in if sig = SIGINT then ((p1, s), [ExitProcess 0])
                else if podName = [] then ((p1, s), [ExitProcess 0])
                else (case EnqueueWorkerGracefulShutdown wset api s podName of
                        (s', rs, err) \<Rightarrow> ((p1, s'), map Sent rs)))"

definition reportAbruptShutdownOnExit :: "(string \<Rightarrow> string) \<Rightarrow> process \<Rightarrow> process \<times> process_effect list" where
  "reportAbruptShutdownOnExit getenv p =
     (if pc_gracefulShutdownCompleted p \<or> pc_abruptShutdownReported p then (p, [])
      else let fly = trim_space (getenv ''FLY_MACHINE_ID''); host = trim_space (getenv ''HOSTNAME'');
               identifier = (if fly \<noteq> [] then fly else if host \<noteq> [] then host else ''unknown'')
           in (p\<lparr>pc_abruptShutdownReported := True\<rparr>, [Report (''Abrupt machine kill detected: '' @ identifier)]))"

fun handle_signals :: "(string \<Rightarrow> string) \<Rightarrow> (network \<times> api_world \<times> os_signal) list \<Rightarrow> process \<times> redis_server
    \<Rightarrow> (process \<times> redis_server) \<times> process_effect list" where
  "handle_signals getenv [] ps = (ps, [])"
| "handle_signals getenv ((wset, api, sig) # sigs) ps =
     (let (ps1, es) = handleShutdownSignal getenv wset api sig ps; (ps2, es') = handle_signals getenv sigs ps1
      in (ps2, es @ es'))"

section \<open>Settings\<close>

fun firstNonEmpty :: "string list \<Rightarrow> string" where
  "firstNonEmpty [] = []"
| "firstNonEmpty (v # vs) = (if trim_space v \<noteq> [] then trim_space v else firstNonEmpty vs)"

definition serverAddr :: "(string \<Rightarrow> string) \<Rightarrow> string" where
  "serverAddr getenv =
     (let port0 = trim_space (getenv ''PORT'');
          port1 = (if port0 = [] then trim_space (getenv ''FAST_API_PORT'') else port0);
          port = (if port1 = [] then ''3000'' else port1)
      in if has_prefix port '':'' then port else '':'' @ port)"

text \<open>\<open>strconv.Atoi\<close>: an optional sign and decimal digits, within 64 bits.\<close>

fun digits_value :: "int \<Rightarrow> string \<Rightarrow> int option" where
  "digits_value acc [] = Some acc"
| "digits_value acc (c # cs) =
     (if 48 \<le> code c \<and> code c \<le> 57 then digits_value (acc * 10 + int (code c) - 48) cs else None)"

definition atoi :: "string \<Rightarrow> int option" where
  "atoi s =
     (let body = (if has_prefix s ''-'' \<or> has_prefix s ''+'' then tl s else s)
      in if body = [] then None
         else case digits_value 0 body of
           None \<Rightarrow> None
         | Some n \<Rightarrow>
             (let v = (if has_prefix s ''-'' then - n else n)
              in if - (2 ^ 63) \<le> v \<and> v < 2 ^ 63 then Some v else None))"

definition redisDBFromEnv :: "(string \<Rightarrow> string) \<Rightarrow> int" where
  "redisDBFromEnv getenv =
     (let raw = trim_space (getenv ''REDIS_DB'')
      in if raw = [] then 0 else (case atoi raw of None \<Rightarrow> 0 | Some db \<Rightarrow> db))"

text \<open>\<open>loadEnv\<close>: the settings a file makes, in order; \<open>set_ok\<close> tells whether \<open>Setenv\<close> accepts a name.\<close>

definition split_first :: "char \<Rightarrow> string \<Rightarrow> (string \<times> string) option" where
  "split_first d s =
     (case dropWhile (\<lambda>c. c \<noteq> d) s of [] \<Rightarrow> None | _ # rest \<Rightarrow> Some (takeWhile (\<lambda>c. c \<noteq> d) s, rest))"

fun load_lines :: "(string \<Rightarrow> string \<Rightarrow> bool) \<Rightarrow> string list \<Rightarrow> (string \<times> string) list" where
  "load_lines set_ok [] = []"
| "load_lines set_ok (l # ls) =
     (let line = trim_space l
      in if line = [] \<or> has_prefix line ''#'' then load_lines set_ok ls
         else case split_first (CHR ''='') line of
           None \<Rightarrow> load_lines set_ok ls
         | Some (k, v) \<Rightarrow> (if set_ok k v then (k, v) # load_lines set_ok ls else []))"

definition loadEnv :: "(string \<Rightarrow> string \<Rightarrow> bool) \<Rightarrow> string \<Rightarrow> (string \<times> string) list" where
  "loadEnv set_ok data = load_lines set_ok (split_on (CHR 0x0A) data)"

text \<open>\<open>detected\<close> is the outcome of \<open>detectPodIP\<close>.\<close>

definition workerPodRegistrationFromEnv :: "(string \<Rightarrow> string) \<Rightarrow> string + string \<Rightarrow> string + registration option" where
  "workerPodRegistrationFromEnv getenv detected =
     (let podName = trim_space (getenv ''HOSTNAME''); podUID = trim_space (getenv ''POD_UID'');
          appName = trim_space (getenv ''GKE_DEPLOYMENT_NAME''); podIP = trim_space (getenv ''POD_IP'')
      in if podName = [] \<or> podUID = [] \<or> appName = [] then Inr None
         else (case (if podIP = [] then detected else Inr podIP) of
                 Inl e \<Rightarrow> Inl e
               | Inr ip \<Rightarrow> Inr (Some \<lparr>rg_PodIP = ip, rg_PodName = podName, rg_PodUID = podUID, rg_AppName = appName\<rparr>)))"

section \<open>Shutdown\<close>

lemma signals_after_first:
  "pc_shutdownInitiated (fst ps) \<Longrightarrow> handle_signals getenv sigs ps = (ps, [])"
  by (induction sigs arbitrary: ps) (auto simp: handleShutdownSignal_def split_beta)

lemma workerSigtermTTL_pos: "0 < workerSigtermTTL"
  by (simp add: workerSigtermTTL_def second_def)

text \<open>
  C35: a signal shuts the pod down once, and a pod that is to be drained stays alive. Only the first of any
  sequence of signals has an effect. An interrupt, or a termination outside a pod, exits; a termination
  in a pod never exits the process: it queues the shutdown job, at most once, and only after Redis has the
  pod's termination mark; and no abrupt kill is reported afterwards.
\<close>

theorem graceful_shutdown_once:
  fixes getenv wset api sig sigs s
  defines "run \<equiv> handle_signals getenv ((wset, api, sig) # sigs) (new_process, s)"
    and "pod \<equiv> trim_space (getenv ''HOSTNAME'')"
  shows "pc_shutdownInitiated (fst (fst run)) \<and> snd (reportAbruptShutdownOnExit getenv (fst (fst run))) = []
    \<and> (if sig = SIGINT \<or> pod = [] then snd run = [ExitProcess 0] \<and> snd (fst run) = s
       else snd run = [] \<or>
         (snd run = [Sent (enqueue_request ''bots.signal_handler'' ''on_graceful_shutdown_initiated''
             [(''pod_name'', JStr pod)] ''fifo-p0-fast-l1'')]
          \<and> cached (snd (fst run)) (workerSigtermKey pod) = Some ''true''))"
proof -
  obtain s' rs err where shut: "EnqueueWorkerGracefulShutdown wset api s pod = (s', rs, err)" by (cases "EnqueueWorkerGracefulShutdown wset api s pod")
  have first: "fst (handleShutdownSignal getenv wset api sig (new_process, s)) =
      (new_process\<lparr>pc_shutdownInitiated := True, pc_gracefulShutdownCompleted := True\<rparr>,
       if sig = SIGINT \<or> pod = [] then s else s')"
    "snd (handleShutdownSignal getenv wset api sig (new_process, s)) =
      (if sig = SIGINT \<or> pod = [] then [ExitProcess 0] else map Sent rs)"
    using shut by (auto simp: handleShutdownSignal_def new_process_def pod_def Let_def)
  have run: "run = ((new_process\<lparr>pc_shutdownInitiated := True, pc_gracefulShutdownCompleted := True\<rparr>,
       if sig = SIGINT \<or> pod = [] then s else s'), if sig = SIGINT \<or> pod = [] then [ExitProcess 0] else map Sent rs)"
    using first by (simp add: run_def split_beta signals_after_first)
  have "rs = [] \<or> rs = [enqueue_request ''bots.signal_handler'' ''on_graceful_shutdown_initiated''
        [(''pod_name'', JStr pod)] ''fifo-p0-fast-l1''] \<and> cached s' (workerSigtermKey pod) = Some ''true''"
    using shut rdb.put_ok [OF _ workerSigtermTTL_pos, of wset s "workerSigtermKey pod" "''true''" s']
    by (auto simp: EnqueueWorkerGracefulShutdown_def EnqueueJob_def Let_def split: if_splits prod.splits option.splits)
  then show ?thesis by (auto simp: run reportAbruptShutdownOnExit_def)
qed

definition reg_key :: "registration \<Rightarrow> string" where
  "reg_key reg = workerRegistrationKey (rg_PodName reg) (rg_PodUID reg)"

lemma register_outcome:
  assumes "RegisterWorkerPod wget wset api s reg = (s', rs, res)"
  shows "length rs \<le> 1 \<and> (res = None \<longrightarrow> cached s' (reg_key reg) \<noteq> None)
    \<and> (\<forall>e. res = Some (APIFailed e) \<longrightarrow> s' = s \<and> cached s (reg_key reg) = None)"
proof (cases "rg_PodIP reg = [] \<or> rg_PodName reg = [] \<or> rg_PodUID reg = [] \<or> rg_AppName reg = []")
  case True
  then show ?thesis using assms by (auto simp: RegisterWorkerPod_def)
next
  case False
  have ttl: "0 < workerRegistrationTTL" by (simp add: workerRegistrationTTL_def second_def)
  show ?thesis
  proof (cases "GetCache wget s (reg_key reg)")
    case (Inl e)
    then show ?thesis using assms False by (auto simp: RegisterWorkerPod_def reg_key_def Let_def)
  next
    case (Inr v)
    then have v: "cached s (reg_key reg) = v" using rdb.get_ok by metis
    show ?thesis
    proof (cases v)
      case (Some x)
      then show ?thesis using assms False Inr v by (auto simp: RegisterWorkerPod_def reg_key_def Let_def)
    next
      case None
      obtain s1 err where set: "SetCache wset s (reg_key reg) ''true'' workerRegistrationTTL = (s1, err)"
        by (cases "SetCache wset s (reg_key reg) ''true'' workerRegistrationTTL")
      have "err = None \<Longrightarrow> cached s1 (reg_key reg) = Some ''true''" using rdb.put_ok [OF _ ttl] set by blast
      then show ?thesis using assms False Inr v None set
        by (auto simp: RegisterWorkerPod_def EnqueueJob_def reg_key_def Let_def split: option.splits)
    qed
  qed
qed

lemma register_again:
  "cached s (reg_key reg) \<noteq> None \<Longrightarrow> fst (snd (RegisterWorkerPod wget wset api s reg)) = []"
  using rdb.get_ok [of wget s "reg_key reg"]
  by (auto simp: RegisterWorkerPod_def reg_key_def Let_def split: sum.split option.split)

text \<open>
  Registration is idempotent and never lost. A pod whose registration succeeded is marked in Redis, so
  that registering it again within a day, while the mark stands, queues no second job; and if the
  queue refuses the job, no mark is left, so that the next attempt queues it.
\<close>

theorem registration_idempotent:
  assumes "RegisterWorkerPod wget wset api s reg = (s', rs, res)"
  shows "(case res of
      None \<Rightarrow> cached s' (reg_key reg) \<noteq> None
        \<and> fst (snd (RegisterWorkerPod wget' wset' api' s' reg)) = []
    | Some (APIFailed e) \<Rightarrow> s' = s
        \<and> cached s (reg_key reg) = None
    | Some _ \<Rightarrow> True)
    \<and> length rs \<le> 1"
  using register_outcome [OF assms] register_again [of s' reg wget' wset' api']
  by (auto split: option.split lifecycle_error.split)

definition wit_reg :: registration where
  "wit_reg = \<lparr>rg_PodIP = ''10.1.2.3'', rg_PodName = ''pod-1'', rg_PodUID = ''uid-1'', rg_AppName = ''sales-worker''\<rparr>"

lemma wit_registered: "RegisterWorkerPod answering answering (\<lambda>r. None) empty_server wit_reg =
    (set_key ''registered_pod:pod-1:uid-1'' ''true'' workerRegistrationTTL empty_server,
     [enqueue_request ''bots.gke_pod_manager'' ''register_worker_pod_db_ops'' (register_job wit_reg) ''fifo-p0-fast-l1''], None)"
  by code_simp

theorem registration_idempotent_witness:
  "fst (snd (RegisterWorkerPod flaky answering (\<lambda>r. None)
     (set_key ''registered_pod:pod-1:uid-1'' ''true'' workerRegistrationTTL empty_server) wit_reg)) = []"
  using registration_idempotent [OF wit_registered, where wget' = flaky and wset' = answering and api' = "\<lambda>r. None"]
  by simp

end
