(* ===== verification/Documents.thy ===== *)
theory Documents
  imports Redis
begin

text \<open>
  \<open>disha/document_store.go\<close> and \<open>disha/jinja_renderer.go\<close>: prompts are read from Redis, kept for twenty
  minutes in the process, and rendered by a Python helper behind a pipe. The helper itself is a function
  of the request it reads; what the operating system does to the pipe in each attempt is an argument.
\<close>

section \<open>The document store\<close>

record document_version =
  dv_ID :: string
  dv_PromptText :: string
  dv_ConfigJSON :: "(string \<times> json) list"
  dv_Version :: int

type_synonym document_cache = "(string \<times> (document_version \<times> gotime)) list"

definition documentCacheTTL :: duration where "documentCacheTTL = 20 * 60 * second"

definition documentKeyPrefix :: string where "documentKeyPrefix = ''document''"

definition resolveDocumentEnvironment :: "(string \<Rightarrow> string) \<Rightarrow> string" where
  "resolveDocumentEnvironment getenv =
     (if trim_space (to_lower (getenv ''ENVIRONMENT'')) \<in> {''staging'', ''dev''} then ''latest'' else ''production'')"

definition redisKey :: "string \<Rightarrow> string \<Rightarrow> int \<Rightarrow> string" where
  "redisKey env name version =
     (if version > 0 then documentKeyPrefix @ '':'' @ name @ '':v'' @ int_str version
      else documentKeyPrefix @ '':'' @ name @ '':'' @ env)"

definition documentCacheKey :: "string \<Rightarrow> int \<Rightarrow> string" where
  "documentCacheKey name version = (if version > 0 then name @ '':v'' @ int_str version else name)"

definition PromptKey :: "string \<Rightarrow> int \<Rightarrow> string" where
  "PromptKey name version = name @ ''_v'' @ int_str version"

datatype document_error =
    RedisFailed string redis_error
  | NotInRedis string int string
  | PayloadMalformed string

text \<open>An entry past its expiry is deleted by the lookup that finds it.\<close>

definition lookupCache :: "gotime \<Rightarrow> document_cache \<Rightarrow> string \<Rightarrow> document_cache \<times> document_version option" where
  "lookupCache now cache key =
     (case map_of cache key of
        None \<Rightarrow> (cache, None)
      | Some (doc, expiresAt) \<Rightarrow>
          if now > expiresAt then (filter (\<lambda>kv. fst kv \<noteq> key) cache, None) else (cache, Some doc))"

definition storeCache :: "gotime \<Rightarrow> string \<Rightarrow> document_version \<Rightarrow> document_cache \<Rightarrow> document_cache" where
  "storeCache now key doc cache = (key, (doc, now + documentCacheTTL)) # filter (\<lambda>kv. fst kv \<noteq> key) cache"

definition fetchFromRedis :: "(string \<Rightarrow> document_version option) \<Rightarrow> network \<Rightarrow> redis_server \<Rightarrow> string \<Rightarrow> string \<Rightarrow> int
    \<Rightarrow> document_error + document_version" where
  "fetchFromRedis decode w s env name version =
     (let key = redisKey env name version
      in case GetCache w s key of
           Inl e \<Rightarrow> Inl (RedisFailed name e)
         | Inr None \<Rightarrow> Inl (NotInRedis name version key)
         | Inr (Some raw) \<Rightarrow> (case decode raw of None \<Rightarrow> Inl (PayloadMalformed name) | Some doc \<Rightarrow> Inr doc))"

text \<open>One call: the network, the server it finds, and the instants of its lookup and of its store.\<close>

record doc_call =
  dc_net :: network
  dc_redis :: redis_server
  dc_lookup :: gotime
  dc_store :: gotime
  dc_name :: string
  dc_version :: int

definition resolve :: "(string \<Rightarrow> document_version option) \<Rightarrow> string \<Rightarrow> doc_call \<Rightarrow> document_cache
    \<Rightarrow> document_cache \<times> (document_error + document_version)" where
  "resolve decode env c cache =
     (let cacheKey = documentCacheKey (dc_name c) (dc_version c)
      in case lookupCache (dc_lookup c) cache cacheKey of
           (cache1, Some doc) \<Rightarrow> (cache1, Inr doc)
         | (cache1, None) \<Rightarrow>
             (case fetchFromRedis decode (dc_net c) (dc_redis c) env (dc_name c) (dc_version c) of
                Inl e \<Rightarrow> (cache1, Inl e)
              | Inr doc \<Rightarrow> (storeCache (dc_store c) cacheKey doc cache1, Inr doc)))"

fun resolve_all :: "(string \<Rightarrow> document_version option) \<Rightarrow> string \<Rightarrow> document_cache \<Rightarrow> doc_call list
    \<Rightarrow> (document_error + document_version) list" where
  "resolve_all decode env cache [] = []"
| "resolve_all decode env cache (c # cs) =
     (let (cache1, r) = resolve decode env c cache in r # resolve_all decode env cache1 cs)"

section \<open>What the cache may serve\<close>

text \<open>A document was in Redis under the key of a call.\<close>

definition read_by :: "(string \<Rightarrow> document_version option) \<Rightarrow> string \<Rightarrow> doc_call \<Rightarrow> document_version \<Rightarrow> bool" where
  "read_by decode env c doc \<longleftrightarrow>
     (\<exists>raw. cached (dc_redis c) (redisKey env (dc_name c) (dc_version c)) = Some raw \<and> decode raw = Some doc)"

definition cache_ok :: "(string \<Rightarrow> document_version option) \<Rightarrow> string \<Rightarrow> doc_call list \<Rightarrow> document_cache \<Rightarrow> bool" where
  "cache_ok decode env past cache \<longleftrightarrow>
     (\<forall>(k, doc, expiresAt) \<in> set cache. \<exists>c \<in> set past. k = documentCacheKey (dc_name c) (dc_version c)
        \<and> read_by decode env c doc \<and> expiresAt = dc_store c + documentCacheTTL)"

lemma cache_ok_filter: "cache_ok decode env past cache \<Longrightarrow> cache_ok decode env past (filter P cache)"
  by (auto simp: cache_ok_def)

lemma cache_ok_more: "cache_ok decode env past cache \<Longrightarrow> cache_ok decode env (past @ rest) cache"
  by (fastforce simp: cache_ok_def)

lemma cache_ok_Cons: "cache_ok decode env past ((k, doc, t) # cache) \<longleftrightarrow>
    (\<exists>c \<in> set past. k = documentCacheKey (dc_name c) (dc_version c) \<and> read_by decode env c doc
      \<and> t = dc_store c + documentCacheTTL) \<and> cache_ok decode env past cache"
  by (simp add: cache_ok_def)

lemma fetchFromRedis_read:
  "fetchFromRedis decode (dc_net c) (dc_redis c) env (dc_name c) (dc_version c) = Inr doc \<Longrightarrow> read_by decode env c doc"
  by (auto simp: fetchFromRedis_def read_by_def Let_def split: sum.splits option.splits dest!: rdb.get_ok [THEN sym])

lemma lookupCache_ok:
  assumes "cache_ok decode env past cache" and "lookupCache now cache k = (cache1, r)"
  shows "cache_ok decode env past cache1"
    and "r = Some doc \<Longrightarrow> \<exists>c \<in> set past. k = documentCacheKey (dc_name c) (dc_version c)
      \<and> read_by decode env c doc \<and> now \<le> dc_store c + documentCacheTTL"
  using assms
  by (auto simp: lookupCache_def cache_ok_filter split: option.splits if_splits)
     (fastforce simp: cache_ok_def dest!: map_of_SomeD)

lemma resolve_ok:
  assumes "cache_ok decode env past cache" and "resolve decode env c cache = (cache1, r)"
  shows "cache_ok decode env (past @ [c]) cache1"
    and "r = Inr doc \<Longrightarrow> read_by decode env c doc \<or>
      (\<exists>c' \<in> set past. documentCacheKey (dc_name c) (dc_version c) = documentCacheKey (dc_name c') (dc_version c')
        \<and> read_by decode env c' doc \<and> dc_lookup c \<le> dc_store c' + documentCacheTTL)"
proof -
  obtain cache2 found where look: "lookupCache (dc_lookup c) cache (documentCacheKey (dc_name c) (dc_version c))
      = (cache2, found)" by (meson surj_pair)
  note ok = lookupCache_ok [OF assms(1) look]
  show "cache_ok decode env (past @ [c]) cache1"
  proof (cases found)
    case (Some d)
    then show ?thesis using assms(2) look ok(1) by (simp add: resolve_def Let_def cache_ok_more)
  next
    case None
    have kept: "cache_ok decode env (past @ [c]) (filter P cache2)" for P
      using ok(1) by (simp add: cache_ok_filter cache_ok_more)
    show ?thesis
    proof (cases "fetchFromRedis decode (dc_net c) (dc_redis c) env (dc_name c) (dc_version c)")
      case (Inl e)
      then show ?thesis using assms(2) look None ok(1) by (simp add: resolve_def Let_def cache_ok_more)
    next
      case (Inr d)
      then have "cache1 = storeCache (dc_store c) (documentCacheKey (dc_name c) (dc_version c)) d cache2"
        using assms(2) look None by (simp add: resolve_def Let_def)
      then show ?thesis using kept fetchFromRedis_read [OF Inr] by (auto simp: storeCache_def cache_ok_Cons)
    qed
  qed
  show "r = Inr doc \<Longrightarrow> read_by decode env c doc \<or>
      (\<exists>c' \<in> set past. documentCacheKey (dc_name c) (dc_version c) = documentCacheKey (dc_name c') (dc_version c')
        \<and> read_by decode env c' doc \<and> dc_lookup c \<le> dc_store c' + documentCacheTTL)"
    using assms(2) look ok(2) fetchFromRedis_read [of decode c env]
    by (auto simp: resolve_def Let_def split: option.splits sum.splits)
qed

lemma resolve_all_ok:
  assumes "cache_ok decode env past cache" and "i < length cs" and "resolve_all decode env cache cs ! i = Inr doc"
  shows "read_by decode env (cs ! i) doc \<or> (\<exists>c' \<in> set (past @ take i cs).
      documentCacheKey (dc_name (cs ! i)) (dc_version (cs ! i)) = documentCacheKey (dc_name c') (dc_version c')
      \<and> read_by decode env c' doc \<and> dc_lookup (cs ! i) \<le> dc_store c' + documentCacheTTL)"
  using assms
proof (induction cs arbitrary: past cache i)
  case (Cons c cs)
  obtain cache1 r where step: "resolve decode env c cache = (cache1, r)" by (meson surj_pair)
  show ?case
  proof (cases i)
    case 0
    then show ?thesis using resolve_ok(2) [OF Cons.prems(1) step] Cons.prems(3) by (simp add: step)
  next
    case (Suc j)
    then show ?thesis
      using Cons.IH [OF resolve_ok(1) [OF Cons.prems(1) step], of j] Cons.prems(2,3) by (simp add: step)
  qed
qed simp

text \<open>For names without a colon the cache distinguishes what Redis distinguishes.\<close>

lemma append_colon:
  "a @ CHR '':'' # x = b @ CHR '':'' # y \<Longrightarrow> CHR '':'' \<notin> set a \<Longrightarrow> CHR '':'' \<notin> set b \<Longrightarrow> a = b \<and> x = y"
  by (induction a arbitrary: b) (auto simp: Cons_eq_append_conv)

lemma cache_key_faithful:
  assumes "documentCacheKey n v = documentCacheKey n' v'" and "CHR '':'' \<notin> set n" "CHR '':'' \<notin> set n'"
  shows "redisKey env n v = redisKey env n' v'"
proof (cases "v > 0"; cases "v' > 0")
  assume v: "v > 0" "v' > 0"
  then have "n @ CHR '':'' # ''v'' @ int_str v = n' @ CHR '':'' # ''v'' @ int_str v'"
    using assms(1) by (simp add: documentCacheKey_def)
  from append_colon [OF this assms(2,3)] show ?thesis using v by (simp add: redisKey_def)
next
  assume v: "v > 0" "\<not> v' > 0"
  then have "n' = n @ '':v'' @ int_str v" using assms(1) by (simp add: documentCacheKey_def)
  then show ?thesis using assms(3) by simp
next
  assume v: "\<not> v > 0" "v' > 0"
  then have "n = n' @ '':v'' @ int_str v'" using assms(1) by (simp add: documentCacheKey_def)
  then show ?thesis using assms(2) by simp
next
  assume "\<not> v > 0" "\<not> v' > 0"
  then show ?thesis using assms(1) by (simp add: documentCacheKey_def redisKey_def)
qed

text \<open>
  C25: a prompt is never older than twenty minutes. Over any sequence of requests to a new document
  store, whatever Redis answers, a document that is returned was read from Redis, under the key of the
  very document and version asked for, either by this request or by an earlier one stored at most
  twenty minutes before. (Names hold no colon.)
\<close>

theorem document_fresh:
  assumes "i < length calls" and "resolve_all decode env [] calls ! i = Inr doc"
    and "\<forall>c \<in> set calls. CHR '':'' \<notin> set (dc_name c)"
  shows "\<exists>j \<le> i. redisKey env (dc_name (calls ! j)) (dc_version (calls ! j))
        = redisKey env (dc_name (calls ! i)) (dc_version (calls ! i))
      \<and> (\<exists>raw. cached (dc_redis (calls ! j)) (redisKey env (dc_name (calls ! i)) (dc_version (calls ! i))) = Some raw
           \<and> decode raw = Some doc)
      \<and> (j = i \<or> dc_lookup (calls ! i) \<le> dc_store (calls ! j) + 20 * 60 * second)"
proof -
  have "cache_ok decode env [] []" by (simp add: cache_ok_def)
  from resolve_all_ok [OF this assms(1,2)] show ?thesis
  proof (elim disjE bexE conjE)
    assume "read_by decode env (calls ! i) doc"
    then show ?thesis unfolding read_by_def by blast
  next
    fix c' assume c': "c' \<in> set ([] @ take i calls)" "read_by decode env c' doc"
      and keys: "documentCacheKey (dc_name (calls ! i)) (dc_version (calls ! i)) = documentCacheKey (dc_name c') (dc_version c')"
      and t: "dc_lookup (calls ! i) \<le> dc_store c' + documentCacheTTL"
    then obtain j where j: "j < i" "c' = calls ! j" using assms(1) by (auto simp: in_set_conv_nth)
    have "redisKey env (dc_name (calls ! i)) (dc_version (calls ! i)) = redisKey env (dc_name c') (dc_version c')"
      using keys assms(1,3) c'(1) by (intro cache_key_faithful) (auto dest: in_set_takeD)
    moreover obtain raw where "cached (dc_redis c') (redisKey env (dc_name c') (dc_version c')) = Some raw"
      "decode raw = Some doc" using c'(2) unfolding read_by_def by blast
    ultimately show ?thesis using t j unfolding documentCacheTTL_def by (metis less_imp_le)
  qed
qed

definition wit_doc :: document_version where
  "wit_doc = \<lparr>dv_ID = ''1'', dv_PromptText = ''Hello {{ name }}'', dv_ConfigJSON = [], dv_Version = 4\<rparr>"

definition wit_doc_call :: "gotime \<Rightarrow> redis_server \<Rightarrow> doc_call" where
  "wit_doc_call t s = \<lparr>dc_net = \<lparr>nw_attempt = (\<lambda>i. Replied 0), nw_cancelled = (\<lambda>i. None)\<rparr>, dc_redis = s,
     dc_lookup = t, dc_store = t, dc_name = ''p'', dc_version = 0\<rparr>"

definition wit_doc_server :: redis_server where
  "wit_doc_server = set_key ''document:p:production'' ''x'' second empty_server"

definition wit_doc_calls :: "doc_call list" where
  "wit_doc_calls = [wit_doc_call 0 wit_doc_server, wit_doc_call (5 * second) empty_server]"

text \<open>The document has left Redis by the second request, which the cache still answers.\<close>

lemma wit_doc_results:
  "resolve_all (\<lambda>raw. Some wit_doc) ''production'' [] wit_doc_calls = [Inr wit_doc, Inr wit_doc]"
  by code_simp

lemma wit_doc_names: "length wit_doc_calls = 2" "\<forall>c \<in> set wit_doc_calls. CHR '':'' \<notin> set (dc_name c)"
  "dc_name (wit_doc_calls ! 1) = ''p''" "dc_version (wit_doc_calls ! 1) = 0"
  by (simp_all add: wit_doc_calls_def wit_doc_call_def)

theorem document_fresh_witness:
  "\<exists>j \<le> 1. \<exists>raw. cached (dc_redis (wit_doc_calls ! j)) (redisKey ''production'' ''p'' 0) = Some raw"
  using document_fresh [of 1 wit_doc_calls "\<lambda>raw. Some wit_doc" "''production''" wit_doc, unfolded wit_doc_results]
    wit_doc_names by auto

section \<open>The renderer\<close>

record render_request =
  rq_DocumentName :: string
  rq_DocumentVersion :: int
  rq_Text :: string
  rq_Variables :: "(string \<times> json) list"

record render_result =
  rr_Output :: string
  rr_CompileTimeMissingVars :: "string list"
  rr_UndefinedError :: string
  rr_StrictValidationError :: string

text \<open>What is written to the helper and what it answers. The answer's id is decoded and never looked at.\<close>

record jinja_request =
  jq_ID :: string
  jq_DocumentName :: string
  jq_DocumentVersion :: int
  jq_Template :: string
  jq_Variables :: "(string \<times> json) list"

record jinja_response =
  jr_ID :: string
  jr_OK :: bool
  jr_Output :: string
  jr_Stage :: string
  jr_Error :: string
  jr_CompileTimeMissingVars :: "string list"
  jr_UndefinedError :: string
  jr_StrictValidationError :: string

type_synonym jinja_helper = "jinja_request \<Rightarrow> jinja_response"

datatype render_error =
    StartError string
  | TransportError string
  | RenderFailed string int string string
  | RenderTimedOut string int string

text \<open>
  A running helper is the list of requests written to it whose answers nobody has read: it answers in
  order, so the next answer read is to the first of them.
\<close>

record jinja_renderer =
  jn_seq :: "64 word"
  jn_process :: "jinja_request list option"

definition new_renderer :: jinja_renderer where
  "new_renderer = \<lparr>jn_seq = 0, jn_process = None\<rparr>"

text \<open>
  What happens to one attempt: the process does not start, the request cannot be written or its answer
  not be read, the context ends first, or the answer arrives.
\<close>

datatype pipe_fate = WriteFails string | ReadFails string | ContextDone string | AnswerRead

record attempt_fate =
  af_start :: "string option"
  af_pipe :: pipe_fate

definition ensureStartedLocked :: "attempt_fate \<Rightarrow> jinja_renderer \<Rightarrow> string + jinja_renderer" where
  "ensureStartedLocked fate r =
     (case jn_process r of
        Some pending \<Rightarrow> Inr r
      | None \<Rightarrow> (case af_start fate of Some e \<Rightarrow> Inl e | None \<Rightarrow> Inr (r\<lparr>jn_process := Some []\<rparr>)))"

definition stopLocked :: "jinja_renderer \<Rightarrow> jinja_renderer" where
  "stopLocked r = r\<lparr>jn_process := None\<rparr>"

definition wire_request :: "64 word \<Rightarrow> render_request \<Rightarrow> jinja_request" where
  "wire_request n q =
     \<lparr>jq_ID = nat_str (unat n), jq_DocumentName = rq_DocumentName q, jq_DocumentVersion = rq_DocumentVersion q,
      jq_Template = rq_Text q, jq_Variables = rq_Variables q\<rparr>"

definition rendered_result :: "render_request \<Rightarrow> jinja_response \<Rightarrow> render_error + render_result" where
  "rendered_result q resp =
     (if \<not> jr_OK resp then Inl (RenderFailed (rq_DocumentName q) (rq_DocumentVersion q) (jr_Stage resp) (jr_Error resp))
      else Inr \<lparr>rr_Output = jr_Output resp, rr_CompileTimeMissingVars = jr_CompileTimeMissingVars resp,
        rr_UndefinedError = jr_UndefinedError resp, rr_StrictValidationError = jr_StrictValidationError resp\<rparr>)"

definition renderOnceLocked :: "jinja_helper \<Rightarrow> attempt_fate \<Rightarrow> jinja_renderer \<Rightarrow> render_request
    \<Rightarrow> jinja_renderer \<times> (render_error + render_result)" where
  "renderOnceLocked helper fate r q =
     (case ensureStartedLocked fate r of
        Inl e \<Rightarrow> (r, Inl (StartError e))
      | Inr r1 \<Rightarrow>
          (let r2 = r1\<lparr>jn_seq := jn_seq r1 + 1\<rparr>; wireReq = wire_request (jn_seq r2) q
           in case af_pipe fate of
                WriteFails e \<Rightarrow> (stopLocked r2, Inl (TransportError e))
              | ReadFails e \<Rightarrow> (stopLocked r2, Inl (TransportError e))
              | ContextDone e \<Rightarrow>
                  (stopLocked r2, Inl (RenderTimedOut (rq_DocumentName q) (rq_DocumentVersion q) e))
              | AnswerRead \<Rightarrow>
                  (case the (jn_process r2) @ [wireReq] of
                     first # pending \<Rightarrow> (r2\<lparr>jn_process := Some pending\<rparr>, rendered_result q (helper first))
                   | [] \<Rightarrow> (r2, Inl (TransportError [])))))"

fun is_transport :: "render_error \<Rightarrow> bool" where
  "is_transport (TransportError e) = True"
| "is_transport _ = False"

text \<open>One render: the fates of its two attempts, and whether its context still lives between them.\<close>

record render_world =
  rw_first :: attempt_fate
  rw_second :: attempt_fate
  rw_alive :: bool

definition Render :: "jinja_helper \<Rightarrow> render_world \<Rightarrow> jinja_renderer \<Rightarrow> render_request
    \<Rightarrow> jinja_renderer \<times> (render_error + render_result)" where
  "Render helper w r q =
     (case renderOnceLocked helper (rw_first w) r q of
        (r1, Inr x) \<Rightarrow> (r1, Inr x)
      | (r1, Inl e) \<Rightarrow>
          (if is_transport e \<and> rw_alive w then renderOnceLocked helper (rw_second w) r1 q else (r1, Inl e)))"

definition Close :: "jinja_renderer \<Rightarrow> jinja_renderer" where
  "Close r = stopLocked r"

definition jinjaRendererConfig :: "(string \<Rightarrow> string) \<Rightarrow> (string \<Rightarrow> string) \<Rightarrow> string \<times> string" where
  "jinjaRendererConfig getenv absolute =
     (let p1 = trim_space (getenv ''JINJA_RENDERER_PYTHON'');
          p2 = (if p1 = [] then trim_space (getenv ''DAILY_BRIDGE_PYTHON'') else p1);
          python = (if p2 = [] then ''python3'' else p2);
          s1 = trim_space (getenv ''JINJA_RENDERER_SCRIPT'');
          script = (if s1 = [] then ''jinja_renderer.py'' else s1)
      in (python, if has_prefix script ''/'' then script else absolute script))"

section \<open>The renderer stays in step with its helper\<close>

text \<open>
  The interface of \<open>TemplateRenderer\<close> as the document store uses it: whatever happened before, a result
  is the one meant by the request it answers, and the renderer can be used again.
\<close>

locale template_renderer =
  fixes render :: "'w \<Rightarrow> 'r \<Rightarrow> render_request \<Rightarrow> 'r \<times> (render_error + render_result)"
    and close_renderer :: "'r \<Rightarrow> 'r"
    and ready :: "'r \<Rightarrow> bool"
    and meant :: "render_request \<Rightarrow> render_result \<Rightarrow> bool"
  assumes ready_render: "ready r \<Longrightarrow> ready (fst (render w r q))"
    and meant_render: "ready r \<Longrightarrow> snd (render w r q) = Inr x \<Longrightarrow> meant q x"
    and ready_close: "ready r \<Longrightarrow> ready (close_renderer r)"
begin

fun renders :: "'r \<Rightarrow> ('w \<times> render_request) list \<Rightarrow> (render_error + render_result) list" where
  "renders r [] = []"
| "renders r ((w, q) # ops) = (let (r1, res) = render w r q in res # renders r1 ops)"

lemma renders_meant:
  assumes "ready r" and "i < length ops" and "renders r ops ! i = Inr x"
  shows "meant (snd (ops ! i)) x"
  using assms
proof (induction r ops arbitrary: i rule: renders.induct)
  case (2 r w q ops)
  obtain r1 res where step: "render w r q = (r1, res)" by (meson surj_pair)
  then have "ready r1" "res = Inr x \<Longrightarrow> meant q x"
    using ready_render [OF 2(2), of w q] meant_render [OF 2(2), of w q] by simp_all
  then show ?case using 2(1) [OF step [symmetric] refl, of "i - 1"] 2(3,4) step by (cases i) auto
qed simp

lemma renders_length [simp]: "length (renders r ops) = length ops"
  by (induction ops arbitrary: r) (auto split: prod.split)

end

definition in_step :: "jinja_renderer \<Rightarrow> bool" where
  "in_step r \<longleftrightarrow> jn_process r \<in> {None, Some []}"

definition answers :: "jinja_helper \<Rightarrow> render_request \<Rightarrow> render_result \<Rightarrow> bool" where
  "answers helper q x \<longleftrightarrow> (\<exists>n. rendered_result q (helper (wire_request n q)) = Inr x)"

lemma in_step_new [simp]: "in_step new_renderer"
  by (simp add: in_step_def new_renderer_def)

lemma renderOnce_in_step:
  assumes "in_step r" and "renderOnceLocked helper fate r q = (r1, res)"
  shows "in_step r1" and "res = Inr x \<Longrightarrow> answers helper q x" and "jn_seq r1 = jn_seq r \<or> jn_seq r1 = jn_seq r + 1"
proof -
  have "in_step r1 \<and> (res = Inr x \<longrightarrow> answers helper q x) \<and> (jn_seq r1 = jn_seq r \<or> jn_seq r1 = jn_seq r + 1)"
    using assms
    by (auto simp: in_step_def renderOnceLocked_def ensureStartedLocked_def stopLocked_def answers_def Let_def
        split: option.splits pipe_fate.splits)
  then show "in_step r1" "res = Inr x \<Longrightarrow> answers helper q x" "jn_seq r1 = jn_seq r \<or> jn_seq r1 = jn_seq r + 1"
    by blast+
qed

lemma Render_in_step:
  assumes "in_step r"
  shows "in_step (fst (Render helper w r q))" and "snd (Render helper w r q) = Inr x \<Longrightarrow> answers helper q x"
proof -
  obtain r1 res1 where one: "renderOnceLocked helper (rw_first w) r q = (r1, res1)" by (meson surj_pair)
  obtain r2 res2 where two: "renderOnceLocked helper (rw_second w) r1 q = (r2, res2)" by (meson surj_pair)
  note a = renderOnce_in_step [OF assms one]
  note b = renderOnce_in_step [OF a(1) two]
  show "in_step (fst (Render helper w r q))" using a(1) b(1) by (cases res1) (simp_all add: Render_def one two)
  show "snd (Render helper w r q) = Inr x \<Longrightarrow> answers helper q x"
    using a(2) b(2) by (cases res1) (auto simp: Render_def one two split: if_splits)
qed

interpretation jinja: template_renderer "Render helper" Close in_step "answers helper" for helper
  by unfold_locales (auto simp: Render_in_step, simp add: Close_def stopLocked_def in_step_def)


definition wit_render :: "render_request" where
  "wit_render = \<lparr>rq_DocumentName = ''p'', rq_DocumentVersion = 4, rq_Text = ''Hi'', rq_Variables = []\<rparr>"

definition echo_helper :: jinja_helper where
  "echo_helper q = \<lparr>jr_ID = jq_ID q, jr_OK = True, jr_Output = jq_Template q, jr_Stage = [], jr_Error = [],
     jr_CompileTimeMissingVars = [], jr_UndefinedError = [], jr_StrictValidationError = []\<rparr>"

text \<open>The first render times out with its answer unread; the second one breaks once and then succeeds.\<close>

definition wit_renders :: "(render_world \<times> render_request) list" where
  "wit_renders =
     [(\<lparr>rw_first = \<lparr>af_start = None, af_pipe = ContextDone ''deadline''\<rparr>,
        rw_second = \<lparr>af_start = None, af_pipe = AnswerRead\<rparr>, rw_alive = False\<rparr>, wit_render\<lparr>rq_Text := ''Old''\<rparr>),
      (\<lparr>rw_first = \<lparr>af_start = None, af_pipe = ReadFails ''EOF''\<rparr>,
        rw_second = \<lparr>af_start = None, af_pipe = AnswerRead\<rparr>, rw_alive = True\<rparr>, wit_render)]"

lemma wit_renders_second: "jinja.renders echo_helper new_renderer wit_renders ! 1 =
    Inr \<lparr>rr_Output = ''Hi'', rr_CompileTimeMissingVars = [], rr_UndefinedError = [], rr_StrictValidationError = []\<rparr>"
  by (simp add: wit_renders_def wit_render_def Render_def renderOnceLocked_def ensureStartedLocked_def stopLocked_def
      new_renderer_def rendered_result_def echo_helper_def wire_request_def Let_def)


section \<open>A prompt is read and rendered\<close>

datatype get_document_error = ResolveError document_error | RendererError render_error

record 'r document_store =
  ds_env :: string
  ds_cache :: document_cache
  ds_renderer :: 'r

definition NewDocumentStore :: "(string \<Rightarrow> string) \<Rightarrow> jinja_renderer document_store" where
  "NewDocumentStore getenv =
     \<lparr>ds_env = resolveDocumentEnvironment getenv, ds_cache = [], ds_renderer = new_renderer\<rparr>"

definition GetDocumentWithConfig :: "('r \<Rightarrow> render_request \<Rightarrow> 'r \<times> (render_error + render_result))
    \<Rightarrow> (string \<Rightarrow> document_version option) \<Rightarrow> doc_call \<Rightarrow> (string \<times> json) list \<Rightarrow> 'r document_store
    \<Rightarrow> 'r document_store \<times> (get_document_error + string \<times> int \<times> (string \<times> json) list)" where
  "GetDocumentWithConfig render decode c variables st =
     (case resolve decode (ds_env st) c (ds_cache st) of
        (cache1, Inl e) \<Rightarrow> (st\<lparr>ds_cache := cache1\<rparr>, Inl (ResolveError e))
      | (cache1, Inr doc) \<Rightarrow>
          (case render (ds_renderer st) \<lparr>rq_DocumentName = dc_name c, rq_DocumentVersion = dv_Version doc,
                  rq_Text = dv_PromptText doc, rq_Variables = variables\<rparr> of
             (r1, Inl e) \<Rightarrow> (st\<lparr>ds_cache := cache1, ds_renderer := r1\<rparr>, Inl (RendererError e))
           | (r1, Inr x) \<Rightarrow> (st\<lparr>ds_cache := cache1, ds_renderer := r1\<rparr>,
                Inr (rr_Output x, dv_Version doc, dv_ConfigJSON doc))))"

definition GetDocument :: "('r \<Rightarrow> render_request \<Rightarrow> 'r \<times> (render_error + render_result))
    \<Rightarrow> (string \<Rightarrow> document_version option) \<Rightarrow> doc_call \<Rightarrow> (string \<times> json) list \<Rightarrow> 'r document_store
    \<Rightarrow> 'r document_store \<times> (get_document_error + string \<times> int)" where
  "GetDocument render decode c variables st =
     (case GetDocumentWithConfig render decode c variables st of
        (st1, Inl e) \<Rightarrow> (st1, Inl e)
      | (st1, Inr (txt, version, config)) \<Rightarrow> (st1, Inr (txt, version)))"

text \<open>What a document store with a good renderer returns.\<close>

context template_renderer
begin

lemma document_rendered:
  assumes "ready (ds_renderer st)" and "GetDocumentWithConfig (render w) decode c variables st = (st1, Inr (txt, v, cfg))"
  obtains doc x where "snd (resolve decode (ds_env st) c (ds_cache st)) = Inr doc"
    and "meant \<lparr>rq_DocumentName = dc_name c, rq_DocumentVersion = dv_Version doc,
      rq_Text = dv_PromptText doc, rq_Variables = variables\<rparr> x"
    and "txt = rr_Output x" and "v = dv_Version doc" and "cfg = dv_ConfigJSON doc" and "ready (ds_renderer st1)"
proof -
  obtain cache1 r where one: "resolve decode (ds_env st) c (ds_cache st) = (cache1, r)" by (meson surj_pair)
  then obtain doc where doc: "r = Inr doc" using assms(2) by (cases r) (auto simp: GetDocumentWithConfig_def)
  let ?q = "\<lparr>rq_DocumentName = dc_name c, rq_DocumentVersion = dv_Version doc,
      rq_Text = dv_PromptText doc, rq_Variables = variables\<rparr>"
  obtain r1 res where two: "render w (ds_renderer st) ?q = (r1, res)" by (meson surj_pair)
  then obtain x where x: "res = Inr x" using assms(2) one doc by (cases res) (auto simp: GetDocumentWithConfig_def)
  have "meant ?q x" "ready r1"
    using meant_render [OF assms(1), of w ?q x] ready_render [OF assms(1), of w ?q] two x by simp_all
  then show thesis using that [of doc x] assms(2) one doc two x by (auto simp: GetDocumentWithConfig_def)
qed

end

end
