(* ===== verification/DailyRoom.thy ===== *)
theory DailyRoom
  imports Pipeline
begin

text \<open>
  The Daily transport (\<open>daily_room.go\<close>): the bridge process that joins a room, the events it reports,
  the app messages a client sends, and what all of them do to the task. The measurements taken when
  performance diagnostics are on are left out. What a handler does beside changing the room is a list
  of effects, in order; \<open>settle\<close> applies them to the task.
\<close>

section \<open>Effects of a transport\<close>

datatype room_effect =
    SessionKnown string string string
  | UserSessionKnown string
  | UserPresent gotime
  | UserGone gotime
  | Core effect
  | QueueOnSource frame direction
  | AudioIn "byte list"
  | SentMessage json
  | SentAudio "byte list"
  | BridgeStarted
  | LeaveSent
  | BridgeGone

text \<open>The state of the task that the transports touch: its UI events, statistics and call events.\<close>

fun settle :: "gotime \<Rightarrow> room_effect \<Rightarrow> pipeline_task \<Rightarrow> pipeline_task" where
  "settle now (SessionKnown kind meetingID botSessionID) t =
     t\<lparr>pt_UIEvents := SetTransportSession kind meetingID botSessionID (pt_UIEvents t)\<rparr>"
| "settle now (UserSessionKnown i) t = t\<lparr>pt_UIEvents := SetUserSessionID i (pt_UIEvents t)\<rparr>"
| "settle now (UserPresent at0) t = t\<lparr>pt_callStats := MarkUserJoined now at0 (pt_callStats t)\<rparr>"
| "settle now (UserGone at0) t = t\<lparr>pt_callStats := MarkUserLeft now at0 (pt_callStats t)\<rparr>"
| "settle now (Core (Fire ev)) t = t\<lparr>pt_callEvents := fire ev (pt_callEvents t)\<rparr>"
| "settle now (Core (UI ev at0)) t = t\<lparr>pt_UIEvents := fst (ui_apply now ev at0 (pt_UIEvents t))\<rparr>"
| "settle now (AudioIn pcm) t =
     (let (stats, es) = PushPCM now (pt_callStats t) pcm
      in fold (\<lambda>e t. case e of Fire ev \<Rightarrow> t\<lparr>pt_callEvents := fire ev (pt_callEvents t)\<rparr> | _ \<Rightarrow> t) es
           (t\<lparr>pt_callStats := stats\<rparr>))"
| "settle now _ t = t"

definition settle_all :: "gotime \<Rightarrow> room_effect list \<Rightarrow> pipeline_task \<Rightarrow> pipeline_task" where
  "settle_all now es t = fold (settle now) es t"

section \<open>The messages of the client\<close>

definition rtviProtocolVersion :: string where "rtviProtocolVersion = ''1.2.0''"

record app_message =
  am_Label :: string
  am_Type :: string
  am_ID :: string
  am_Data :: string

text \<open>\<open>json.Unmarshal\<close> into the three shapes, and base64.\<close>

record room_codec =
  rc_base64 :: "string \<Rightarrow> byte list option"
  rc_text :: "string \<Rightarrow> string option"
  rc_app :: "string \<Rightarrow> app_message option"
  rc_client :: "string \<Rightarrow> string option"

definition rtviMessageID :: "gotime \<Rightarrow> string \<Rightarrow> string" where
  "rtviMessageID now i = (if trim_space i \<noteq> [] then i else ''go-'' @ int_str (unix_nano now))"

definition legacy_pong :: json where
  "legacy_pong = JObj [(''type'', JStr ''pong'')]"

definition server_response :: "gotime \<Rightarrow> string \<Rightarrow> string \<Rightarrow> json \<Rightarrow> json" where
  "server_response now i messageType data =
     JObj [(''label'', JStr rtviDebugLabel), (''type'', JStr ''server-response''), (''id'', JStr (rtviMessageID now i)),
           (''data'', JObj [(''t'', JStr messageType), (''d'', data)])]"

definition bot_ready :: "gotime \<Rightarrow> string \<Rightarrow> json" where
  "bot_ready now i =
     JObj [(''label'', JStr rtviDebugLabel), (''type'', JStr ''bot-ready''), (''id'', JStr (rtviMessageID now i)),
           (''data'', JObj [(''version'', JStr rtviProtocolVersion), (''about'', JObj [(''library'', JStr ''talk-go'')])])]"

section \<open>The room\<close>

definition botIdentity :: string where "botIdentity = ''bot''"
definition dailyJoinRetries :: nat where "dailyJoinRetries = 3"

record daily_room =
  dr_roomURL :: string
  dr_roomName :: string
  dr_closed :: bool
  dr_exited :: bool
  dr_joinResult :: "string option option"
  dr_greeted :: bool

definition dailyRoomNameFromURL :: "string \<Rightarrow> string" where
  "dailyRoomNameFromURL roomURL0 =
     (let roomURL = trim_right_char (CHR ''/'') roomURL0; name = rev (takeWhile (\<lambda>c. c \<noteq> CHR ''/'') (rev roomURL))
      in if CHR ''/'' \<notin> set roomURL \<or> name = [] then roomURL else name)"

definition new_daily_room :: "string \<Rightarrow> daily_room" where
  "new_daily_room roomURL =
     \<lparr>dr_roomURL = roomURL, dr_roomName = dailyRoomNameFromURL roomURL, dr_closed = False, dr_exited = False,
      dr_joinResult = None, dr_greeted = False\<rparr>"

text \<open>Nothing is written to the bridge once the room is closed.\<close>

definition writeCommand :: "room_effect \<Rightarrow> daily_room \<Rightarrow> room_effect list" where
  writeCommand_def [simp]: "writeCommand cmd r = (if dr_closed r then [] else [cmd])"

definition daily_SendAppMessage :: "json \<Rightarrow> daily_room \<Rightarrow> room_effect list" where
  "daily_SendAppMessage v r = writeCommand (SentMessage v) r"

definition daily_WriteAudioPCM :: "byte list \<Rightarrow> daily_room \<Rightarrow> room_effect list" where
  "daily_WriteAudioPCM pcm r = (if length pcm = 0 then [] else writeCommand (SentAudio pcm) r)"

definition daily_OutputSampleRate :: "daily_room \<Rightarrow> int" where
  "daily_OutputSampleRate r = defaultOutputSampleRate"

definition finishJoin :: "string option \<Rightarrow> daily_room \<Rightarrow> daily_room" where
  "finishJoin err r = (if dr_joinResult r = None then r\<lparr>dr_joinResult := Some err\<rparr> else r)"

text \<open>The effects of a user's joining, and the greeting, queued once.\<close>

definition user_joined_effects :: "gotime \<Rightarrow> string \<Rightarrow> bool \<Rightarrow> room_effect list" where
  "user_joined_effects now participantID greeted =
     [UserSessionKnown participantID, UserPresent now, Core (Fire (UserJoined now))]
     @ (if greeted then [] else [QueueOnSource (LLMMessagesAppendFrame [] True) Downstream])"

definition daily_markUserJoined :: "gotime \<Rightarrow> string \<Rightarrow> daily_room \<Rightarrow> daily_room \<times> room_effect list" where
  "daily_markUserJoined now participantID r =
     (if participantID = [] \<or> participantID = botIdentity then (r, [])
      else (r\<lparr>dr_greeted := True\<rparr>, user_joined_effects now participantID (dr_greeted r)))"

definition daily_markUserLeft :: "gotime \<Rightarrow> string \<Rightarrow> room_effect list" where
  "daily_markUserLeft now participantID =
     (if participantID = [] \<or> participantID = botIdentity then [] else [UserGone now])"

definition daily_handleAppMessage :: "room_codec \<Rightarrow> gotime \<Rightarrow> string \<Rightarrow> daily_room \<Rightarrow> room_effect list" where
  "daily_handleAppMessage codec now raw r =
     (case rc_app codec raw of
        None \<Rightarrow> []
      | Some msg \<Rightarrow>
          if am_Type msg = ''end_call'' then [Core (EndTask EndReasonClientDisconnect)]
          else if am_Type msg = ''ping'' then daily_SendAppMessage legacy_pong r
          else if am_Label msg = rtviDebugLabel \<and> am_Type msg = ''client-ready''
            then daily_SendAppMessage (bot_ready now (am_ID msg)) r
          else if am_Label msg \<noteq> rtviDebugLabel \<or> am_Type msg \<noteq> ''client-message'' then []
          else (case rc_client codec (am_Data msg) of
                  None \<Rightarrow> []
                | Some t \<Rightarrow> if t = ''ping'' then daily_SendAppMessage (server_response now (am_ID msg) t (JStr ''pong'')) r
                            else []))"

record bridge_event =
  be_Event :: string
  be_ParticipantID :: string
  be_MeetingID :: string
  be_Reason :: string
  be_Message :: string
  be_Data :: string

definition handleEvent :: "room_codec \<Rightarrow> gotime \<Rightarrow> bridge_event \<Rightarrow> daily_room \<Rightarrow> daily_room \<times> room_effect list" where
  "handleEvent codec now ev r =
     (if be_Event ev = ''joined'' then
        (finishJoin None r, [SessionKnown ''daily'' (be_MeetingID ev) (be_ParticipantID ev), Core (Fire (BotJoined now))])
      else if be_Event ev = ''participant_joined'' then daily_markUserJoined now (be_ParticipantID ev) r
      else if be_Event ev = ''participant_left'' then
        (r, daily_markUserLeft now (be_ParticipantID ev) @
            [Core (UI (ServerMessage (JsonPayload (JStr (''Participant left: '' @ be_Reason ev)))) now),
             Core (EndTask EndReasonClientDisconnect)])
      else if be_Event ev = ''audio'' then
        (r, case rc_base64 codec (be_Data ev) of None \<Rightarrow> [] | Some pcm \<Rightarrow> [AudioIn pcm])
      else if be_Event ev = ''app_message'' then (r, daily_handleAppMessage codec now (be_Message ev) r)
      else if be_Event ev = ''error'' then
        (let message0 = (if length (be_Message ev) > 0
                         then (case rc_text codec (be_Message ev) of None \<Rightarrow> [] | Some m \<Rightarrow> m) else []);
             message = (if message0 = [] then ''daily bridge error'' else message0)
         in (finishJoin (Some message) r, []))
      else (r, []))"

text \<open>
  What happens at the bridge: a line on its output, decoded or malformed, and its exit, with the error
  of \<open>cmd.Wait\<close> or none.
\<close>

datatype bridge_input = Line "bridge_event option" | Exited "string option"

fun bridge_step :: "room_codec \<Rightarrow> gotime \<Rightarrow> bridge_input \<Rightarrow> daily_room \<Rightarrow> daily_room \<times> room_effect list" where
  "bridge_step codec now (Line None) r = (r, [])"
| "bridge_step codec now (Line (Some ev)) r = handleEvent codec now ev r"
| "bridge_step codec now (Exited err) r =
     (if dr_exited r then (r, [])
      else let r1 = r\<lparr>dr_exited := True\<rparr>
           in (case err of
                 Some e \<Rightarrow> if dr_closed r then r1 else finishJoin (Some (''daily bridge exited before join: '' @ e)) r1
               | None \<Rightarrow> r1, [BridgeGone]))"

text \<open>All inputs of a room; \<open>until_joined\<close> stops as soon as the join has a result.\<close>

fun bridge_run :: "room_codec \<Rightarrow> (gotime \<times> bridge_input) list \<Rightarrow> daily_room \<Rightarrow> daily_room \<times> room_effect list" where
  "bridge_run codec [] r = (r, [])"
| "bridge_run codec ((now, i) # is) r =
     (let (r1, es) = bridge_step codec now i r; (r2, es2) = bridge_run codec is r1 in (r2, es @ es2))"

fun until_joined :: "room_codec \<Rightarrow> (gotime \<times> bridge_input) list \<Rightarrow> daily_room \<Rightarrow> daily_room \<times> room_effect list" where
  "until_joined codec [] r = (r, [])"
| "until_joined codec ((now, i) # is) r =
     (if dr_joinResult r \<noteq> None then (r, [])
      else let (r1, es) = bridge_step codec now i r; (r2, es2) = until_joined codec is r1 in (r2, es @ es2))"

text \<open>
  \<open>Disconnect\<close>: the bridge is told to leave and waited for, or killed after five seconds; lines it has
  still written are handled meanwhile.
\<close>

definition daily_Disconnect :: "room_codec \<Rightarrow> (gotime \<times> bridge_input) list \<Rightarrow> daily_room \<Rightarrow> daily_room \<times> room_effect list" where
  "daily_Disconnect codec late r =
     (if dr_closed r then (r, [])
      else let (r1, es) = bridge_run codec (late @ [(0, Exited None)]) (r\<lparr>dr_closed := True\<rparr>) in (r1, LeaveSent # es))"

section \<open>Joining\<close>

text \<open>
  One attempt: the process cannot be started, or it runs, does what is listed before the join has a
  result or times out, and what is listed after that until it has exited.
\<close>

datatype join_script = CannotStart string | Bridge "(gotime \<times> bridge_input) list" "(gotime \<times> bridge_input) list"

definition startDailyRoomAttempt :: "room_codec \<Rightarrow> string \<Rightarrow> join_script \<Rightarrow> room_effect list \<times> (string + daily_room)" where
  "startDailyRoomAttempt codec roomURL script =
     (case script of
        CannotStart e \<Rightarrow> ([], Inl e)
      | Bridge inputs late \<Rightarrow>
          (case until_joined codec inputs (new_daily_room roomURL) of
             (r, es) \<Rightarrow>
               (case dr_joinResult r of
                  Some None \<Rightarrow> (BridgeStarted # es, Inr r)
                | Some (Some e) \<Rightarrow> (BridgeStarted # es @ snd (daily_Disconnect codec late r), Inl e)
                | None \<Rightarrow> (BridgeStarted # es @ snd (daily_Disconnect codec late r), Inl ''daily bridge join timed out''))))"

fun daily_attempts :: "room_codec \<Rightarrow> string \<Rightarrow> (nat \<Rightarrow> join_script) \<Rightarrow> (nat \<Rightarrow> string option) \<Rightarrow> nat \<Rightarrow> nat
    \<Rightarrow> room_effect list \<times> (string + daily_room)" where
  "daily_attempts codec roomURL script ctxErr i 0 = ([], Inl [])"
| "daily_attempts codec roomURL script ctxErr i (Suc n) =
     (case startDailyRoomAttempt codec roomURL (script i) of
        (es, Inr r) \<Rightarrow> (es, Inr r)
      | (es, Inl e) \<Rightarrow>
          (if n = 0 then (es, Inl (''failed to join Daily room after 3 attempts: '' @ e))
           else case ctxErr i of
                  Some c \<Rightarrow> (es, Inl c)
                | None \<Rightarrow> (let (es2, res) = daily_attempts codec roomURL script ctxErr (Suc i) n in (es @ es2, res))))"

definition JoinDailyRoom :: "room_codec \<Rightarrow> string \<Rightarrow> (nat \<Rightarrow> join_script) \<Rightarrow> (nat \<Rightarrow> string option)
    \<Rightarrow> room_effect list \<times> (string + daily_room)" where
  "JoinDailyRoom codec roomURL0 script ctxErr =
     (let roomURL = trim_space roomURL0
      in if roomURL = [] then ([], Inl ''daily room url is required'')
         else daily_attempts codec roomURL script ctxErr 1 dailyJoinRetries)"

definition dailyBridgeConfig :: "(string \<Rightarrow> string) \<Rightarrow> (string \<Rightarrow> string) \<Rightarrow> string \<times> string" where
  "dailyBridgeConfig getenv absolute =
     (let p = trim_space (getenv ''DAILY_BRIDGE_PYTHON''); python = (if p = [] then ''python3'' else p);
          s = trim_space (getenv ''DAILY_BRIDGE_SCRIPT''); script = (if s = [] then ''daily_bridge.py'' else s)
      in (python, if has_prefix script ''/'' then script else absolute script))"

section \<open>The contract of a transport\<close>

text \<open>
  What the pipeline relies on in \<open>RoomTransport\<close>: a closed room sends nothing, it is closed for good, and
  the first user, and only the first, makes the room queue the frame with which the bot greets.
\<close>

definition greeting :: "room_effect list" where
  "greeting = [QueueOnSource (LLMMessagesAppendFrame [] True) Downstream]"

definition greetings :: "room_effect list \<Rightarrow> nat" where
  "greetings es = count_list es (QueueOnSource (LLMMessagesAppendFrame [] True) Downstream)"

lemma greetings_append [simp]: "greetings (xs @ ys) = greetings xs + greetings ys"
  by (simp add: greetings_def)

lemma greetings_joined [simp]: "greetings (user_joined_effects now i b) = (if b then 0 else 1)"
  by (simp add: greetings_def user_joined_effects_def)

lemma greetings_simps [simp]: "greetings [] = 0"
  "greetings (e # es) = (if e = QueueOnSource (LLMMessagesAppendFrame [] True) Downstream then 1 else 0) + greetings es"
  by (simp_all add: greetings_def)

fun said :: "room_effect \<Rightarrow> bool" where
  "said (SentMessage v) = True"
| "said (SentAudio pcm) = True"
| "said _ = False"

locale room_transport =
  fixes closed :: "'r \<Rightarrow> bool"
    and send :: "json \<Rightarrow> 'r \<Rightarrow> room_effect list"
    and write_audio :: "'a \<Rightarrow> 'r \<Rightarrow> 'r \<times> room_effect list"
    and disconnect :: "'w \<Rightarrow> 'r \<Rightarrow> 'r \<times> room_effect list"
    and joined :: "gotime \<Rightarrow> string \<Rightarrow> 'r \<Rightarrow> 'r \<times> room_effect list"
    and user :: "string \<Rightarrow> bool"
    and greeted :: "'r \<Rightarrow> bool"
  assumes closed_send: "closed r \<Longrightarrow> send v r = []"
    and closed_write: "closed r \<Longrightarrow> write_audio a r = (r, [])"
    and disconnect_closes: "closed (fst (disconnect w r))"
    and disconnect_twice: "closed r \<Longrightarrow> disconnect w r = (r, [])"
    and joined_closed: "closed (fst (joined now i r)) = closed r"
    and joined_greets: "greetings (snd (joined now i r)) = (if user i \<and> \<not> greeted r then 1 else 0)"
    and joined_greeted: "greeted (fst (joined now i r)) \<longleftrightarrow> greeted r \<or> user i"
    and joined_silent: "\<not> list_ex said (snd (joined now i r))"
begin

sublocale greet: one_shot "\<lambda>(now, i) r. fst (joined now i r)" "\<lambda>(now, i) r. user i \<and> \<not> greeted r" greeted
  by unfold_locales (auto simp: joined_greeted split: prod.splits)

text \<open>A transport's life as its owner drives it.\<close>

fun drive :: "(json + 'a + 'w + gotime \<times> string) list \<Rightarrow> 'r \<Rightarrow> 'r \<times> room_effect list" where
  "drive [] r = (r, [])"
| "drive (Inl v # ops) r = (let (r1, es) = drive ops r in (r1, send v r @ es))"
| "drive (Inr (Inl a) # ops) r = (let (r1, es) = write_audio a r; (r2, es2) = drive ops r1 in (r2, es @ es2))"
| "drive (Inr (Inr (Inl w)) # ops) r = (let (r1, es) = disconnect w r; (r2, es2) = drive ops r1 in (r2, es @ es2))"
| "drive (Inr (Inr (Inr (now, i))) # ops) r = (let (r1, es) = joined now i r; (r2, es2) = drive ops r1 in (r2, es @ es2))"

lemma closed_drive: "closed r \<Longrightarrow> closed (fst (drive ops r)) \<and> \<not> list_ex said (snd (drive ops r))"
proof (induction ops r rule: drive.induct)
  case (4 w ops r)
  then show ?case by (simp add: disconnect_twice split_beta Let_def)
next
  case (5 now i ops r)
  then show ?case using joined_closed [of now i r] joined_silent [of now i r]
    by (cases "joined now i r") (simp add: split_beta Let_def)
qed (simp_all add: closed_send closed_write split_beta Let_def)

lemma silent_after_disconnect: "\<not> list_ex said (snd (drive ops (fst (disconnect w r))))"
  using closed_drive [OF disconnect_closes] by blast

end

section \<open>What a bridge may do to its room\<close>

text \<open>Every step of a bridge relates the room before and after it to what it has let out.\<close>

definition stepped :: "daily_room \<Rightarrow> room_effect list \<Rightarrow> daily_room \<Rightarrow> bool" where
  "stepped r es r1 \<longleftrightarrow>
     dr_closed r1 = dr_closed r \<and> (dr_exited r \<longrightarrow> dr_exited r1) \<and> (dr_greeted r \<longrightarrow> dr_greeted r1)
     \<and> (dr_joinResult r \<noteq> None \<longrightarrow> dr_joinResult r1 = dr_joinResult r)
     \<and> greetings es = of_bool (\<not> dr_greeted r \<and> dr_greeted r1)
     \<and> count_list es BridgeGone = of_bool (\<not> dr_exited r \<and> dr_exited r1)
     \<and> count_list es LeaveSent = 0 \<and> count_list es BridgeStarted = 0
     \<and> (dr_closed r \<longrightarrow> \<not> list_ex said es)"

lemma stepped_refl [simp]: "stepped r [] r"
  by (simp add: stepped_def)

lemma stepped_trans: "stepped r es r1 \<Longrightarrow> stepped r1 es2 r2 \<Longrightarrow> stepped r (es @ es2) r2"
  by (auto simp: stepped_def)

lemma handleEvent_stepped: "stepped r (snd (handleEvent codec now ev r)) (fst (handleEvent codec now ev r))"
  by (auto simp: stepped_def handleEvent_def daily_markUserJoined_def daily_markUserLeft_def finishJoin_def
      user_joined_effects_def daily_handleAppMessage_def daily_SendAppMessage_def Let_def split: option.split)

lemma bridge_step_stepped: "stepped r (snd (bridge_step codec now i r)) (fst (bridge_step codec now i r))"
proof (cases "(codec, now, i, r)" rule: bridge_step.cases)
  case (3 codec now err r)
  then show ?thesis by (auto simp: stepped_def finishJoin_def Let_def split: option.split)
qed (auto simp: handleEvent_stepped)

lemma bridge_run_stepped: "stepped r (snd (bridge_run codec is r)) (fst (bridge_run codec is r))"
proof (induction codec "is" r rule: bridge_run.induct)
  case (2 codec now i "is" r)
  then show ?case using stepped_trans [OF bridge_step_stepped [of r codec now i]]
    by (cases "bridge_step codec now i r") (simp add: split_beta Let_def)
qed simp

lemma until_joined_stepped: "stepped r (snd (until_joined codec is r)) (fst (until_joined codec is r))"
proof (induction codec "is" r rule: until_joined.induct)
  case (2 codec now i "is" r)
  then show ?case using stepped_trans [OF bridge_step_stepped [of r codec now i]]
    by (cases "bridge_step codec now i r") (simp add: split_beta Let_def)
qed simp

lemma bridge_run_exits: "dr_exited (fst (bridge_run codec (is @ [(t, Exited e)]) r))"
proof (induction codec "is" r rule: bridge_run.induct)
  case (1 codec r)
  then show ?case by (auto simp: finishJoin_def Let_def split: option.split)
next
  case (2 codec now i "is" r)
  then show ?case by (cases "bridge_step codec now i r") (simp add: split_beta Let_def)
qed

lemma Disconnect_facts:
  assumes "daily_Disconnect codec late r = (r1, es)" and "\<not> dr_closed r"
  shows "dr_closed r1" and "dr_exited r1" and "\<not> list_ex said es" and "count_list es LeaveSent = 1"
    and "count_list es BridgeStarted = 0" and "count_list es BridgeGone = of_bool (\<not> dr_exited r)"
    and "greetings es = of_bool (\<not> dr_greeted r \<and> dr_greeted r1)"
  using assms bridge_run_stepped [of "r\<lparr>dr_closed := True\<rparr>" codec "late @ [(0, Exited None)]"]
    bridge_run_exits [of codec late 0 None "r\<lparr>dr_closed := True\<rparr>"]
  by (auto simp: daily_Disconnect_def stepped_def Let_def split: prod.splits)

interpretation daily: room_transport dr_closed daily_SendAppMessage "\<lambda>pcm r. (r, daily_WriteAudioPCM pcm r)"
  "\<lambda>(codec, late). daily_Disconnect codec late" daily_markUserJoined "\<lambda>i. i \<noteq> [] \<and> i \<noteq> botIdentity" dr_greeted
proof (unfold_locales, goal_cases)
  case (3 w r)
  then show ?case
    using Disconnect_facts(1) [of "fst w" "snd w" r] by (cases "dr_closed r") (auto simp: daily_Disconnect_def split_beta)
next
  case (4 r w)
  then show ?case by (simp add: daily_Disconnect_def split_beta)
qed (auto simp: daily_SendAppMessage_def daily_WriteAudioPCM_def daily_markUserJoined_def user_joined_effects_def greetings_def)

section \<open>A join is exact\<close>

definition attempts_ok :: "nat \<Rightarrow> room_effect list \<Rightarrow> string + daily_room \<Rightarrow> bool" where
  "attempts_ok n es res \<longleftrightarrow> count_list es BridgeStarted \<le> n \<and> greetings es \<le> count_list es BridgeStarted
     \<and> (case res of
          Inr r \<Rightarrow> \<not> dr_closed r \<and> dr_joinResult r = Some None
            \<and> count_list es LeaveSent + 1 = count_list es BridgeStarted
            \<and> count_list es BridgeGone + of_bool (\<not> dr_exited r) = count_list es BridgeStarted
        | Inl e \<Rightarrow> count_list es LeaveSent = count_list es BridgeStarted
            \<and> count_list es BridgeGone = count_list es BridgeStarted)"

lemma attempt_ok: "attempts_ok 1 (fst (startDailyRoomAttempt codec url script)) (snd (startDailyRoomAttempt codec url script))"
proof (cases script)
  case (Bridge inputs late)
  obtain r es where run: "until_joined codec inputs (new_daily_room url) = (r, es)" by (meson surj_pair)
  have s: "stepped (new_daily_room url) es r"
    using until_joined_stepped [of "new_daily_room url" codec inputs] by (simp add: run)
  then have open_room: "\<not> dr_closed r" and fresh: "greetings es = of_bool (dr_greeted r)"
    "count_list es BridgeGone = of_bool (dr_exited r)" "count_list es LeaveSent = 0" "count_list es BridgeStarted = 0"
    by (simp_all add: stepped_def new_daily_room_def)
  obtain r1 es1 where disc: "daily_Disconnect codec late r = (r1, es1)" by (meson surj_pair)
  note d = Disconnect_facts [OF disc open_room]
  show ?thesis
    using fresh d open_room
    by (auto simp: Bridge startDailyRoomAttempt_def run disc attempts_ok_def split: option.split)
qed (simp add: startDailyRoomAttempt_def attempts_ok_def)

lemma attempts_ok_more:
  assumes "attempts_ok 1 es (Inl e)" and "attempts_ok n es2 res"
  shows "attempts_ok (Suc n) (es @ es2) res"
  using assms by (auto simp: attempts_ok_def split: sum.splits)

lemma attempts_ok_error: "attempts_ok n es (Inl e) \<Longrightarrow> attempts_ok n es (Inl e')"
  by (simp add: attempts_ok_def)

lemma attempts_ok_mono: "attempts_ok m es res \<Longrightarrow> m \<le> n \<Longrightarrow> attempts_ok n es res"
  by (simp add: attempts_ok_def)

lemma daily_attempts_ok: "attempts_ok n (fst (daily_attempts codec url script ctxErr i n)) (snd (daily_attempts codec url script ctxErr i n))"
proof (induction n arbitrary: i)
  case 0
  then show ?case by (simp add: attempts_ok_def)
next
  case (Suc n)
  obtain es res where a: "startDailyRoomAttempt codec url (script i) = (es, res)" by (meson surj_pair)
  have ok: "attempts_ok 1 es res" using attempt_ok [of codec url "script i"] by (simp add: a)
  show ?case
  proof (cases res)
    case (Inr r)
    then show ?thesis using attempts_ok_mono [OF ok] by (simp add: a)
  next
    case (Inl e)
    then have "attempts_ok (Suc n) es (Inl e')" for e' using attempts_ok_mono [OF attempts_ok_error] ok by auto
    moreover have "attempts_ok (Suc n) (es @ fst (daily_attempts codec url script ctxErr (Suc i) n))
        (snd (daily_attempts codec url script ctxErr (Suc i) n))"
      using attempts_ok_more [OF _ Suc.IH] ok Inl by simp
    ultimately show ?thesis by (auto simp: a Inl split_beta Let_def split: option.split)
  qed
qed

text \<open>
  C15: joining a Daily room leaves nothing behind. At most three bridges are started; if the join fails,
  each of them has been told to leave and has exited; if it succeeds, exactly the last one stays, it has
  reported the join and the room is open. The greeting is queued at most once for each bridge.
\<close>

theorem daily_join_exact:
  assumes "JoinDailyRoom codec url script ctxErr = (es, res)"
  shows "count_list es BridgeStarted \<le> 3 \<and> greetings es \<le> count_list es BridgeStarted
    \<and> (case res of
         Inr r \<Rightarrow> \<not> dr_closed r \<and> dr_joinResult r = Some None
           \<and> count_list es LeaveSent + 1 = count_list es BridgeStarted
           \<and> count_list es BridgeGone + of_bool (\<not> dr_exited r) = count_list es BridgeStarted
       | Inl e \<Rightarrow> count_list es LeaveSent = count_list es BridgeStarted
           \<and> count_list es BridgeGone = count_list es BridgeStarted)"
proof (cases "trim_space url = []")
  case True
  then show ?thesis using assms by (auto simp: JoinDailyRoom_def)
next
  case False
  then show ?thesis using assms daily_attempts_ok [of 3 codec "trim_space url" script ctxErr 1]
    by (simp add: JoinDailyRoom_def dailyJoinRetries_def attempts_ok_def)
qed

text \<open>
  The first bridge greets a user and then reports an error; the second one joins. The greeting has been
  queued twice.
\<close>

definition wit_codec :: room_codec where
  "wit_codec = \<lparr>rc_base64 = (\<lambda>t. Some []), rc_text = (\<lambda>t. Some t), rc_app = (\<lambda>t. None), rc_client = (\<lambda>t. None)\<rparr>"

definition wit_event :: "string \<Rightarrow> bridge_event" where
  "wit_event kind = \<lparr>be_Event = kind, be_ParticipantID = ''user-1'', be_MeetingID = ''m'', be_Reason = [],
     be_Message = ''no route'', be_Data = []\<rparr>"

definition wit_script :: "nat \<Rightarrow> join_script" where
  "wit_script i = (if i = 1 then Bridge [(1, Line (Some (wit_event ''participant_joined''))), (2, Line (Some (wit_event ''error'')))] []
     else Bridge [(3, Line (Some (wit_event ''participant_joined''))), (4, Line (Some (wit_event ''joined'')))] [])"

lemma wit_join: "fst (JoinDailyRoom wit_codec ''https://x.daily.co/room'' wit_script (\<lambda>i. None)) =
    [BridgeStarted] @ user_joined_effects 1 ''user-1'' False @ [LeaveSent, BridgeGone, BridgeStarted]
      @ user_joined_effects 3 ''user-1'' False @ [SessionKnown ''daily'' ''m'' ''user-1'', Core (Fire (BotJoined 4))]"
  by code_simp

theorem daily_join_exact_witness:
  "greetings (fst (JoinDailyRoom wit_codec ''https://x.daily.co/room'' wit_script (\<lambda>i. None))) = 2
   \<and> count_list (fst (JoinDailyRoom wit_codec ''https://x.daily.co/room'' wit_script (\<lambda>i. None))) BridgeStarted \<le> 3"
  using conjunct1 [OF daily_join_exact [OF prod.collapse [symmetric],
      of wit_codec "''https://x.daily.co/room''" wit_script "\<lambda>i. None"]] by (simp add: wit_join)

end
