(* ===== verification/LiveKitRoom.thy ===== *)
theory LiveKitRoom
  imports DailyRoom Lifecycle
begin

text \<open>
  The LiveKit transport (\<open>livekit_room.go\<close>): its join, the callbacks of the SDK, the audio it writes and
  the remote tracks it reads. The SDK, the Opus encoder and the base of a room name are arguments; the
  measurements of performance diagnostics are left out. The messages of the client are those of the
  Daily transport.
\<close>

section \<open>Configuration\<close>

definition liveKitJoinRetries :: nat where "liveKitJoinRetries = 3"
definition liveKitBotIdentity :: string where "liveKitBotIdentity = ''talk-go-bot''"
definition liveKitPCMUOutputRate :: int where "liveKitPCMUOutputRate = 8000"
definition liveKitOutCodecEnv :: string where "liveKitOutCodecEnv = ''LIVEKIT_OUT_CODEC''"
definition liveKitOpusComplexityEnv :: string where "liveKitOpusComplexityEnv = ''LIVEKIT_OPUS_COMPLEXITY''"
definition liveKitOpusBitrateEnv :: string where "liveKitOpusBitrateEnv = ''LIVEKIT_OPUS_BITRATE''"
definition liveKitOpusMaxBandwidthEnv :: string where "liveKitOpusMaxBandwidthEnv = ''LIVEKIT_OPUS_MAX_BANDWIDTH''"

datatype output_codec = Opus | PCMU

definition liveKitOutputCodecFromEnv :: "(string \<Rightarrow> string) \<Rightarrow> string + output_codec" where
  "liveKitOutputCodecFromEnv getenv =
     (let raw = trim_space (to_lower (getenv liveKitOutCodecEnv))
      in if raw \<in> {[], ''opus''} then Inr Opus
         else if raw \<in> {''pcmu'', ''g711'', ''g711u'', ''mulaw'', ''mu-law'', ''ulaw'', ''u-law''} then Inr PCMU
         else Inl (liveKitOutCodecEnv @ '' must be opus or pcmu''))"

datatype bandwidth = Narrowband | Mediumband | Wideband | SuperWideband | Fullband

definition parseLiveKitOpusBandwidth :: "string \<Rightarrow> string + bandwidth" where
  "parseLiveKitOpusBandwidth raw =
     (let v = to_lower (trim_space raw)
      in if v \<in> {''narrowband'', ''narrow'', ''nb''} then Inr Narrowband
         else if v \<in> {''mediumband'', ''medium'', ''mb''} then Inr Mediumband
         else if v \<in> {''wideband'', ''wide'', ''wb''} then Inr Wideband
         else if v \<in> {''superwideband'', ''super-wideband'', ''super_wideband'', ''superwide'', ''swb''} then Inr SuperWideband
         else if v \<in> {''fullband'', ''full'', ''fb''} then Inr Fullband
         else Inl (liveKitOpusMaxBandwidthEnv
           @ '' must be one of narrowband, mediumband, wideband, superwideband, fullband''))"

text \<open>
  A setting of the encoder, with the text that names it; the encoder may refuse one. An unset variable
  sets nothing.
\<close>

datatype opus_setting = Complexity int | Bitrate int | MaxBandwidth bandwidth

definition bounded_setting :: "string \<Rightarrow> string \<Rightarrow> int \<Rightarrow> int \<Rightarrow> (int \<Rightarrow> opus_setting) \<Rightarrow> string
    \<Rightarrow> string + (string \<times> opus_setting) option" where
  "bounded_setting name raw0 lo hi mk complaint =
     (let raw = trim_space raw0
      in if raw = [] then Inr None
         else case atoi raw of
           None \<Rightarrow> Inl (name @ complaint)
         | Some n \<Rightarrow> if n < lo \<or> n > hi then Inl (name @ complaint)
                     else Inr (Some (name @ ''='' @ int_str n, mk n)))"

definition bandwidth_setting :: "string \<Rightarrow> string + (string \<times> opus_setting) option" where
  "bandwidth_setting raw0 =
     (let raw = trim_space raw0
      in if raw = [] then Inr None
         else map_sum id (\<lambda>b. Some (liveKitOpusMaxBandwidthEnv @ ''='' @ raw, MaxBandwidth b)) (parseLiveKitOpusBandwidth raw))"

fun apply_settings :: "(opus_setting \<Rightarrow> string option) \<Rightarrow> (string + (string \<times> opus_setting) option) list
    \<Rightarrow> string + opus_setting list" where
  "apply_settings refuse [] = Inr []"
| "apply_settings refuse (Inl e # rest) = Inl e"
| "apply_settings refuse (Inr None # rest) = apply_settings refuse rest"
| "apply_settings refuse (Inr (Some (name, v)) # rest) =
     (case refuse v of
        Some e \<Rightarrow> Inl (''set '' @ name @ '': '' @ e)
      | None \<Rightarrow> map_sum id (Cons v) (apply_settings refuse rest))"

definition configureLiveKitOpusEncoder :: "(string \<Rightarrow> string) \<Rightarrow> (opus_setting \<Rightarrow> string option) \<Rightarrow> string + opus_setting list" where
  "configureLiveKitOpusEncoder getenv refuse =
     apply_settings refuse
       [bounded_setting liveKitOpusComplexityEnv (getenv liveKitOpusComplexityEnv) 0 10 Complexity
          '' must be an integer from 0 to 10'',
        bounded_setting liveKitOpusBitrateEnv (getenv liveKitOpusBitrateEnv) 500 512000 Bitrate
          '' must be an integer from 500 to 512000 bits/s'',
        bandwidth_setting (getenv liveKitOpusMaxBandwidthEnv)]"

section \<open>The room\<close>

record livekit_room =
  lk_roomName :: string
  lk_closed :: bool
  lk_connected :: bool
  lk_outTrack :: bool
  lk_outCodec :: output_codec
  lk_encoder :: "opus_setting list option"
  lk_greeted :: bool
  lk_tracks :: "string list"

definition new_livekit_room :: "string \<Rightarrow> output_codec \<Rightarrow> livekit_room" where
  "new_livekit_room roomName codec =
     \<lparr>lk_roomName = roomName, lk_closed = False, lk_connected = False, lk_outTrack = False, lk_outCodec = codec,
      lk_encoder = None, lk_greeted = False, lk_tracks = []\<rparr>"

text \<open>What only this transport lets out: its own resources.\<close>

datatype lk_effect =
    Shared room_effect
  | Connected
  | TrackClosed string
  | OutTrackClosed
  | Disconnected

definition livekit_OutputSampleRate :: "livekit_room \<Rightarrow> int" where
  "livekit_OutputSampleRate r = (if lk_outCodec r = PCMU then liveKitPCMUOutputRate else defaultOutputSampleRate)"

definition livekit_SendAppMessage :: "json \<Rightarrow> livekit_room \<Rightarrow> room_effect list" where
  "livekit_SendAppMessage v r = (if \<not> lk_connected r \<or> lk_closed r then [] else [SentMessage v])"

text \<open>The environment of the encoder: its making, its settings and the encoding of one frame.\<close>

record opus_world =
  ow_new :: "string option"
  ow_getenv :: "string \<Rightarrow> string"
  ow_refuse :: "opus_setting \<Rightarrow> string option"
  ow_encode :: "opus_setting list \<Rightarrow> int list \<Rightarrow> string + byte list"

definition resetOpusEncoder :: "opus_world \<Rightarrow> livekit_room \<Rightarrow> livekit_room \<times> string option" where
  "resetOpusEncoder w r =
     (case ow_new w of
        Some e \<Rightarrow> (r, Some e)
      | None \<Rightarrow> (case configureLiveKitOpusEncoder (ow_getenv w) (ow_refuse w) of
                  Inl e \<Rightarrow> (r, Some e)
                | Inr settings \<Rightarrow> (r\<lparr>lk_encoder := Some settings\<rparr>, None)))"

definition pcmBytesToLiveKitSample :: "byte list \<Rightarrow> int list" where
  "pcmBytesToLiveKitSample pcm = pcm_samples pcm"

definition writeAudioOpus :: "opus_world \<Rightarrow> byte list \<Rightarrow> livekit_room \<Rightarrow> livekit_room \<times> room_effect list \<times> string option" where
  "writeAudioOpus w pcm0 r =
     (let pcm = (if length pcm0 mod 2 \<noteq> 0 then butlast pcm0 else pcm0);
          (r1, err) = (if lk_encoder r = None then resetOpusEncoder w r else (r, None))
      in case err of
           Some e \<Rightarrow> (r1, [], Some e)
         | None \<Rightarrow> (case ow_encode w (the (lk_encoder r1)) (pcmBytesToLiveKitSample pcm) of
                     Inl e \<Rightarrow> (r1, [], Some e)
                   | Inr packet \<Rightarrow> (r1, [SentAudio packet], None)))"

definition writeAudioPCMU :: "byte list \<Rightarrow> room_effect list" where
  "writeAudioPCMU pcm = [SentAudio (pcm16BytesToPCMU pcm)]"

definition livekit_WriteAudioPCM :: "opus_world \<Rightarrow> byte list \<Rightarrow> livekit_room \<Rightarrow> livekit_room \<times> room_effect list \<times> string option" where
  "livekit_WriteAudioPCM w pcm r =
     (if \<not> lk_outTrack r \<or> length pcm = 0 \<or> lk_closed r then (r, [], None)
      else if lk_outCodec r = PCMU then (r, writeAudioPCMU pcm, None)
      else writeAudioOpus w pcm r)"

definition livekit_ClearAudioBuffer :: "opus_world \<Rightarrow> livekit_room \<Rightarrow> livekit_room" where
  "livekit_ClearAudioBuffer w r = (if lk_outCodec r = PCMU then r else fst (resetOpusEncoder w r))"

definition livekit_Disconnect :: "opus_world \<Rightarrow> livekit_room \<Rightarrow> livekit_room \<times> lk_effect list" where
  "livekit_Disconnect w r =
     (if lk_closed r then (r, [])
      else let r1 = livekit_ClearAudioBuffer w (r\<lparr>lk_closed := True\<rparr>)
           in (r1\<lparr>lk_tracks := []\<rparr>,
               map TrackClosed (lk_tracks r1) @ (if lk_outTrack r1 then [OutTrackClosed] else [])
               @ (if lk_connected r1 then [Disconnected] else [])))"

text \<open>\<open>firstNonEmptyString\<close> of this package: the value as it is, unlike the one of \<open>disha\<close>, which trims it.\<close>

fun first_non_empty :: "string list \<Rightarrow> string" where
  "first_non_empty [] = []"
| "first_non_empty (v # vs) = (if trim_space v \<noteq> [] then v else first_non_empty vs)"

definition participantID :: "string \<times> string \<Rightarrow> string" where
  "participantID p = first_non_empty [fst p, snd p]"

definition livekit_markUserJoined :: "gotime \<Rightarrow> string \<Rightarrow> livekit_room \<Rightarrow> livekit_room \<times> room_effect list" where
  "livekit_markUserJoined now i r =
     (if i = [] \<or> i = liveKitBotIdentity then (r, [])
      else (r\<lparr>lk_greeted := True\<rparr>, user_joined_effects now i (lk_greeted r)))"

definition livekit_markUserLeft :: "gotime \<Rightarrow> string \<Rightarrow> room_effect list" where
  "livekit_markUserLeft now i = (if i = [] then [] else [UserGone now])"

definition livekit_sendLegacyPong :: "livekit_room \<Rightarrow> room_effect list" where
  livekit_sendLegacyPong_def [simp]: "livekit_sendLegacyPong r = livekit_SendAppMessage legacy_pong r"

definition livekit_sendRTVIServerResponse :: "gotime \<Rightarrow> string \<Rightarrow> string \<Rightarrow> json \<Rightarrow> livekit_room \<Rightarrow> room_effect list" where
  livekit_sendRTVIServerResponse_def [simp]: "livekit_sendRTVIServerResponse now i messageType data r =
     livekit_SendAppMessage (server_response now i messageType data) r"

definition livekit_sendRTVIBotReady :: "gotime \<Rightarrow> string \<Rightarrow> livekit_room \<Rightarrow> room_effect list" where
  livekit_sendRTVIBotReady_def [simp]: "livekit_sendRTVIBotReady now i r = livekit_SendAppMessage (bot_ready now i) r"

definition livekit_handleAppMessage :: "room_codec \<Rightarrow> gotime \<Rightarrow> string \<Rightarrow> livekit_room \<Rightarrow> room_effect list" where
  "livekit_handleAppMessage codec now raw r =
     (case rc_app codec raw of
        None \<Rightarrow> []
      | Some msg \<Rightarrow>
          if am_Type msg = ''end_call'' then [Core (EndTask EndReasonClientDisconnect)]
          else if am_Type msg = ''ping'' then livekit_sendLegacyPong r
          else if am_Label msg = rtviDebugLabel \<and> am_Type msg = ''client-ready''
            then livekit_sendRTVIBotReady now (am_ID msg) r
          else if am_Label msg \<noteq> rtviDebugLabel \<or> am_Type msg \<noteq> ''client-message'' then []
          else (case rc_client codec (am_Data msg) of
                  None \<Rightarrow> []
                | Some t \<Rightarrow> if t = ''ping'' then livekit_sendRTVIServerResponse now (am_ID msg) t (JStr ''pong'') r
                            else []))"

definition livekit_handleAppMessageBytes :: "room_codec \<Rightarrow> gotime \<Rightarrow> string \<Rightarrow> livekit_room \<Rightarrow> room_effect list" where
  "livekit_handleAppMessageBytes codec now raw r = (if length raw = 0 then [] else livekit_handleAppMessage codec now raw r)"

text \<open>
  The callbacks of the SDK. A track is subscribed when it is Opus audio and its decoder can be made, and
  each batch of samples a decoder delivers goes to the audio source.
\<close>

datatype lk_callback =
    ParticipantConnected "string \<times> string"
  | ParticipantDisconnected "string \<times> string"
  | DataPacket string
  | TrackSubscribed string bool bool
  | TrackUnsubscribed string
  | Samples bool "byte list"

definition subscribeAudioTrack :: "string \<Rightarrow> bool \<Rightarrow> livekit_room \<Rightarrow> livekit_room" where
  subscribeAudioTrack_def [simp]: "subscribeAudioTrack i decoderOk r =
     (if \<not> decoderOk then r else r\<lparr>lk_tracks := i # filter (\<lambda>j. j \<noteq> i) (lk_tracks r)\<rparr>)"

definition closeRemoteTrack :: "string \<Rightarrow> livekit_room \<Rightarrow> livekit_room \<times> lk_effect list" where
  closeRemoteTrack_def [simp]: "closeRemoteTrack i r =
     (if i \<in> set (lk_tracks r) then (r\<lparr>lk_tracks := filter (\<lambda>j. j \<noteq> i) (lk_tracks r)\<rparr>, [TrackClosed i]) else (r, []))"

definition WriteSample :: "bool \<Rightarrow> byte list \<Rightarrow> room_effect list" where
  WriteSample_def [simp]: "WriteSample writerClosed pcm = (if writerClosed \<or> length pcm = 0 then [] else [AudioIn pcm])"

fun lk_step :: "room_codec \<Rightarrow> gotime \<Rightarrow> lk_callback \<Rightarrow> livekit_room \<Rightarrow> livekit_room \<times> lk_effect list" where
  "lk_step codec now (ParticipantConnected p) r =
     (let (r1, es) = livekit_markUserJoined now (participantID p) r in (r1, map Shared es))"
| "lk_step codec now (ParticipantDisconnected p) r =
     (r, map Shared (livekit_markUserLeft now (participantID p) @
        [Core (UI (ServerMessage (JsonPayload (JStr ''Participant left''))) now),
         Core (EndTask EndReasonClientDisconnect)]))"
| "lk_step codec now (DataPacket raw) r = (r, map Shared (livekit_handleAppMessageBytes codec now raw r))"
| "lk_step codec now (TrackSubscribed i isOpusAudio decoderOk) r =
     (if \<not> isOpusAudio then r else subscribeAudioTrack i decoderOk r, [])"
| "lk_step codec now (TrackUnsubscribed i) r = closeRemoteTrack i r"
| "lk_step codec now (Samples writerClosed pcm) r = (r, map Shared (WriteSample writerClosed pcm))"

fun lk_run :: "room_codec \<Rightarrow> (gotime \<times> lk_callback) list \<Rightarrow> livekit_room \<Rightarrow> livekit_room \<times> lk_effect list" where
  "lk_run codec [] r = (r, [])"
| "lk_run codec ((now, c) # cs) r =
     (let (r1, es) = lk_step codec now c r; (r2, es2) = lk_run codec cs r1 in (r2, es @ es2))"

section \<open>Joining\<close>

text \<open>
  One attempt: what connecting, making the track and publishing it return, the callbacks that run while
  it connects and before it has published, and the participants already in the room.
\<close>

record lk_script =
  ls_connect :: "string option"
  ls_connecting :: "(gotime \<times> lk_callback) list"
  ls_track :: "string option"
  ls_publish :: "string option"
  ls_publishing :: "(gotime \<times> lk_callback) list"
  ls_localID :: "string \<times> string"
  ls_at :: gotime
  ls_present :: "(gotime \<times> string \<times> string) list"

fun codec_name :: "output_codec \<Rightarrow> string" where
  "codec_name Opus = ''opus''"
| "codec_name PCMU = ''pcmu''"

definition give_up :: "opus_world \<Rightarrow> livekit_room \<Rightarrow> string \<Rightarrow> lk_effect list \<times> (string + livekit_room)" where
  "give_up w r e = (snd (livekit_Disconnect w r), Inl e)"

definition published :: "room_codec \<Rightarrow> lk_script \<Rightarrow> livekit_room \<Rightarrow> livekit_room \<times> lk_effect list" where
  "published codec s r =
     (let (r1, es) = lk_run codec (map (\<lambda>(now, p). (now, ParticipantConnected p)) (ls_present s)) r
      in (r1, Shared (SessionKnown ''livekit'' (lk_roomName r) (participantID (ls_localID s)))
              # Shared (Core (Fire (BotJoined (ls_at s)))) # es))"

definition publish_stage :: "opus_world \<Rightarrow> room_codec \<Rightarrow> lk_script \<Rightarrow> livekit_room \<Rightarrow> lk_effect list \<times> (string + livekit_room)" where
  "publish_stage w codec s r3 =
     (case lk_run codec (ls_publishing s) r3 of
        (r4, es4) \<Rightarrow>
          map_prod (append es4) id
            (case ls_publish s of
               Some e \<Rightarrow> give_up w r4 (''publish livekit '' @ codec_name (lk_outCodec r4) @ '' track: '' @ e)
             | None \<Rightarrow> (let (r5, es5) = published codec s r4 in (es5, Inr r5))))"

definition track_stage :: "opus_world \<Rightarrow> room_codec \<Rightarrow> lk_script \<Rightarrow> livekit_room \<Rightarrow> lk_effect list \<times> (string + livekit_room)" where
  "track_stage w codec s r =
     (case ls_track s of
        Some e \<Rightarrow> give_up w r (''create livekit '' @ codec_name (lk_outCodec r) @ '' track: '' @ e)
      | None \<Rightarrow>
          (case if lk_outCodec r = Opus then resetOpusEncoder w (r\<lparr>lk_outTrack := True\<rparr>)
                else (r\<lparr>lk_outTrack := True\<rparr>, None) of
             (r3, Some e) \<Rightarrow> give_up w r3 (''create livekit opus encoder: '' @ e)
           | (r3, None) \<Rightarrow> publish_stage w codec s r3))"

definition startLiveKitRoomAttempt :: "opus_world \<Rightarrow> room_codec \<Rightarrow> string \<Rightarrow> lk_script \<Rightarrow> lk_effect list \<times> (string + livekit_room)" where
  "startLiveKitRoomAttempt w codec roomName s =
     (case liveKitOutputCodecFromEnv (ow_getenv w) of
        Inl e \<Rightarrow> ([], Inl e)
      | Inr c \<Rightarrow>
          (case lk_run codec (ls_connecting s) (new_livekit_room roomName c) of
             (r1, es1) \<Rightarrow>
               (case ls_connect s of
                  Some e \<Rightarrow> (es1, Inl (''connect livekit room: '' @ e))
                | None \<Rightarrow>
                    map_prod (\<lambda>es. es1 @ Connected # es) id (track_stage w codec s (r1\<lparr>lk_connected := True\<rparr>)))))"

fun livekit_attempts :: "opus_world \<Rightarrow> room_codec \<Rightarrow> string \<Rightarrow> (nat \<Rightarrow> lk_script) \<Rightarrow> (nat \<Rightarrow> string option) \<Rightarrow> nat \<Rightarrow> nat
    \<Rightarrow> lk_effect list \<times> (string + livekit_room)" where
  "livekit_attempts w codec roomName script ctxErr i 0 = ([], Inl [])"
| "livekit_attempts w codec roomName script ctxErr i (Suc n) =
     (case startLiveKitRoomAttempt w codec roomName (script i) of
        (es, Inr r) \<Rightarrow> (es, Inr r)
      | (es, Inl e) \<Rightarrow>
          (if n = 0 then (es, Inl (''failed to join LiveKit room after 3 attempts: '' @ e))
           else case ctxErr i of
                  Some c \<Rightarrow> (es, Inl c)
                | None \<Rightarrow> (let (es2, res) = livekit_attempts w codec roomName script ctxErr (Suc i) n in (es @ es2, res))))"

definition JoinLiveKitRoom :: "opus_world \<Rightarrow> room_codec \<Rightarrow> string \<Rightarrow> string \<Rightarrow> string \<Rightarrow> (nat \<Rightarrow> lk_script)
    \<Rightarrow> (nat \<Rightarrow> string option) \<Rightarrow> lk_effect list \<times> (string + livekit_room)" where
  "JoinLiveKitRoom w codec roomURL roomName token script ctxErr =
     (if trim_space roomURL = [] then ([], Inl ''livekit url is required'')
      else if trim_space roomName = [] then ([], Inl ''livekit room name is required'')
      else if trim_space token = [] then ([], Inl ''livekit token is required'')
      else livekit_attempts w codec (trim_space roomName) script ctxErr 1 liveKitJoinRetries)"

section \<open>The contract\<close>

lemma resetOpusEncoder_keeps:
  "lk_closed (fst (resetOpusEncoder w r)) = lk_closed r" "lk_connected (fst (resetOpusEncoder w r)) = lk_connected r"
  "lk_outTrack (fst (resetOpusEncoder w r)) = lk_outTrack r" "lk_greeted (fst (resetOpusEncoder w r)) = lk_greeted r"
  "lk_tracks (fst (resetOpusEncoder w r)) = lk_tracks r" "lk_outCodec (fst (resetOpusEncoder w r)) = lk_outCodec r"
  "snd (resetOpusEncoder w r) = None \<Longrightarrow> lk_encoder (fst (resetOpusEncoder w r)) \<noteq> None"
  by (auto simp: resetOpusEncoder_def split: option.splits sum.splits)

lemma ClearAudioBuffer_keeps [simp]:
  "lk_closed (livekit_ClearAudioBuffer w r) = lk_closed r" "lk_connected (livekit_ClearAudioBuffer w r) = lk_connected r"
  "lk_outTrack (livekit_ClearAudioBuffer w r) = lk_outTrack r" "lk_tracks (livekit_ClearAudioBuffer w r) = lk_tracks r"
  by (simp_all add: livekit_ClearAudioBuffer_def resetOpusEncoder_keeps)

interpretation livekit: room_transport lk_closed livekit_SendAppMessage
  "\<lambda>(w, pcm) r. let (r1, es, err) = livekit_WriteAudioPCM w pcm r in (r1, es)"
  "\<lambda>w r. (fst (livekit_Disconnect w r), [])" livekit_markUserJoined "\<lambda>i. i \<noteq> [] \<and> i \<noteq> liveKitBotIdentity" lk_greeted
proof (unfold_locales, goal_cases)
  case (3 w r)
  then show ?case by (simp add: livekit_Disconnect_def Let_def)
qed (auto simp: livekit_SendAppMessage_def livekit_WriteAudioPCM_def livekit_Disconnect_def livekit_markUserJoined_def
    user_joined_effects_def greetings_def)

section \<open>A join is exact\<close>

text \<open>Callbacks change neither the connection nor the published track, and greet at most once.\<close>

definition lk_stepped :: "livekit_room \<Rightarrow> lk_effect list \<Rightarrow> livekit_room \<Rightarrow> bool" where
  "lk_stepped r es r1 \<longleftrightarrow>
     lk_closed r1 = lk_closed r \<and> lk_connected r1 = lk_connected r \<and> lk_outTrack r1 = lk_outTrack r
     \<and> lk_outCodec r1 = lk_outCodec r \<and> lk_encoder r1 = lk_encoder r \<and> (lk_greeted r \<longrightarrow> lk_greeted r1)
     \<and> count_list es Connected = 0 \<and> count_list es Disconnected = 0"

lemma lk_stepped_trans: "lk_stepped r es r1 \<Longrightarrow> lk_stepped r1 es2 r2 \<Longrightarrow> lk_stepped r (es @ es2) r2"
  by (auto simp: lk_stepped_def)

lemma lk_step_stepped: "lk_stepped r (snd (lk_step codec now c r)) (fst (lk_step codec now c r))"
  by (cases "(codec, now, c, r)" rule: lk_step.cases)
    (auto simp: lk_stepped_def livekit_markUserJoined_def livekit_markUserLeft_def count_list_0_iff split_beta Let_def)

lemma lk_run_stepped: "lk_stepped r (snd (lk_run codec cs r)) (fst (lk_run codec cs r))"
proof (induction codec cs r rule: lk_run.induct)
  case (2 codec now c cs r)
  then show ?case using lk_stepped_trans [OF lk_step_stepped [of r codec now c]]
    by (cases "lk_step codec now c r") (simp add: split_beta Let_def)
qed (simp add: lk_stepped_def)

definition open_connections :: "lk_effect list \<Rightarrow> int" where
  "open_connections es = int (count_list es Connected) - int (count_list es Disconnected)"

lemma open_connections_append [simp]: "open_connections (xs @ ys) = open_connections xs + open_connections ys"
  by (simp add: open_connections_def)

lemma open_connections_simps [simp]: "open_connections [] = 0"
  "open_connections (e # es) = (case e of Connected \<Rightarrow> 1 | Disconnected \<Rightarrow> - 1 | _ \<Rightarrow> 0) + open_connections es"
  by (auto simp: open_connections_def split: lk_effect.split)

definition live :: "livekit_room \<Rightarrow> bool" where
  "live r \<longleftrightarrow> \<not> lk_closed r \<and> lk_connected r \<and> lk_outTrack r \<and> (lk_outCodec r = Opus \<longrightarrow> lk_encoder r \<noteq> None)"

definition joined_ok :: "nat \<Rightarrow> lk_effect list \<Rightarrow> string + livekit_room \<Rightarrow> bool" where
  "joined_ok n es res \<longleftrightarrow> count_list es Connected \<le> n
     \<and> (case res of Inr r \<Rightarrow> live r \<and> open_connections es = 1 | Inl e \<Rightarrow> open_connections es = 0)"

lemma give_up_disconnects:
  assumes "lk_connected r" and "\<not> lk_closed r"
  shows "open_connections (fst (give_up w r e)) = - 1" and "count_list (fst (give_up w r e)) Connected = 0"
    and "snd (give_up w r e) = Inl e"
proof -
  have "count_list (map TrackClosed is) Connected = 0" "count_list (map TrackClosed is) Disconnected = 0" for "is"
    by (induction "is") simp_all
  then show "open_connections (fst (give_up w r e)) = - 1" "count_list (fst (give_up w r e)) Connected = 0"
    "snd (give_up w r e) = Inl e"
    using assms by (simp_all add: give_up_def livekit_Disconnect_def Let_def open_connections_def)
qed

lemma run_facts:
  assumes "lk_run codec cs r = (r1, es)"
  shows "lk_closed r1 = lk_closed r" "lk_connected r1 = lk_connected r" "lk_outTrack r1 = lk_outTrack r"
    "lk_outCodec r1 = lk_outCodec r" "lk_encoder r1 = lk_encoder r" "count_list es Connected = 0"
    "open_connections es = 0"
  using lk_run_stepped [of r codec cs] by (simp_all add: assms lk_stepped_def open_connections_def)

text \<open>After connecting, a stage ends with the connection kept by a live room, or closed.\<close>

definition stage_ok :: "lk_effect list \<times> (string + livekit_room) \<Rightarrow> bool" where
  "stage_ok x \<longleftrightarrow> count_list (fst x) Connected = 0
     \<and> (case snd x of Inr r \<Rightarrow> live r \<and> open_connections (fst x) = 0 | Inl e \<Rightarrow> open_connections (fst x) = - 1)"

lemma give_up_ok: "lk_connected r \<Longrightarrow> \<not> lk_closed r \<Longrightarrow> stage_ok (give_up w r e)"
  by (simp add: stage_ok_def give_up_disconnects)

lemma stage_ok_after: "count_list es Connected = 0 \<Longrightarrow> open_connections es = 0 \<Longrightarrow>
    stage_ok (map_prod (append es) id x) = stage_ok x"
  by (cases x; cases "snd x") (auto simp: stage_ok_def)

lemma publish_stage_ok:
  assumes "live r"
  shows "stage_ok (publish_stage w codec s r)"
proof -
  obtain r4 es4 where a: "lk_run codec (ls_publishing s) r = (r4, es4)" by (meson surj_pair)
  note fa = run_facts [OF a]
  obtain r5 es5 where b: "lk_run codec (map (\<lambda>(now, p). (now, ParticipantConnected p)) (ls_present s)) r4 = (r5, es5)"
    by (meson surj_pair)
  note fb = run_facts [OF b]
  show ?thesis
  proof (cases "ls_publish s")
    case (Some e)
    then show ?thesis using give_up_ok [of r4 w] assms fa by (simp add: publish_stage_def a live_def stage_ok_after)
  next
    case None
    then show ?thesis using assms fa fb by (simp add: publish_stage_def a published_def b live_def stage_ok_def)
  qed
qed

lemma track_stage_ok:
  assumes "lk_connected r" and "\<not> lk_closed r"
  shows "stage_ok (track_stage w codec s r)"
proof (cases "ls_track s")
  case (Some e)
  then show ?thesis using give_up_ok assms by (simp add: track_stage_def)
next
  case None
  obtain r3 err where b: "(if lk_outCodec r = Opus then resetOpusEncoder w (r\<lparr>lk_outTrack := True\<rparr>)
      else (r\<lparr>lk_outTrack := True\<rparr>, None)) = (r3, err)" by (meson surj_pair)
  have r3: "\<not> lk_closed r3" "lk_connected r3" "err = None \<Longrightarrow> live r3"
    using b assms resetOpusEncoder_keeps [of w "r\<lparr>lk_outTrack := True\<rparr>"] by (auto simp: live_def split: if_splits)
  show ?thesis
  proof (cases err)
    case None
    then show ?thesis using \<open>ls_track s = None\<close> b r3 publish_stage_ok by (simp add: track_stage_def)
  next
    case (Some e)
    then show ?thesis using None b r3 give_up_ok by (simp add: track_stage_def)
  qed
qed

lemma attempt_joined_ok: "joined_ok 1 (fst (startLiveKitRoomAttempt w codec roomName s)) (snd (startLiveKitRoomAttempt w codec roomName s))"
proof (cases "liveKitOutputCodecFromEnv (ow_getenv w)")
  case (Inl e)
  then show ?thesis by (simp add: startLiveKitRoomAttempt_def joined_ok_def)
next
  case (Inr c)
  obtain r1 es1 where a: "lk_run codec (ls_connecting s) (new_livekit_room roomName c) = (r1, es1)" by (meson surj_pair)
  note fa = run_facts [OF a]
  then have "stage_ok (track_stage w codec s (r1\<lparr>lk_connected := True\<rparr>))"
    by (intro track_stage_ok) (simp_all add: new_livekit_room_def)
  then show ?thesis
    using fa by (auto simp: startLiveKitRoomAttempt_def Inr a joined_ok_def stage_ok_def split: option.split sum.splits)
qed

lemma livekit_attempts_ok:
  "joined_ok n (fst (livekit_attempts w codec roomName script ctxErr i n)) (snd (livekit_attempts w codec roomName script ctxErr i n))"
proof (induction n arbitrary: i)
  case 0
  then show ?case by (simp add: joined_ok_def)
next
  case (Suc n)
  obtain es res where a: "startLiveKitRoomAttempt w codec roomName (script i) = (es, res)" by (meson surj_pair)
  have ok: "joined_ok 1 es res" using attempt_joined_ok [of w codec roomName "script i"] by (simp add: a)
  show ?case
    using ok Suc.IH [of "Suc i"] by (cases res) (auto simp: a joined_ok_def split_beta Let_def split: option.split sum.splits)
qed


text \<open>
  The second attempt joins: the first has a track but cannot publish it, so its connection is closed
  before the next one is made.
\<close>

definition wit_world :: opus_world where
  "wit_world = \<lparr>ow_new = None, ow_getenv = (\<lambda>k. if k = liveKitOpusComplexityEnv then '' 8'' else []), ow_refuse = (\<lambda>v. None),
     ow_encode = (\<lambda>vs pcm. Inr [7])\<rparr>"

definition wit_lk_script :: "nat \<Rightarrow> lk_script" where
  "wit_lk_script i =
     \<lparr>ls_connect = None, ls_connecting = [(1, ParticipantConnected (''PA_1'', ''user''))], ls_track = None,
      ls_publish = (if i = 1 then Some ''no permission'' else None), ls_publishing = [(2, TrackSubscribed ''TR_1'' True True)],
      ls_localID = (''PA_bot'', ''bot''), ls_at = 3, ls_present = [(4, ''PA_1'', ''user'')]\<rparr>"

lemma wit_lk_join: "JoinLiveKitRoom wit_world wit_codec ''wss://x'' '' r1'' ''t'' wit_lk_script (\<lambda>i. None) =
    (map Shared (user_joined_effects 1 ''PA_1'' False) @ [Connected, TrackClosed ''TR_1'', OutTrackClosed, Disconnected]
      @ map Shared (user_joined_effects 1 ''PA_1'' False)
      @ [Connected, Shared (SessionKnown ''livekit'' ''r1'' ''PA_bot''), Shared (Core (Fire (BotJoined 3)))]
      @ map Shared (user_joined_effects 4 ''PA_1'' True),
     Inr \<lparr>lk_roomName = ''r1'', lk_closed = False, lk_connected = True, lk_outTrack = True, lk_outCodec = Opus,
          lk_encoder = Some [Complexity 8], lk_greeted = True, lk_tracks = [''TR_1'']\<rparr>)"
  by code_simp


section \<open>The two transports agree\<close>

text \<open>What a client can do, as each transport reports it. The bridge sends audio as base64 text.\<close>

datatype client_event =
    Joins string
  | Leaves string string
  | Says string
  | Speaks "byte list"

definition bridge_line :: "string \<Rightarrow> bridge_event" where
  "bridge_line kind =
     \<lparr>be_Event = kind, be_ParticipantID = [], be_MeetingID = [], be_Reason = [], be_Message = [], be_Data = []\<rparr>"

fun daily_input :: "(byte list \<Rightarrow> string) \<Rightarrow> client_event \<Rightarrow> bridge_input" where
  "daily_input enc (Joins i) = Line (Some ((bridge_line ''participant_joined'')\<lparr>be_ParticipantID := i\<rparr>))"
| "daily_input enc (Leaves i why) = Line (Some ((bridge_line ''participant_left'')\<lparr>be_ParticipantID := i, be_Reason := why\<rparr>))"
| "daily_input enc (Says raw) = Line (Some ((bridge_line ''app_message'')\<lparr>be_Message := raw\<rparr>))"
| "daily_input enc (Speaks pcm) = Line (Some ((bridge_line ''audio'')\<lparr>be_Data := enc pcm\<rparr>))"

fun lk_input :: "client_event \<Rightarrow> lk_callback" where
  "lk_input (Joins i) = ParticipantConnected (i, [])"
| "lk_input (Leaves i why) = ParticipantDisconnected (i, [])"
| "lk_input (Says raw) = DataPacket raw"
| "lk_input (Speaks pcm) = Samples False pcm"

text \<open>A user is neither transport's name for the bot; a message or a batch of samples is not empty.\<close>

fun from_user :: "client_event \<Rightarrow> bool" where
  "from_user (Joins i) = (trim_space i \<noteq> [] \<and> i \<noteq> botIdentity \<and> i \<noteq> liveKitBotIdentity)"
| "from_user (Leaves i why) = (trim_space i \<noteq> [] \<and> i \<noteq> botIdentity \<and> i \<noteq> liveKitBotIdentity)"
| "from_user (Says raw) = (raw \<noteq> [])"
| "from_user (Speaks pcm) = (pcm \<noteq> [])"

fun notice :: "room_effect \<Rightarrow> bool" where
  "notice (Core (UI (ServerMessage v) at0)) = True"
| "notice _ = False"

fun shared_one :: "lk_effect \<Rightarrow> room_effect option" where
  "shared_one (Shared e) = Some e"
| "shared_one _ = None"

definition shared :: "lk_effect list \<Rightarrow> room_effect list" where
  "shared es = List.map_filter shared_one es"

lemma shared_simps [simp]: "shared [] = []" "shared (xs @ ys) = shared xs @ shared ys" "shared (map Shared es) = es"
  "shared (Shared e # es') = e # shared es'"
  by (simp_all add: shared_def List.map_filter_def o_def)

definition same_room :: "daily_room \<Rightarrow> livekit_room \<Rightarrow> bool" where
  "same_room d l \<longleftrightarrow> dr_closed d = lk_closed l \<and> dr_greeted d = lk_greeted l \<and> lk_connected l"

lemma agree_step:
  assumes "rc_base64 codec (enc pcm) = Some pcm" and "same_room d l" and "from_user e" and "e = Speaks pcm \<or> (\<forall>x. e \<noteq> Speaks x)"
  shows "filter (\<lambda>x. \<not> notice x) (snd (bridge_step codec now (daily_input enc e) d))
       = filter (\<lambda>x. \<not> notice x) (shared (snd (lk_step codec now (lk_input e) l)))"
    and "same_room (fst (bridge_step codec now (daily_input enc e) d)) (fst (lk_step codec now (lk_input e) l))"
proof -
  have "filter (\<lambda>x. \<not> notice x) (snd (bridge_step codec now (daily_input enc e) d))
       = filter (\<lambda>x. \<not> notice x) (shared (snd (lk_step codec now (lk_input e) l)))
    \<and> same_room (fst (bridge_step codec now (daily_input enc e) d)) (fst (lk_step codec now (lk_input e) l))"
  proof (cases e)
    case (Says raw)
    then show ?thesis
      using assms by (simp add: bridge_line_def handleEvent_def livekit_handleAppMessageBytes_def
          daily_handleAppMessage_def livekit_handleAppMessage_def daily_SendAppMessage_def livekit_SendAppMessage_def
          same_room_def split: option.split)
  qed (use assms in \<open>auto simp: bridge_line_def handleEvent_def daily_markUserJoined_def livekit_markUserJoined_def
      participantID_def user_joined_effects_def daily_markUserLeft_def livekit_markUserLeft_def same_room_def\<close>)
  then show "filter (\<lambda>x. \<not> notice x) (snd (bridge_step codec now (daily_input enc e) d))
       = filter (\<lambda>x. \<not> notice x) (shared (snd (lk_step codec now (lk_input e) l)))"
    "same_room (fst (bridge_step codec now (daily_input enc e) d)) (fst (lk_step codec now (lk_input e) l))" by simp_all
qed

text \<open>
  C4: the transports agree. Driven by the same client events, from rooms in the same state, the Daily and
  the LiveKit room do the same to the call, effect by effect and in the same order: what is recorded of
  the user, the greeting, the audio, the answers to messages and the end of the call. Only the text of the
  notice that a participant has left differs.
\<close>

theorem transports_agree:
  assumes "\<forall>pcm. rc_base64 codec (enc pcm) = Some pcm" and "same_room d l" and "list_all from_user (map snd evs)"
  shows "filter (\<lambda>x. \<not> notice x) (snd (bridge_run codec (map (\<lambda>(now, e). (now, daily_input enc e)) evs) d))
       = filter (\<lambda>x. \<not> notice x) (shared (snd (lk_run codec (map (\<lambda>(now, e). (now, lk_input e)) evs) l)))"
  using assms(2,3)
proof (induction evs arbitrary: d l)
  case (Cons ev evs)
  obtain now e where ev: "ev = (now, e)" by (cases ev)
  obtain pcm where pcm: "e = Speaks pcm \<or> (\<forall>x. e \<noteq> Speaks x)" by blast
  from Cons.prems have u: "from_user e" by (simp add: ev)
  note step = agree_step [where codec = codec and enc = enc and pcm = pcm and e = e and now = now,
      OF spec [OF assms(1)] Cons.prems(1) u pcm]
  show ?case using Cons.IH [OF step(2)] step(1) Cons.prems(2)
    by (simp add: ev split_beta Let_def)
qed simp

definition wit_bytes :: room_codec where
  "wit_bytes = wit_codec\<lparr>rc_base64 := (\<lambda>t. Some (map (\<lambda>c. of_nat (of_char c)) t))\<rparr>"

definition wit_chars :: "byte list \<Rightarrow> string" where
  "wit_chars pcm = map (\<lambda>b. char_of (unat b)) pcm"

lemma wit_bytes_chars: "rc_base64 wit_bytes (wit_chars pcm) = Some pcm"
proof -
  have "of_nat (unat b mod 256) = b" for b :: byte using unsigned_less [of b, where ?'a = nat] by simp
  then show ?thesis by (simp add: wit_bytes_def wit_chars_def o_def)
qed

definition wit_events :: "(gotime \<times> client_event) list" where
  "wit_events = [(1, Joins ''u''), (2, Speaks [1, 2]), (3, Leaves ''u'' ''hung up'')]"

lemma wit_events_users: "list_all from_user (map snd wit_events)"
  by code_simp

theorem transports_agree_witness:
  "filter (\<lambda>x. \<not> notice x) (snd (bridge_run wit_bytes (map (\<lambda>(now, e). (now, daily_input wit_chars e)) wit_events)
       (new_daily_room ''https://x.daily.co/r'')))
   = filter (\<lambda>x. \<not> notice x) (shared (snd (lk_run wit_bytes (map (\<lambda>(now, e). (now, lk_input e)) wit_events)
       ((new_livekit_room ''r'' Opus)\<lparr>lk_connected := True\<rparr>))))"
  by (rule transports_agree [OF _ _ wit_events_users])
    (simp_all add: wit_bytes_chars same_room_def new_daily_room_def new_livekit_room_def)

end
