(* ===== verification/Prompts.thy ===== *)
theory Prompts
  imports Documents Startup Llm
begin

text \<open>
  What a bot decides from the conversation before it joins a room (\<open>sales_call.go\<close>,
  \<open>followup_call.go\<close>, \<open>phonetic_dict.go\<close>): the prompt and its variables, the talk time, the tools of a
  dynamic follow-up, and the dictionary of pronunciations. The date shown to the model is an argument.
\<close>

section \<open>Reading a prompt\<close>

text \<open>The world of one read through the document store.\<close>

record 'r doc_world =
  dw_render :: "'r \<Rightarrow> render_request \<Rightarrow> 'r \<times> (render_error + render_result)"
  dw_decode :: "string \<Rightarrow> document_version option"
  dw_net :: network
  dw_redis :: redis_server
  dw_lookup :: gotime
  dw_store :: gotime

definition latest_call :: "'r doc_world \<Rightarrow> string \<Rightarrow> doc_call" where
  "latest_call w name =
     \<lparr>dc_net = dw_net w, dc_redis = dw_redis w, dc_lookup = dw_lookup w, dc_store = dw_store w,
      dc_name = name, dc_version = 0\<rparr>"

datatype prompt_error =
    NoDocumentStore
  | LoadPromptFailed string get_document_error
  | EmptyPrompt string
  | NoCallFlowKey
  | NoS3Client
  | CallFlowFailed string string
  | EmptyCallFlow string

record loaded_prompt =
  lp_Text :: string
  lp_Name :: string
  lp_Version :: int
  lp_Config :: "(string \<times> json) list"
  lp_Variables :: "(string \<times> json) list"
  lp_Dynamic :: bool

section \<open>The sales call\<close>

definition lifetimeTalkTimeSeconds :: int where "lifetimeTalkTimeSeconds = 600"
definition salesPrompt21Rs :: string where "salesPrompt21Rs = ''sales_call/main_sys-3day_21rs_v2''"
definition salesPrompt299Rs :: string where "salesPrompt299Rs = ''sales_call/main_sys-30day_299rs_v2''"
definition salesPromptDefault :: string where "salesPromptDefault = ''sales_call/main_sys-3day_v2''"
definition campaignFlag21For3Days :: string where "campaignFlag21For3Days = ''21_for_3_days''"
definition campaignFlag299For30Days :: string where "campaignFlag299For30Days = ''299_for_30_days''"

definition salesPromptName :: "conversation_data \<Rightarrow> string" where
  "salesPromptName d =
     (let flag = derefString (up_CampaignFlag (cd_UserProfile d))
      in if flag = campaignFlag21For3Days then salesPrompt21Rs
         else if flag = campaignFlag299For30Days then salesPrompt299Rs else salesPromptDefault)"

definition short_term_memory :: "conversation_data \<Rightarrow> string" where
  "short_term_memory d =
     mergeShortTermMemory (derefString (up_ShortTermMemory (cd_UserProfile d))) (derefString (cd_UnprocessedChatContext d))"

definition sales_call_variables :: "string \<Rightarrow> conversation_data \<Rightarrow> (string \<times> json) list" where
  "sales_call_variables shownNow d =
     [(''patient_info'', JStr (cr_PatientInfo (cd_Conversation d))),
      (''current_datetime'', JStr shownNow),
      (''short_term_memory'', JStr (short_term_memory d))]"

text \<open>The read that both bots share: a blank text is an error.\<close>

definition read_prompt :: "'r doc_world \<Rightarrow> 'r document_store \<Rightarrow> string \<Rightarrow> (string \<times> json) list \<Rightarrow> bool
    \<Rightarrow> 'r document_store \<times> (prompt_error + loaded_prompt)" where
  "read_prompt w st name vars dynamic =
     (case GetDocumentWithConfig (dw_render w) (dw_decode w) (latest_call w name) vars st of
        (st1, Inl e) \<Rightarrow> (st1, Inl (LoadPromptFailed name e))
      | (st1, Inr (txt, version, config)) \<Rightarrow>
          (st1, if trim_space txt = [] then Inl (EmptyPrompt name)
                else Inr \<lparr>lp_Text = txt, lp_Name = name, lp_Version = version, lp_Config = config,
                          lp_Variables = vars, lp_Dynamic = dynamic\<rparr>))"

definition loadSalesPrompt :: "'r doc_world \<Rightarrow> string \<Rightarrow> 'r document_store option \<Rightarrow> conversation_data
    \<Rightarrow> 'r document_store option \<times> (prompt_error + loaded_prompt)" where
  "loadSalesPrompt w shownNow store d =
     (case store of
        None \<Rightarrow> (None, Inl NoDocumentStore)
      | Some st \<Rightarrow> map_prod Some id (read_prompt w st (salesPromptName d) (sales_call_variables shownNow d) False))"

text \<open>A \<open>time.Duration\<close> of the seconds, which are a number a call can last.\<close>

definition salesTalkTimeLimit :: "rat option \<Rightarrow> duration" where
  "salesTalkTimeLimit remainingSeconds =
     (let seconds = (case remainingSeconds of None \<Rightarrow> float_of_int lifetimeTalkTimeSeconds
                     | Some s \<Rightarrow> if s < 0 then 0 else s)
      in int_of_float (fmul seconds (float_of_int second)))"

section \<open>The follow-up call\<close>

definition followUpModelGroup :: string where "followUpModelGroup = ''gemini-flash-3.1-lite''"
definition followUpPhoneOverrideModelGroup :: string where "followUpPhoneOverrideModelGroup = ''gpt-4.1''"
definition followUpDynamicModelGroup :: string where "followUpDynamicModelGroup = ''followup-dynamic-gemma''"
definition followUpGuidanceModelGroup :: string where "followUpGuidanceModelGroup = ''gpt-oss120-fast''"
definition salesModelGroup :: string where "salesModelGroup = ''grok-4.1-fast-sales''"
definition followUpPromptDefault :: string where "followUpPromptDefault = ''followup_call/system_prompt''"
definition followUpPromptD1Inactive :: string where
  "followUpPromptD1Inactive = ''disha_init_calls/d0_d1_inactive_user/call_main_sys''"
definition followUpPromptD1InactivePCOS :: string where
  "followUpPromptD1InactivePCOS = ''disha_init_calls/d0_d1_inactive_user/weight_loss_pcos_users''"
definition followUpPromptInvestorDemo :: string where "followUpPromptInvestorDemo = ''misc/investor_demo''"
definition followUpDynamicMainPrompt :: string where
  "followUpDynamicMainPrompt = ''disha_init_calls/dynamic_checkin_call/main_sys''"
definition followUpGetGuidancePrompt :: string where
  "followUpGetGuidancePrompt = ''disha_init_calls/dynamic_checkin_call/tools/get_guidance''"
definition followUpPhonePromptOverridePhone :: string where "followUpPhonePromptOverridePhone = ''+916261229421''"

definition followUpPromptName :: "conversation_data option \<Rightarrow> string" where
  "followUpPromptName data =
     (case data of
        None \<Rightarrow> followUpPromptDefault
      | Some d \<Rightarrow>
          if up_Phone (cd_UserProfile d) = followUpPhonePromptOverridePhone then followUpPromptInvestorDemo
          else (let agenda = trim_space (cr_Agenda (cd_Conversation d))
                in if agenda = ''d1_inactive_checkin'' then followUpPromptD1Inactive
                   else if agenda = ''d1_inactive_checkin_weight_loss_pcos'' then followUpPromptD1InactivePCOS
                   else followUpPromptDefault))"

definition subjectPronoun :: "string \<Rightarrow> string" where
  "subjectPronoun gender = (if gender = ''male'' then ''he'' else if gender = ''female'' then ''she'' else ''them'')"

definition objectPronoun :: "string \<Rightarrow> string" where
  "objectPronoun gender = (if gender = ''male'' then ''him'' else if gender = ''female'' then ''her'' else ''them'')"

definition possessivePronoun :: "string \<Rightarrow> string" where
  "possessivePronoun gender = (if gender = ''male'' then ''his'' else if gender = ''female'' then ''her'' else ''their'')"

definition patientScheduleFromSlots :: "(string \<times> json) list \<Rightarrow> json" where
  "patientScheduleFromSlots slots =
     (case map_of slots ''checkin_slots'' of
        Some v \<Rightarrow> if isTruthyJSON v then v else JObj slots
      | None \<Rightarrow> JObj slots)"

definition followUpPromptVariables :: "string \<Rightarrow> conversation_data \<Rightarrow> string \<Rightarrow> (string \<times> json) list" where
  "followUpPromptVariables shownNow d callFlow =
     (let user = cd_UserProfile d; gender = to_lower (trim_space (up_Gender user))
      in [(''patient_info'', JStr (cr_PatientInfo (cd_Conversation d))),
          (''patient_memory'', JStr (short_term_memory d)),
          (''current_datetime'', JStr shownNow),
          (''diet_chart_xml'', JStr (up_LastDietChartXML user)),
          (''patient_executive_profile'', JStr (short_term_memory d)),
          (''patient_name'', JStr (firstNonEmptyString [up_DevanagariName user, up_FirstName user, up_Name user])),
          (''patient_schedule'', patientScheduleFromSlots (up_IdealCallTimeSlots user)),
          (''he_she'', JStr (subjectPronoun gender)),
          (''him_her'', JStr (objectPronoun gender)),
          (''his_her'', JStr (possessivePronoun gender)),
          (''call_flow'', if callFlow \<noteq> [] then JStr callFlow else JNull)])"

text \<open>\<open>S3GetClient\<close>: the object of a bucket (empty for the client's own) and a key.\<close>

type_synonym s3_get = "string \<Rightarrow> string \<Rightarrow> string + string"

definition downloadCompiledCallFlow :: "s3_get option \<Rightarrow> string \<Rightarrow> prompt_error + string" where
  "downloadCompiledCallFlow s3 key0 =
     (let key = trim_space key0
      in if key = [] then Inl NoCallFlowKey
         else (case s3 of
                 None \<Rightarrow> Inl NoS3Client
               | Some get \<Rightarrow>
                   (case get [] key of
                      Inl e \<Rightarrow> Inl (CallFlowFailed key e)
                    | Inr raw \<Rightarrow> if trim_space raw = [] then Inl (EmptyCallFlow key) else Inr raw)))"

definition is_dynamic :: "conversation_data \<Rightarrow> bool" where
  "is_dynamic d \<longleftrightarrow> trim_space (cr_CallFlowKey (cd_Conversation d)) \<noteq> []"

definition loadFollowUpPrompt :: "'r doc_world \<Rightarrow> string \<Rightarrow> s3_get option \<Rightarrow> 'r document_store option
    \<Rightarrow> conversation_data \<Rightarrow> 'r document_store option \<times> (prompt_error + loaded_prompt)" where
  "loadFollowUpPrompt w shownNow s3 store d =
     (case store of
        None \<Rightarrow> (None, Inl NoDocumentStore)
      | Some st \<Rightarrow>
          (if is_dynamic d then
             (case downloadCompiledCallFlow s3 (cr_CompiledCallFlowS3Key (cd_Conversation d)) of
                Inl e \<Rightarrow> (store, Inl e)
              | Inr callFlow \<Rightarrow>
                  map_prod Some id (read_prompt w st followUpDynamicMainPrompt (followUpPromptVariables shownNow d callFlow) True))
           else map_prod Some id (read_prompt w st (followUpPromptName (Some d)) (followUpPromptVariables shownNow d []) False)))"

section \<open>Tools from the prompt's config\<close>

fun as_object :: "json option \<Rightarrow> (string \<times> json) list option" where
  "as_object (Some (JObj kvs)) = Some kvs"
| "as_object _ = None"

fun as_array :: "json option \<Rightarrow> json list option" where
  "as_array (Some (JArr vs)) = Some vs"
| "as_array _ = None"

fun bool_of :: "json option \<Rightarrow> bool option" where
  "bool_of (Some (JBool b)) = Some b"
| "bool_of _ = None"

definition string_at :: "(string \<times> json) list \<Rightarrow> string \<Rightarrow> string" where
  "string_at kvs k = (case map_of kvs k of Some v \<Rightarrow> as_string v | None \<Rightarrow> [])"

definition stringSliceFromAny :: "json list \<Rightarrow> string list option" where
  "stringSliceFromAny values =
     (if length values = 0 then None
      else Some (List.map_filter (\<lambda>v. case v of JStr s \<Rightarrow> if trim_space s \<noteq> [] then Some s else None | _ \<Rightarrow> None) values))"

definition propertiesOrEmpty :: "(string \<times> json) list option \<Rightarrow> (string \<times> json) list" where
  "propertiesOrEmpty properties = (case properties of None \<Rightarrow> [] | Some p \<Rightarrow> p)"

definition toolDefinitionFromConfig :: "(string \<times> json) list \<Rightarrow> string + tool_definition" where
  "toolDefinitionFromConfig config =
     (let functionConfig = (case as_object (map_of config ''function'') of Some nested \<Rightarrow> nested | None \<Rightarrow> config);
          name = trim_space (string_at functionConfig ''name'')
      in if name = [] then Inl ''disha: tool config missing function name''
         else Inr
           \<lparr>td_Type = ''function'', td_Name = name, td_Description = string_at functionConfig ''description'',
            td_Parameters =
              (case as_object (map_of functionConfig ''parameters'') of
                 Some parameters \<Rightarrow> parameters
               | None \<Rightarrow>
                   [(''type'', JStr ''object''),
                    (''properties'', JObj (propertiesOrEmpty (as_object (map_of functionConfig ''properties'')))),
                    (''required'',
                     (case stringSliceFromAny (case as_array (map_of functionConfig ''required'') of Some vs \<Rightarrow> vs | None \<Rightarrow> []) of
                        None \<Rightarrow> JNull | Some names \<Rightarrow> JArr (map JStr names)))]),
            td_Strict = bool_of (map_of functionConfig ''strict'')\<rparr>)"

text \<open>Go's name of the dynamic type of a decoded value.\<close>

fun go_type :: "json \<Rightarrow> string" where
  "go_type JNull = ''<nil>''"
| "go_type (JBool b) = ''bool''"
| "go_type (JNum n) = ''float64''"
| "go_type (JStr s) = ''string''"
| "go_type (JArr vs) = ''[]interface {}''"
| "go_type (JObj kvs) = ''map[string]interface {}''"

fun tools_of_items :: "json list \<Rightarrow> string + tool_definition list" where
  "tools_of_items [] = Inr []"
| "tools_of_items (item # items) =
     (case as_object (Some item) of
        None \<Rightarrow> Inl (''disha: invalid tool config: '' @ go_type item)
      | Some m \<Rightarrow>
          (case toolDefinitionFromConfig m of
             Inl e \<Rightarrow> Inl e
           | Inr def \<Rightarrow> map_sum id (Cons def) (tools_of_items items)))"

fun missing_tool :: "tool_definition list \<Rightarrow> string list \<Rightarrow> string option" where
  "missing_tool tools [] = None"
| "missing_tool tools (r # required) = (if r \<in> set (map td_Name tools) then missing_tool tools required else Some r)"

definition buildDynamicFollowUpToolDefinitions :: "(string \<times> json) list \<Rightarrow> string + tool_definition list" where
  "buildDynamicFollowUpToolDefinitions promptConfig =
     (case map_of promptConfig ''tools'' of
        None \<Rightarrow> Inl ''disha: dynamic follow-up prompt config must define tools''
      | Some rawTools \<Rightarrow>
          (case as_array (Some rawTools) of
             None \<Rightarrow> Inl ''disha: dynamic follow-up prompt config tools must be a non-empty list''
           | Some items \<Rightarrow>
               if length items = 0 then Inl ''disha: dynamic follow-up prompt config tools must be a non-empty list''
               else (case tools_of_items items of
                       Inl e \<Rightarrow> Inl e
                     | Inr tools \<Rightarrow>
                         (case missing_tool tools [''get_guidance'', ''end_call''] of
                            Some r \<Rightarrow> Inl (''disha: dynamic follow-up prompt config missing tool '' @ go_quote r)
                          | None \<Rightarrow> Inr tools))))"

section \<open>What the config promises\<close>

text \<open>Trimming once is enough.\<close>

lemma space_len_extends:
  assumes "space_len (p @ q) = 0"
  shows "space_len p = 0"
proof (cases p)
  case (Cons c cs)
  have not_ascii: "\<not> ascii_space c" using assms by (simp add: Cons split: if_splits)
  have none: "List.find (\<lambda>w. take (length w) (c # cs @ q) = w) multibyte_spaces = None"
  proof (cases "List.find (\<lambda>w. take (length w) (c # cs @ q) = w) multibyte_spaces")
    case (Some w)
    then have "w \<in> set multibyte_spaces" by (auto simp: find_Some_iff)
    then have "length w > 0" by (auto simp: multibyte_spaces_def)
    then show ?thesis using assms Some not_ascii by (simp add: Cons)
  qed simp
  have "take (length w) (c # cs) \<noteq> w" if "w \<in> set multibyte_spaces" for w
  proof
    assume w: "take (length w) (c # cs) = w"
    then have "length w \<le> length (c # cs)" by (metis length_take min.cobounded1)
    then have "take (length w) ((c # cs) @ q) = take (length w) (c # cs)" unfolding take_append by simp
    then show False using none that w by (auto simp: find_None_iff)
  qed
  then have "List.find (\<lambda>w. take (length w) (c # cs) = w) multibyte_spaces = None" by (simp add: find_None_iff)
  then show ?thesis using not_ascii by (simp add: Cons)
qed simp

lemma trim_left_stops: "trim_left s = [] \<or> space_len (trim_left s) = 0"
proof (induction s rule: trim_left.induct)
  case (1 s)
  then show ?case by (subst (1 2) trim_left.simps) auto
qed

lemma trim_right_stops: "trim_right s = [] \<or> rspace_len (trim_right s) = 0"
proof (induction s rule: trim_right.induct)
  case (1 s)
  then show ?case by (subst (1 2) trim_right.simps) auto
qed

lemma trim_space_idem [simp]: "trim_space (trim_space s) = trim_space s"
proof -
  obtain q where q: "trim_left s = trim_right (trim_left s) @ q"
    using trim_right_prefix [of "trim_left s"] by (auto elim: prefixE)
  let ?t = "trim_right (trim_left s)"
  have "?t = [] \<or> space_len ?t = 0" using trim_left_stops [of s] space_len_extends [of ?t q] q by fastforce
  then have "trim_left ?t = ?t" by (subst trim_left.simps) auto
  moreover have "trim_right ?t = ?t" using trim_right_stops [of "trim_left s"] by (subst trim_right.simps) auto
  ultimately show ?thesis by (simp add: trim_space_def)
qed

definition offered :: "tool_definition \<Rightarrow> bool" where
  "offered def \<longleftrightarrow> td_Name def \<noteq> [] \<and> trim_space (td_Name def) = td_Name def \<and> td_Type def = ''function''"

lemma toolDefinition_offered: "toolDefinitionFromConfig config = Inr def \<Longrightarrow> offered def"
  by (auto simp: toolDefinitionFromConfig_def offered_def Let_def split: if_splits)

lemma tools_of_items_offered: "tools_of_items items = Inr tools \<Longrightarrow> list_all offered tools"
  by (induction items arbitrary: tools rule: tools_of_items.induct)
    (auto split: option.splits sum.splits simp: map_sum_def toolDefinition_offered)

lemma missing_tool_None: "missing_tool tools required = None \<Longrightarrow> set required \<subseteq> td_Name ` set tools"
  by (induction tools required rule: missing_tool.induct) (auto split: if_splits)

lemma buildDynamic_items:
  assumes "buildDynamicFollowUpToolDefinitions config = Inr tools"
  obtains items where "tools_of_items items = Inr tools" and "missing_tool tools [''get_guidance'', ''end_call''] = None"
proof -
  obtain raw where raw: "map_of config ''tools'' = Some raw"
    using assms unfolding buildDynamicFollowUpToolDefinitions_def by (cases "map_of config ''tools''") simp_all
  obtain items where items: "as_array (Some raw) = Some items" "length items \<noteq> 0"
    using assms unfolding buildDynamicFollowUpToolDefinitions_def raw
    by (cases "as_array (Some raw)") (simp_all split: if_split_asm)
  obtain ts where ts: "tools_of_items items = Inr ts"
    using assms items unfolding buildDynamicFollowUpToolDefinitions_def raw by (cases "tools_of_items items") simp_all
  show thesis
    using that [of items] assms items ts unfolding buildDynamicFollowUpToolDefinitions_def raw
    by (cases "missing_tool ts [''get_guidance'', ''end_call'']") (simp_all del: missing_tool.simps)
qed

lemma buildDynamic_offered:
  assumes "buildDynamicFollowUpToolDefinitions config = Inr tools"
  shows "list_all offered tools" and "''get_guidance'' \<in> td_Name ` set tools" and "''end_call'' \<in> td_Name ` set tools"
proof -
  obtain items where items: "tools_of_items items = Inr tools" "missing_tool tools [''get_guidance'', ''end_call''] = None"
    using buildDynamic_items [OF assms] .
  show "list_all offered tools" using tools_of_items_offered items(1) .
  show "''get_guidance'' \<in> td_Name ` set tools" "''end_call'' \<in> td_Name ` set tools"
    using missing_tool_None [OF items(2)] by simp_all
qed

section \<open>The dictionary of pronunciations\<close>

record phonetic_dict =
  ph_client :: bool
  ph_objectKey :: string
  ph_loaded :: bool
  ph_loadErr :: "string option"
  ph_dict :: "(string \<times> string) list"

definition NewPhoneticDictFromEnv :: "(string \<Rightarrow> string) \<Rightarrow> bool \<Rightarrow> phonetic_dict option" where
  "NewPhoneticDictFromEnv getenv hasClient =
     (let objectKey = trim_space (getenv ''PHONETICS_DICT_KEY'')
      in if objectKey = [] \<or> \<not> hasClient then None
         else Some \<lparr>ph_client = True, ph_objectKey = objectKey, ph_loaded = False, ph_loadErr = None, ph_dict = []\<rparr>)"

definition ensureLoaded :: "(string \<Rightarrow> (string \<times> string) list option) \<Rightarrow> s3_get \<Rightarrow> phonetic_dict \<Rightarrow> phonetic_dict" where
  "ensureLoaded decode get p =
     (if ph_loaded p then p
      else let p1 = p\<lparr>ph_loaded := True\<rparr>
           in if \<not> ph_client p then p1\<lparr>ph_loadErr := Some ''disha: phonetic dict client is nil''\<rparr>
              else (case get [] (ph_objectKey p) of
                      Inl e \<Rightarrow> p1\<lparr>ph_loadErr := Some (''disha: fetch phonetic dict: '' @ e)\<rparr>
                    | Inr raw \<Rightarrow>
                        (case decode raw of
                           None \<Rightarrow> p1\<lparr>ph_loadErr := Some ''disha: parse phonetic dict''\<rparr>
                         | Some dict \<Rightarrow> p1\<lparr>ph_dict := dict\<rparr>)))"

definition Preload :: "(string \<Rightarrow> (string \<times> string) list option) \<Rightarrow> s3_get \<Rightarrow> phonetic_dict option
    \<Rightarrow> phonetic_dict option \<times> string option" where
  "Preload decode get p =
     (case p of None \<Rightarrow> (None, None) | Some d \<Rightarrow> (let d1 = ensureLoaded decode get d in (Some d1, ph_loadErr d1)))"

definition Dictionary :: "(string \<Rightarrow> (string \<times> string) list option) \<Rightarrow> s3_get \<Rightarrow> phonetic_dict option
    \<Rightarrow> phonetic_dict option \<times> (string \<times> string) list" where
  "Dictionary decode get p =
     (case p of None \<Rightarrow> (None, []) | Some d \<Rightarrow> (let d1 = ensureLoaded decode get d in (Some d1, ph_dict d1)))"

interpretation phonetic_load: one_shot "\<lambda>(decode, get). ensureLoaded decode get" "\<lambda>x p. \<not> ph_loaded p" ph_loaded
  by unfold_locales (auto simp: ensureLoaded_def Let_def split: sum.splits option.splits)

text \<open>A failed download is final: every later call has an empty dictionary, whatever S3 answers then.\<close>

lemma failed_load_final:
  assumes "ph_client p" and "\<not> ph_loaded p" and "ph_dict p = []" and "get [] (ph_objectKey p) = Inl e"
  shows "snd (Dictionary decode get' (fst (Dictionary decode get (Some p)))) = []"
  using assms by (simp add: Dictionary_def ensureLoaded_def Let_def)

end
