(* ===== verification/S3.thy ===== *)
theory S3
  imports Providers Observers
begin

text \<open>
  The two S3 clients: \<open>llmrouter/s3.go\<close>, which reads the credentials of Vertex, and
  \<open>disha/s3_uploader.go\<close>, which reads reference data and writes the debug log of a call. Both sign with
  AWS's version 4. SHA-256, HMAC, the two texts of the current time and the HTTP exchange are arguments;
  bytes are strings.
\<close>

section \<open>What both clients need\<close>

record s3_world =
  sc_sha256 :: "string \<Rightarrow> string"
  sc_hmac :: "string \<Rightarrow> string \<Rightarrow> string"
  sc_amzDate :: string
  sc_dateStamp :: string

record s3_request =
  q3_Method :: string
  q3_URL :: string
  q3_Header :: "(string \<times> string) list"
  q3_Payload :: string

text \<open>The exchange: the request cannot be built or is not answered, or a status and a body.\<close>

datatype s3_reply = BadRequest string | Unanswered string | Answered int string

type_synonym s3_http = "s3_request \<Rightarrow> s3_reply"

definition hex_encode :: "string \<Rightarrow> string" where
  "hex_encode s = concat (map (\<lambda>c. [hex_char (code c div 16), hex_char (code c mod 16)]) s)"

text \<open>A request that cannot be built is not sent.\<close>

definition sent_requests :: "s3_http \<Rightarrow> s3_request \<Rightarrow> s3_request list" where
  "sent_requests http q = (case http q of BadRequest e \<Rightarrow> [] | _ \<Rightarrow> [q])"

section \<open>The router's client\<close>

fun firstNonEmptyEnv :: "(string \<Rightarrow> string) \<Rightarrow> string list \<Rightarrow> string" where
  "firstNonEmptyEnv getenv [] = []"
| "firstNonEmptyEnv getenv (k # ks) =
     (if trim_space (getenv k) \<noteq> [] then trim_space (getenv k) else firstNonEmptyEnv getenv ks)"

definition s3CanonicalURI :: "string \<Rightarrow> string" where
  "s3CanonicalURI objectKey = ''/'' @ join_with ''/'' (map path_escape (split_on (CHR ''/'') objectKey))"

definition s3SortedHeaderNames :: "(string \<times> string) list \<Rightarrow> string list" where
  "s3SortedHeaderNames headers = sort (map (\<lambda>kv. to_lower (fst kv)) headers)"

definition s3CanonicalHeaders :: "(string \<times> string) list \<Rightarrow> string list \<Rightarrow> string" where
  "s3CanonicalHeaders headers sortedNames =
     (let lower = map_of (map (\<lambda>(name, value). (to_lower name, join_with '' '' (go_fields value))) headers)
      in concat (map (\<lambda>name. name @ '':'' @ (case lower name of None \<Rightarrow> [] | Some v \<Rightarrow> v) @ [newline]) sortedNames))"

definition s3SHA256Hex :: "s3_world \<Rightarrow> string \<Rightarrow> string" where
  "s3SHA256Hex w data = hex_encode (sc_sha256 w data)"

definition s3SigningKey :: "s3_world \<Rightarrow> string \<Rightarrow> string \<Rightarrow> string \<Rightarrow> string" where
  "s3SigningKey w secret dateStamp region =
     (let kDate = sc_hmac w (''AWS4'' @ secret) dateStamp; kRegion = sc_hmac w kDate region;
          kService = sc_hmac w kRegion ''s3''
      in sc_hmac w kService ''aws4_request'')"

definition s3GetObject :: "s3_world \<Rightarrow> s3_http \<Rightarrow> string \<Rightarrow> string \<Rightarrow> string \<Rightarrow> string \<Rightarrow> string
    \<Rightarrow> s3_request list \<times> (string + string)" where
  "s3GetObject w http accessKey secretKey region bucket objectKey0 =
     (let objectKey = trim_left_char (CHR ''/'') (trim_space objectKey0)
      in if objectKey = [] then ([], Inl ''llmrouter: S3 object key is required'')
         else
           let encodedKey = s3CanonicalURI objectKey;
               host = bucket @ ''.s3.'' @ region @ ''.amazonaws.com'';
               payloadHash = s3SHA256Hex w [];
               headers = [(''host'', host), (''x-amz-content-sha256'', payloadHash), (''x-amz-date'', sc_amzDate w)];
               signedNames = s3SortedHeaderNames headers;
               signedHeaders = join_with '';'' signedNames;
               scope = sc_dateStamp w @ ''/'' @ region @ ''/s3/aws4_request'';
               canonicalRequest = join_with [newline]
                 [''GET'', encodedKey, [], s3CanonicalHeaders headers signedNames, signedHeaders, payloadHash];
               stringToSign = join_with [newline]
                 [''AWS4-HMAC-SHA256'', sc_amzDate w, scope, s3SHA256Hex w canonicalRequest];
               signature = hex_encode (sc_hmac w (s3SigningKey w secretKey (sc_dateStamp w) region) stringToSign);
               authorization = ''AWS4-HMAC-SHA256 Credential='' @ accessKey @ ''/'' @ scope @ '', SignedHeaders=''
                 @ signedHeaders @ '', Signature='' @ signature;
               q = \<lparr>q3_Method = ''GET'', q3_URL = ''https://'' @ host @ encodedKey,
                    q3_Header = (''Authorization'', authorization) # headers, q3_Payload = []\<rparr>
           in (sent_requests http q,
               case http q of
                 BadRequest e \<Rightarrow> Inl (''llmrouter: build S3 GET: '' @ e)
               | Unanswered e \<Rightarrow> Inl (''llmrouter: S3 GET failed: '' @ e)
               | Answered status body \<Rightarrow>
                   if status < 200 \<or> status \<ge> 300
                   then Inl (''llmrouter: S3 GET returned '' @ int_str status @ '': '' @ trim_space body)
                   else Inr body))"

definition s3GetObjectFromEnv :: "s3_world \<Rightarrow> s3_http \<Rightarrow> (string \<Rightarrow> string) \<Rightarrow> string \<Rightarrow> s3_request list \<times> (string + string)" where
  "s3GetObjectFromEnv w http getenv objectKey =
     (let accessKey = trim_space (getenv ''ACCESS_KEY_ID''); secretKey = trim_space (getenv ''SECRET_KEY_ID'');
          region = firstNonEmptyEnv getenv [''AWS_MAIN_REGION'', ''AWS_REGION''];
          bucket = trim_space (getenv ''AWS_BUCKET_NAME'')
      in if accessKey = [] \<or> secretKey = [] \<or> region = [] \<or> bucket = []
         then ([], Inl ''llmrouter: incomplete AWS env for S3 fetch (need ACCESS_KEY_ID/SECRET_KEY_ID/AWS_MAIN_REGION/AWS_BUCKET_NAME)'')
         else s3GetObject w http accessKey secretKey region bucket objectKey)"

section \<open>The client of the bots\<close>

record s3_uploader =
  s3_accessKey :: string
  s3_secretKey :: string
  s3_region :: string
  s3_bucket :: string

definition newS3ClientFromEnv :: "(string \<Rightarrow> string) \<Rightarrow> string \<Rightarrow> string \<Rightarrow> s3_uploader option" where
  "newS3ClientFromEnv getenv bucket region =
     (let client = \<lparr>s3_accessKey = trim_space (getenv ''ACCESS_KEY_ID''), s3_secretKey = trim_space (getenv ''SECRET_KEY_ID''),
                    s3_region = trim_space region, s3_bucket = trim_space bucket\<rparr>
      in if s3_accessKey client = [] \<or> s3_secretKey client = [] \<or> s3_region client = [] \<or> s3_bucket client = []
         then None else Some client)"

definition NewS3UploaderFromEnv :: "(string \<Rightarrow> string) \<Rightarrow> s3_uploader option" where
  "NewS3UploaderFromEnv getenv = newS3ClientFromEnv getenv (getenv ''AWS_BUCKET_NAME'') (getenv ''AWS_MAIN_REGION'')"

definition NewS3GetClientFromEnv :: "(string \<Rightarrow> string) \<Rightarrow> string \<Rightarrow> string \<Rightarrow> s3_uploader option" where
  "NewS3GetClientFromEnv getenv bucketEnvKey regionEnvKey =
     newS3ClientFromEnv getenv (getenv bucketEnvKey) (getenv regionEnvKey)"

text \<open>The variables named in the report that a client is missing.\<close>

definition reportS3EnvIncomplete :: "(string \<Rightarrow> string) \<Rightarrow> string \<Rightarrow> string list \<Rightarrow> string" where
  "reportS3EnvIncomplete getenv operation envKeys =
     ''disha: S3 '' @ operation @ '' disabled; missing env: ''
       @ join_with '', '' (filter (\<lambda>key. trim_space (getenv key) = []) (envKeys @ [''ACCESS_KEY_ID'', ''SECRET_KEY_ID'']))"

definition sortedHeaderNames :: "(string \<times> string) list \<Rightarrow> string list" where
  "sortedHeaderNames headers = sort (map (\<lambda>kv. to_lower (fst kv)) headers)"

definition canonicalS3Headers :: "(string \<times> string) list \<Rightarrow> string list \<Rightarrow> string" where
  "canonicalS3Headers headers sortedNames =
     (let lower = map_of (map (\<lambda>(name, value). (to_lower name, join_with '' '' (go_fields value))) headers)
      in concat (map (\<lambda>name. name @ '':'' @ (case lower name of None \<Rightarrow> [] | Some v \<Rightarrow> v) @ [newline]) sortedNames))"

definition disha_s3CanonicalURI :: "string \<Rightarrow> string" where
  "disha_s3CanonicalURI objectKey = ''/'' @ join_with ''/'' (map path_escape (split_on (CHR ''/'') objectKey))"

definition sha256Hex :: "s3_world \<Rightarrow> string \<Rightarrow> string" where
  "sha256Hex w data = hex_encode (sc_sha256 w data)"

definition signingKey :: "s3_world \<Rightarrow> string \<Rightarrow> string \<Rightarrow> string \<Rightarrow> string \<Rightarrow> string" where
  "signingKey w secret dateStamp region service =
     (let kDate = sc_hmac w (''AWS4'' @ secret) dateStamp; kRegion = sc_hmac w kDate region;
          kService = sc_hmac w kRegion service
      in sc_hmac w kService ''aws4_request'')"

definition GetObject :: "s3_world \<Rightarrow> s3_http \<Rightarrow> s3_uploader \<Rightarrow> string \<Rightarrow> string \<Rightarrow> s3_request list \<times> (string + string)" where
  "GetObject w http u bucket0 objectKey0 =
     (let objectKey = trim_left_char (CHR ''/'') (trim_space objectKey0)
      in if objectKey = [] then ([], Inl ''disha: S3 object key is required'')
         else
           let bucket = (if trim_space bucket0 = [] then s3_bucket u else bucket0);
               encodedKey = disha_s3CanonicalURI objectKey;
               host = bucket @ ''.s3.'' @ s3_region u @ ''.amazonaws.com'';
               payloadHash = sha256Hex w [];
               headers = [(''host'', host), (''x-amz-content-sha256'', payloadHash), (''x-amz-date'', sc_amzDate w)];
               signedHeaderNames = sortedHeaderNames headers;
               signedHeaders = join_with '';'' signedHeaderNames;
               scope = sc_dateStamp w @ ''/'' @ s3_region u @ ''/s3/aws4_request'';
               canonicalRequest = join_with [newline]
                 [''GET'', encodedKey, [], canonicalS3Headers headers signedHeaderNames, signedHeaders, payloadHash];
               stringToSign = join_with [newline]
                 [''AWS4-HMAC-SHA256'', sc_amzDate w, scope, sha256Hex w canonicalRequest];
               signature = hex_encode (sc_hmac w (signingKey w (s3_secretKey u) (sc_dateStamp w) (s3_region u) ''s3'') stringToSign);
               authorization = ''AWS4-HMAC-SHA256 Credential='' @ s3_accessKey u @ ''/'' @ scope @ '', SignedHeaders=''
                 @ signedHeaders @ '', Signature='' @ signature;
               q = \<lparr>q3_Method = ''GET'', q3_URL = ''https://'' @ host @ encodedKey,
                    q3_Header = (''Authorization'', authorization) # headers, q3_Payload = []\<rparr>
           in (sent_requests http q,
               case http q of
                 BadRequest e \<Rightarrow> Inl (''disha: build S3 GET: '' @ e)
               | Unanswered e \<Rightarrow> Inl (''disha: S3 GET failed: '' @ e)
               | Answered status body \<Rightarrow>
                   if status < 200 \<or> status \<ge> 300
                   then Inl (''disha: S3 GET returned '' @ int_str status @ '': '' @ trim_space body)
                   else Inr body))"

definition putObject :: "s3_world \<Rightarrow> s3_http \<Rightarrow> s3_uploader \<Rightarrow> string \<Rightarrow> string \<Rightarrow> string \<Rightarrow> s3_request list \<times> string option" where
  "putObject w http u objectKey payload contentType =
     (let encodedKey = disha_s3CanonicalURI objectKey;
          host = s3_bucket u @ ''.s3.'' @ s3_region u @ ''.amazonaws.com'';
          payloadHash = sha256Hex w payload;
          headers = [(''content-type'', contentType), (''host'', host), (''x-amz-acl'', ''public-read''),
                     (''x-amz-content-sha256'', payloadHash), (''x-amz-date'', sc_amzDate w)];
          signedHeaderNames = sortedHeaderNames headers;
          signedHeaders = join_with '';'' signedHeaderNames;
          scope = sc_dateStamp w @ ''/'' @ s3_region u @ ''/s3/aws4_request'';
          canonicalRequest = join_with [newline]
            [''PUT'', encodedKey, [], canonicalS3Headers headers signedHeaderNames, signedHeaders, payloadHash];
          stringToSign = join_with [newline]
            [''AWS4-HMAC-SHA256'', sc_amzDate w, scope, sha256Hex w canonicalRequest];
          signature = hex_encode (sc_hmac w (signingKey w (s3_secretKey u) (sc_dateStamp w) (s3_region u) ''s3'') stringToSign);
          authorization = ''AWS4-HMAC-SHA256 Credential='' @ s3_accessKey u @ ''/'' @ scope @ '', SignedHeaders=''
            @ signedHeaders @ '', Signature='' @ signature;
          q = \<lparr>q3_Method = ''PUT'', q3_URL = ''https://'' @ host @ encodedKey,
               q3_Header = (''Authorization'', authorization) # headers, q3_Payload = payload\<rparr>
      in (sent_requests http q,
          case http q of
            BadRequest e \<Rightarrow> Some (''disha: build S3 PUT: '' @ e)
          | Unanswered e \<Rightarrow> Some (''disha: S3 PUT failed: '' @ e)
          | Answered status body \<Rightarrow>
              if status < 200 \<or> status \<ge> 300
              then Some (''disha: S3 PUT returned '' @ int_str status @ '': '' @ trim_space (take 4096 body))
              else None))"

text \<open>\<open>marshal\<close> is \<open>json.MarshalIndent\<close>: an error or the indented text.\<close>

definition UploadJSON :: "s3_world \<Rightarrow> s3_http \<Rightarrow> ('v \<Rightarrow> string + string) \<Rightarrow> s3_uploader \<Rightarrow> string \<Rightarrow> 'v
    \<Rightarrow> s3_request list \<times> string option" where
  "UploadJSON w http marshal u objectKey0 value =
     (let objectKey = trim_left_char (CHR ''/'') (trim_space objectKey0)
      in if objectKey = [] then ([], Some ''disha: S3 object key is required'')
         else (case marshal value of
                 Inl e \<Rightarrow> ([], Some (''disha: marshal S3 JSON: '' @ e))
               | Inr payload \<Rightarrow> putObject w http u objectKey payload ''application/json''))"

section \<open>The debug log of a call\<close>

text \<open>An uploader is the client and the key it writes to.\<close>

definition NewDebugLogUploaderFromEnv :: "(string \<Rightarrow> string) \<Rightarrow> string \<Rightarrow> (s3_uploader \<times> string) option" where
  "NewDebugLogUploaderFromEnv getenv conversationID0 =
     (let conversationID = trim_space conversationID0
      in if conversationID = [] then None
         else map_option (\<lambda>store. (store, ''debug_log_data/'' @ conversationID @ ''/log_data.json'')) (NewS3UploaderFromEnv getenv))"

definition uploadDebugLogs :: "s3_world \<Rightarrow> s3_http \<Rightarrow> (debug_entry list \<Rightarrow> string + string) \<Rightarrow> (s3_uploader \<times> string) option
    \<Rightarrow> debug_entry list \<Rightarrow> s3_request list \<times> string" where
  "uploadDebugLogs w http marshal uploader logs =
     (case uploader of
        None \<Rightarrow> ([], [])
      | Some (store, objectKey) \<Rightarrow>
          if length logs = 0 then ([], [])
          else (case UploadJSON w http marshal store objectKey logs of
                  (qs, Some e) \<Rightarrow> (qs, [])
                | (qs, None) \<Rightarrow> (qs, objectKey)))"

section \<open>Keys and paths\<close>

definition hex_value :: "char \<Rightarrow> nat" where
  "hex_value c = (if code c < 65 then code c - 48 else code c - 55)"

fun url_unescape :: "string \<Rightarrow> string" where
  "url_unescape (a # b # c # s) =
     (if a = CHR ''%'' then char_of (16 * hex_value b + hex_value c) # url_unescape s else a # url_unescape (b # c # s))"
| "url_unescape s = s"

lemma url_unescape_plain: "a \<noteq> CHR ''%'' \<Longrightarrow> url_unescape (a # s) = a # url_unescape s"
  by (cases s rule: remdups_adj.cases) simp_all

lemma hex_value_upper: "n < 16 \<Longrightarrow> hex_value (upper_hex n) = n"
  by (auto simp: hex_value_def upper_hex_def)

lemma path_safe_percent: "path_safe c \<Longrightarrow> c \<noteq> CHR ''%''"
  by (auto simp: path_safe_def)

lemma path_escape_Cons: "path_escape (c # s) =
    (if path_safe c then [c] else [CHR ''%'', upper_hex (code c div 16), upper_hex (code c mod 16)]) @ path_escape s"
  by (simp add: path_escape_def)

lemma path_escape_Nil [simp]: "path_escape [] = []"
  by (simp add: path_escape_def)

lemma url_unescape_char:
  "url_unescape ((if path_safe c then [c] else [CHR ''%'', upper_hex (code c div 16), upper_hex (code c mod 16)]) @ t)
     = c # url_unescape t"
proof (cases "path_safe c")
  case True
  then show ?thesis using url_unescape_plain path_safe_percent by simp
next
  case False
  have "code c < 16 * 16" by simp
  then have "code c div 16 < 16" by (rule less_mult_imp_div_less)
  then have "hex_value (upper_hex (code c div 16)) = code c div 16" "hex_value (upper_hex (code c mod 16)) = code c mod 16"
    by (simp_all add: hex_value_upper)
  then show ?thesis using False by (simp add: mult_div_mod_eq)
qed

lemma split_on_nonempty [simp]: "split_on d s \<noteq> []"
  by (induction s) (auto split: list.split)

lemma join_escaped:
  "url_unescape (join_with ''/'' (map path_escape (split_on (CHR ''/'') s))) = s"
proof (induction s)
  case (Cons c s)
  obtain w ws where split: "split_on (CHR ''/'') s = w # ws" using split_on_nonempty by (metis list.exhaust)
  show ?case
  proof (cases "c = CHR ''/''")
    case True
    have "join_with ''/'' ([] # map path_escape (split_on (CHR ''/'') s)) =
        CHR ''/'' # join_with ''/'' (map path_escape (split_on (CHR ''/'') s))" by (simp add: split)
    then show ?thesis using True Cons.IH url_unescape_plain by simp
  next
    case False
    have "join_with ''/'' (map path_escape ((c # w) # ws)) =
        (if path_safe c then [c] else [CHR ''%'', upper_hex (code c div 16), upper_hex (code c mod 16)])
          @ join_with ''/'' (map path_escape (w # ws))"
      by (cases ws) (simp_all add: path_escape_Cons)
    then show ?thesis using False Cons.IH by (simp only: split_on.simps split if_False list.case url_unescape_char)
  qed
qed simp

lemma canonical_uri_same: "disha_s3CanonicalURI = s3CanonicalURI"
  by (simp add: disha_s3CanonicalURI_def s3CanonicalURI_def fun_eq_iff)

lemma canonical_uri_decodes: "url_unescape (s3CanonicalURI k) = ''/'' @ k"
  using url_unescape_plain [of "CHR ''/''"] by (simp add: s3CanonicalURI_def join_escaped)

section \<open>What is signed is what is sent\<close>

text \<open>
  The reference: the header that version 4 of the signature asks for, computed from a request alone, as
  the service does to verify it: method, path, the other headers sorted by name, and the payload.
\<close>

definition request_host :: "s3_request \<Rightarrow> string" where
  "request_host q = (case map_of (q3_Header q) ''host'' of Some h \<Rightarrow> h | None \<Rightarrow> [])"

definition request_path :: "s3_request \<Rightarrow> string" where
  "request_path q = drop (length (''https://'' @ request_host q)) (q3_URL q)"

definition canonical_of :: "s3_world \<Rightarrow> s3_request \<Rightarrow> string" where
  "canonical_of w q =
     (let hs = filter (\<lambda>kv. fst kv \<noteq> ''Authorization'') (q3_Header q); names = sort (map fst hs)
      in join_with [newline]
           [q3_Method q, request_path q, [],
            concat (map (\<lambda>n. n @ '':'' @ join_with '' '' (go_fields (the (map_of hs n))) @ [newline]) names),
            join_with '';'' names, hex_encode (sc_sha256 w (q3_Payload q))])"

definition sigv4 :: "s3_world \<Rightarrow> string \<Rightarrow> string \<Rightarrow> string \<Rightarrow> s3_request \<Rightarrow> string" where
  "sigv4 w accessKey secretKey region q =
     (let scope = sc_dateStamp w @ ''/'' @ region @ ''/s3/aws4_request'';
          names = sort (map fst (filter (\<lambda>kv. fst kv \<noteq> ''Authorization'') (q3_Header q)));
          toSign = join_with [newline] [''AWS4-HMAC-SHA256'', sc_amzDate w, scope, hex_encode (sc_sha256 w (canonical_of w q))];
          key = sc_hmac w (sc_hmac w (sc_hmac w (sc_hmac w (''AWS4'' @ secretKey) (sc_dateStamp w)) region) ''s3'') ''aws4_request''
      in ''AWS4-HMAC-SHA256 Credential='' @ accessKey @ ''/'' @ scope @ '', SignedHeaders='' @ join_with '';'' names
           @ '', Signature='' @ hex_encode (sc_hmac w key toSign))"

definition well_signed :: "s3_world \<Rightarrow> string \<Rightarrow> string \<Rightarrow> string \<Rightarrow> string \<Rightarrow> string \<Rightarrow> s3_request \<Rightarrow> bool" where
  "well_signed w accessKey secretKey region bucket key q \<longleftrightarrow>
     map_of (q3_Header q) ''Authorization'' = Some (sigv4 w accessKey secretKey region q)
     \<and> request_host q = bucket @ ''.s3.'' @ region @ ''.amazonaws.com''
     \<and> q3_URL q = ''https://'' @ request_host q @ request_path q
     \<and> url_unescape (request_path q) = ''/'' @ key
     \<and> map_of (q3_Header q) ''x-amz-content-sha256'' = Some (hex_encode (sc_sha256 w (q3_Payload q)))
     \<and> map_of (q3_Header q) ''x-amz-date'' = Some (sc_amzDate w)"

lemma lower_names: "to_lower ''host'' = ''host''" "to_lower ''x-amz-content-sha256'' = ''x-amz-content-sha256''"
  "to_lower ''x-amz-date'' = ''x-amz-date''" "to_lower ''content-type'' = ''content-type''" "to_lower ''x-amz-acl'' = ''x-amz-acl''"
  by code_simp+

lemma map_cong_names: "(\<And>n. n \<in> set names \<Longrightarrow> f n = g n) \<Longrightarrow> concat (map f names) = concat (map g names)"
  by (metis map_cong)

text \<open>The headers as the code canonicalises them, when their names are lower case already.\<close>

lemma canonical_headers_lower:
  assumes "list_all (\<lambda>kv. to_lower (fst kv) = fst kv) headers"
  shows "sortedHeaderNames headers = sort (map fst headers)"
    and "canonicalS3Headers headers (sort (map fst headers)) =
      concat (map (\<lambda>n. n @ '':'' @ join_with '' '' (go_fields (the (map_of headers n))) @ [newline]) (sort (map fst headers)))"
proof -
  have names: "map (\<lambda>kv. to_lower (fst kv)) headers = map fst headers"
    and vals: "map (\<lambda>(n, v). (to_lower n, join_with '' '' (go_fields v))) headers = map (\<lambda>(n, v). (n, join_with '' '' (go_fields v))) headers"
    using assms by (auto simp: list_all_iff)
  have look: "map_of (map (\<lambda>(n, v). (n, join_with '' '' (go_fields v))) headers) n
      = map_option (\<lambda>v. join_with '' '' (go_fields v)) (map_of headers n)" for n
    by (induction headers) auto
  show "sortedHeaderNames headers = sort (map fst headers)" by (simp add: sortedHeaderNames_def names)
  have "map_of headers n \<noteq> None" if "n \<in> fst ` set headers" for n
    using that by (simp add: map_of_eq_None_iff)
  then show "canonicalS3Headers headers (sort (map fst headers)) =
      concat (map (\<lambda>n. n @ '':'' @ join_with '' '' (go_fields (the (map_of headers n))) @ [newline]) (sort (map fst headers)))"
    unfolding canonicalS3Headers_def Let_def vals look
    by (intro map_cong_names) (auto split: option.split dest: weak_map_of_SomeI)
qed

lemma router_same: "s3SortedHeaderNames = sortedHeaderNames" "s3CanonicalHeaders = canonicalS3Headers" "s3SHA256Hex = sha256Hex"
  "s3SigningKey w secret dateStamp region = signingKey w secret dateStamp region ''s3''"
  by (simp_all add: fun_eq_iff s3SortedHeaderNames_def sortedHeaderNames_def s3CanonicalHeaders_def canonicalS3Headers_def
      s3SHA256Hex_def sha256Hex_def s3SigningKey_def signingKey_def)

definition signed_request :: "s3_world \<Rightarrow> s3_uploader \<Rightarrow> string \<Rightarrow> string \<Rightarrow> string \<Rightarrow> (string \<times> string) list \<Rightarrow> string \<Rightarrow> s3_request" where
  "signed_request w u verb host path headers payload =
     (let names = sortedHeaderNames headers; scope = sc_dateStamp w @ ''/'' @ s3_region u @ ''/s3/aws4_request'';
          canonicalRequest = join_with [newline]
            [verb, path, [], canonicalS3Headers headers names, join_with '';'' names, sha256Hex w payload];
          stringToSign = join_with [newline] [''AWS4-HMAC-SHA256'', sc_amzDate w, scope, sha256Hex w canonicalRequest]
      in \<lparr>q3_Method = verb, q3_URL = ''https://'' @ host @ path,
          q3_Header = (''Authorization'', ''AWS4-HMAC-SHA256 Credential='' @ s3_accessKey u @ ''/'' @ scope @ '', SignedHeaders=''
            @ join_with '';'' names @ '', Signature=''
            @ hex_encode (sc_hmac w (signingKey w (s3_secretKey u) (sc_dateStamp w) (s3_region u) ''s3'') stringToSign)) # headers,
          q3_Payload = payload\<rparr>)"

lemma signed_request_simps:
  "q3_Method (signed_request w u verb host path headers payload) = verb"
  "q3_URL (signed_request w u verb host path headers payload) = ''https://'' @ host @ path"
  "tl (q3_Header (signed_request w u verb host path headers payload)) = headers"
  "fst (hd (q3_Header (signed_request w u verb host path headers payload))) = ''Authorization''"
  "q3_Header (signed_request w u verb host path headers payload) \<noteq> []"
  "q3_Payload (signed_request w u verb host path headers payload) = payload"
  unfolding signed_request_def Let_def by simp_all

lemma drop_both: "drop (length (a @ b)) (a @ b @ c) = c"
  by simp

lemma signed_request_well_signed:
  assumes lower: "list_all (\<lambda>kv. to_lower (fst kv) = fst kv \<and> fst kv \<noteq> ''Authorization'') headers"
    and host: "map_of headers ''host'' = Some host" and host_name: "host = bucket @ ''.s3.'' @ s3_region u @ ''.amazonaws.com''"
    and hash: "map_of headers ''x-amz-content-sha256'' = Some (sha256Hex w payload)"
    and date: "map_of headers ''x-amz-date'' = Some (sc_amzDate w)"
  shows "well_signed w (s3_accessKey u) (s3_secretKey u) (s3_region u) bucket key
    (signed_request w u verb host (disha_s3CanonicalURI key) headers payload)"
    (is "well_signed _ _ _ _ _ _ ?q")
proof -
  obtain a where header: "q3_Header ?q = (''Authorization'', a) # headers"
    using signed_request_simps(3-5) [of w u verb host "disha_s3CanonicalURI key" headers payload]
    by (cases "q3_Header ?q") (auto simp: prod_eq_iff)
  have others: "filter (\<lambda>kv. fst kv \<noteq> ''Authorization'') (q3_Header ?q) = headers"
    using lower by (auto simp: header list_all_iff filter_id_conv)
  have look: "k \<noteq> ''Authorization'' \<Longrightarrow> map_of (q3_Header ?q) k = map_of headers k" for k by (simp add: header)
  have h: "request_host ?q = host" by (simp add: request_host_def look host)
  have p: "request_path ?q = disha_s3CanonicalURI key"
    unfolding request_path_def signed_request_simps h by (rule drop_both)
  have ll: "list_all (\<lambda>kv. to_lower (fst kv) = fst kv) headers" using lower by (simp add: list_all_iff)
  have c: "canonical_of w ?q = join_with [newline]
      [verb, disha_s3CanonicalURI key, [], canonicalS3Headers headers (sortedHeaderNames headers),
       join_with '';'' (sortedHeaderNames headers), sha256Hex w payload]"
    unfolding canonical_of_def Let_def others p canonical_headers_lower [OF ll] signed_request_simps
    by (simp only: sha256Hex_def)
  have "snd (hd (q3_Header ?q)) = sigv4 w (s3_accessKey u) (s3_secretKey u) (s3_region u) ?q"
    unfolding sigv4_def Let_def others c
    by (simp only: signed_request_def Let_def sha256Hex_def signingKey_def canonical_headers_lower(1) [OF ll] s3_request.simps
        list.sel snd_conv append_assoc)
  then have sig: "map_of (q3_Header ?q) ''Authorization'' = Some (sigv4 w (s3_accessKey u) (s3_secretKey u) (s3_region u) ?q)"
    by (simp add: header)
  have path: "url_unescape (disha_s3CanonicalURI key) = ''/'' @ key" by (simp only: canonical_uri_same canonical_uri_decodes)
  have x: "map_of (q3_Header ?q) ''x-amz-content-sha256'' = Some (hex_encode (sc_sha256 w payload))"
    "map_of (q3_Header ?q) ''x-amz-date'' = Some (sc_amzDate w)"
    using hash date by (simp_all add: look sha256Hex_def)
  show ?thesis
    unfolding well_signed_def sig h p path signed_request_simps x by (simp only: host_name refl simp_thms)
qed

text \<open>The requests of the three operations.\<close>

definition read_headers :: "s3_world \<Rightarrow> string \<Rightarrow> (string \<times> string) list" where
  "read_headers w host = [(''host'', host), (''x-amz-content-sha256'', sha256Hex w []), (''x-amz-date'', sc_amzDate w)]"

definition write_headers :: "s3_world \<Rightarrow> string \<Rightarrow> string \<Rightarrow> string \<Rightarrow> (string \<times> string) list" where
  "write_headers w host contentType payload =
     [(''content-type'', contentType), (''host'', host), (''x-amz-acl'', ''public-read''),
      (''x-amz-content-sha256'', sha256Hex w payload), (''x-amz-date'', sc_amzDate w)]"

lemma sent_requests_all: "P q \<Longrightarrow> list_all P (sent_requests http q)"
  by (simp add: sent_requests_def split: s3_reply.split)

lemma GetObject_sends:
  assumes "trim_left_char (CHR ''/'') (trim_space k) \<noteq> []"
  shows "fst (GetObject w http u b k) = sent_requests http
    (let bucket = (if trim_space b = [] then s3_bucket u else b); host = bucket @ ''.s3.'' @ s3_region u @ ''.amazonaws.com''
     in signed_request w u ''GET'' host (disha_s3CanonicalURI (trim_left_char (CHR ''/'') (trim_space k))) (read_headers w host) [])"
  using assms by (simp only: GetObject_def signed_request_def read_headers_def Let_def if_False fst_conv)

lemma putObject_sends:
  "fst (putObject w http u k payload ct) = sent_requests http
    (let host = s3_bucket u @ ''.s3.'' @ s3_region u @ ''.amazonaws.com''
     in signed_request w u ''PUT'' host (disha_s3CanonicalURI k) (write_headers w host ct payload) payload)"
  by (simp only: putObject_def signed_request_def write_headers_def Let_def fst_conv)

text \<open>The two clients, written twice in the code, send the same request.\<close>

lemma s3_signers_agree:
  "fst (s3GetObject w http ak sk region bucket k) =
    fst (GetObject w http \<lparr>s3_accessKey = ak, s3_secretKey = sk, s3_region = region, s3_bucket = bucket\<rparr> [] k)"
  unfolding s3GetObject_def GetObject_def Let_def router_same canonical_uri_same
  by (simp only: trim_space_Nil refl if_True s3_uploader.simps split: if_split) simp


end
