(* ===== verification/LlmLog.thy ===== *)
theory LlmLog
  imports Callbacks Router
begin

text \<open>
  The log of the model calls (\<open>disha/llm_logging.go\<close>): each completed stream becomes a job for Disha's
  logging service, unless its arguments are too large for the queue. The text of a float is an argument.
\<close>

definition llmLogModule :: string where "llmLogModule = ''services.llm_logging_service''"
definition llmLogFunc :: string where "llmLogFunc = ''log_llm_call_job''"
definition llmLogQueue :: string where "llmLogQueue = ''p1-fast-l1''"
definition callConversationEntityType :: string where "callConversationEntityType = ''callconversation''"
definition maxLLMLogPayloadBytes :: nat where "maxLLMLogPayloadBytes = 200 * 1024"

definition toolCallNames :: "tool_call list \<Rightarrow> string list" where
  "toolCallNames calls = map (\<lambda>c. tcf_Name (tc_Function c)) calls"

definition toolCallArguments :: "tool_call list \<Rightarrow> string list" where
  "toolCallArguments calls = map (\<lambda>c. tcf_Arguments (tc_Function c)) calls"

definition toolCallIDs :: "tool_call list \<Rightarrow> string list" where
  "toolCallIDs calls = map tc_ID calls"

definition statusCodeOrNil :: "int \<Rightarrow> json" where
  "statusCodeOrNil code0 = (if code0 = 0 then JNull else JNum (int_str code0))"

definition strings :: "string list \<Rightarrow> json" where
  "strings xs = JArr (map JStr xs)"

definition requestPayload :: "call_log \<Rightarrow> (string \<times> json) list" where
  "requestPayload c =
     (case cl_Request c of (messages, tools, choice) \<Rightarrow>
        [(''model'', JStr (cl_Model c)), (''messages'', JArr (map message_json messages)), (''stream'', JBool True),
         (''stream_options'', JObj [(''include_usage'', JBool True)])]
        @ (if length tools > 0 then [(''tools'', JArr (map tool_json tools))] else [])
        @ (if choice \<noteq> JNull then [(''tool_choice'', choice)] else []))"

definition responsePayload :: "call_log \<Rightarrow> (string \<times> json) list" where
  "responsePayload c =
     (let u = cl_Usage c; int_json = (\<lambda>i. JNum (int_str i))
      in [(''content'', JStr (cl_ResponseContent c)), (''functions_list'', strings (toolCallNames (cl_ToolCalls c))),
          (''arguments_list'', strings (toolCallArguments (cl_ToolCalls c))),
          (''tool_id_list'', strings (toolCallIDs (cl_ToolCalls c))),
          (''usage'', JObj [(''prompt_tokens'', int_json (us_PromptTokens u)), (''completion_tokens'', int_json (us_CompletionTokens u)),
             (''total_tokens'', int_json (wrap64 (us_PromptTokens u + us_CompletionTokens u)))]),
          (''completed'', JBool (cl_Completed c)), (''status_code'', int_json (cl_StatusCode c))]
         @ (if cl_ErrorMessage c \<noteq> []
            then [(''error'', JObj [(''type'', JStr (cl_ErrorType c)), (''message'', JStr (cl_ErrorMessage c)),
                    (''status_code'', int_json (cl_StatusCode c))])]
            else []))"

definition llm_log_kwargs :: "(rat \<Rightarrow> string) \<Rightarrow> string \<Rightarrow> string \<Rightarrow> string \<Rightarrow> call_log \<Rightarrow> (string \<times> json) list" where
  "llm_log_kwargs show_float usecaseType userID conversationID c =
     [(''model'', JStr (cl_Model c)), (''request_payload'', JObj (requestPayload c)),
      (''response_payload'', JObj (responsePayload c)),
      (''prompt_tokens'', JNum (int_str (us_PromptTokens (cl_Usage c)))),
      (''completion_tokens'', JNum (int_str (us_CompletionTokens (cl_Usage c)))),
      (''ttfb_ms'', JNum (show_float (cl_TTFBMs c))), (''total_time_ms'', JNum (show_float (cl_TotalMs c))),
      (''user_id'', JStr userID), (''entity_type'', JStr callConversationEntityType), (''entity_id'', JStr conversationID),
      (''usecase_type'', JStr usecaseType), (''deployment'', JStr (cl_Deployment c)),
      (''llm_call_completed'', JBool (cl_Completed c)), (''status_code'', statusCodeOrNil (cl_StatusCode c))]
     @ (if length (cl_PromptMetadata c) > 0 then [(''prompt_metadata'', JObj (cl_PromptMetadata c))] else [])"

text \<open>The sink: the requests it makes for one log; their outcome is only reported.\<close>

definition newLLMLogSink :: "api_world option \<Rightarrow> (rat \<Rightarrow> string) \<Rightarrow> string \<Rightarrow> string \<Rightarrow> string
    \<Rightarrow> (call_log \<Rightarrow> api_request list) option" where
  "newLLMLogSink api show_float usecaseType userID conversationID =
     map_option (\<lambda>world c.
       let kwargs = llm_log_kwargs show_float usecaseType userID conversationID c; raw = json_marshal (JObj kwargs)
       in if length raw > maxLLMLogPayloadBytes then []
          else fst (EnqueueJob world llmLogModule llmLogFunc kwargs llmLogQueue)) api"

section \<open>No log is too large for the queue\<close>

lemma job_sorted:
  "sort_key fst [(''module_name'', a), (''func_name'', b), (''kwargs'', c), (''sqs_queue'', d)] =
     [(''func_name'', b), (''kwargs'', c), (''module_name'', a), (''sqs_queue'', (d :: string))]"
  by code_simp

lemma job_texts:
  "length (json_quote ''module_name'') = 13" "length (json_quote ''func_name'') = 11" "length (json_quote ''kwargs'') = 8"
  "length (json_quote ''sqs_queue'') = 11" "length (json_quote llmLogModule) = 30" "length (json_quote llmLogFunc) = 18"
  "length (json_quote llmLogQueue) = 12"
  by code_simp+

lemma enqueued_size:
  "length (json_marshal (JObj (ar_Body (enqueue_request llmLogModule llmLogFunc kwargs llmLogQueue))))
     = length (json_marshal (JObj kwargs)) + 112"
proof -
  have texts: "map (\<lambda>kv. (fst kv, json_marshal (snd kv))) (ar_Body (enqueue_request llmLogModule llmLogFunc kwargs llmLogQueue)) =
      [(''module_name'', json_quote llmLogModule), (''func_name'', json_quote llmLogFunc),
       (''kwargs'', json_marshal (JObj kwargs)), (''sqs_queue'', json_quote llmLogQueue)]"
    by (simp add: enqueue_request_def)
  show ?thesis
    unfolding json_marshal.simps(6) [of "ar_Body _"] texts job_sorted by (simp add: job_texts del: json_marshal.simps)
qed

text \<open>
  C37: no log is too large for the queue, and none is made up or lost below the limit. For a call the sink
  sends nothing, exactly when its arguments exceed 200 KiB, or one job, which fits the 256 KiB of a queue
  message and carries the model, the deployment, the owner, the response and its tool calls as they were.
\<close>

theorem llm_log_bounded:
  assumes "newLLMLogSink api show_float usecaseType userID conversationID = Some sink"
  shows "list_all (\<lambda>r. length (json_marshal (JObj (ar_Body r))) \<le> 256 * 1024) (sink c)
    \<and> (sink c = [] \<longleftrightarrow> length (json_marshal (JObj (llm_log_kwargs show_float usecaseType userID conversationID c))) > 200 * 1024)
    \<and> length (sink c) \<le> 1
    \<and> list_all (\<lambda>r. \<exists>kwargs response. map_of (ar_Body r) ''kwargs'' = Some (JObj kwargs)
          \<and> map_of kwargs ''model'' = Some (JStr (cl_Model c)) \<and> map_of kwargs ''deployment'' = Some (JStr (cl_Deployment c))
          \<and> map_of kwargs ''user_id'' = Some (JStr userID) \<and> map_of kwargs ''entity_id'' = Some (JStr conversationID)
          \<and> map_of kwargs ''response_payload'' = Some (JObj response)
          \<and> map_of response ''content'' = Some (JStr (cl_ResponseContent c))
          \<and> map_of response ''functions_list'' = Some (strings (map (\<lambda>t. tcf_Name (tc_Function t)) (cl_ToolCalls c)))
          \<and> map_of response ''arguments_list'' = Some (strings (map (\<lambda>t. tcf_Arguments (tc_Function t)) (cl_ToolCalls c)))
          \<and> map_of response ''tool_id_list'' = Some (strings (map tc_ID (cl_ToolCalls c)))) (sink c)"
proof -
  let ?kwargs = "llm_log_kwargs show_float usecaseType userID conversationID c"
  have sink: "sink c = (if length (json_marshal (JObj ?kwargs)) > maxLLMLogPayloadBytes then []
      else [enqueue_request llmLogModule llmLogFunc ?kwargs llmLogQueue])"
    using assms by (auto simp: newLLMLogSink_def EnqueueJob_def Let_def simp del: json_marshal.simps)
  have body: "map_of (ar_Body (enqueue_request m f k q)) ''kwargs'' = Some (JObj k)" for m f k q
    by (simp add: enqueue_request_def)
  have fields: "map_of ?kwargs ''model'' = Some (JStr (cl_Model c))" "map_of ?kwargs ''deployment'' = Some (JStr (cl_Deployment c))"
    "map_of ?kwargs ''user_id'' = Some (JStr userID)" "map_of ?kwargs ''entity_id'' = Some (JStr conversationID)"
    "map_of ?kwargs ''response_payload'' = Some (JObj (responsePayload c))"
    by (simp_all add: llm_log_kwargs_def)
  have response: "map_of (responsePayload c) ''content'' = Some (JStr (cl_ResponseContent c))"
    "map_of (responsePayload c) ''functions_list'' = Some (strings (map (\<lambda>t. tcf_Name (tc_Function t)) (cl_ToolCalls c)))"
    "map_of (responsePayload c) ''arguments_list'' = Some (strings (map (\<lambda>t. tcf_Arguments (tc_Function t)) (cl_ToolCalls c)))"
    "map_of (responsePayload c) ''tool_id_list'' = Some (strings (map tc_ID (cl_ToolCalls c)))"
    by (simp_all add: responsePayload_def toolCallNames_def toolCallArguments_def toolCallIDs_def Let_def)
  show ?thesis
  proof (cases "length (json_marshal (JObj ?kwargs)) > maxLLMLogPayloadBytes")
    case True
    then show ?thesis unfolding sink by (simp add: maxLLMLogPayloadBytes_def del: json_marshal.simps)
  next
    case False
    then have "length (json_marshal (JObj ?kwargs)) \<le> 200 * 1024"
      by (simp add: maxLLMLogPayloadBytes_def del: json_marshal.simps)
    then show ?thesis
      unfolding sink using False body fields response
      by (simp add: maxLLMLogPayloadBytes_def enqueued_size del: json_marshal.simps)
  qed
qed

definition wit_log :: call_log where
  "wit_log = \<lparr>cl_Model = ''m'', cl_ConfigKey = ''k'', cl_Deployment = ''D'', cl_Request = ([], [], JNull),
     cl_ResponseContent = ''hi'', cl_ToolCalls = [], cl_PromptMetadata = [],
     cl_Usage = \<lparr>us_PromptTokens = 1, us_CompletionTokens = 2, us_TotalTokens = 3\<rparr>, cl_TTFBMs = 0, cl_TotalMs = 0,
     cl_StatusCode = 200, cl_Completed = True, cl_Interrupted = False, cl_ErrorType = [], cl_ErrorMessage = [],
     cl_FinishReason = ''stop'', cl_UsingFallback = False, cl_SelectedGroup = ''g''\<rparr>"

definition wit_sink :: "call_log \<Rightarrow> api_request list" where
  "wit_sink = the (newLLMLogSink (Some (\<lambda>r. None)) (\<lambda>x. ''0'') ''sales'' ''u'' ''c'')"

lemma wit_sink_made: "newLLMLogSink (Some (\<lambda>r. None)) (\<lambda>x. ''0'') ''sales'' ''u'' ''c'' = Some wit_sink"
  by (simp add: wit_sink_def newLLMLogSink_def)

theorem llm_log_bounded_witness: "length (wit_sink wit_log) \<le> 1"
  using llm_log_bounded [OF wit_sink_made, of wit_log] by blast

end
