(* ===== verification/Bots.thy ===== *)
theory Bots
  imports Prompts LiveKitRoom LlmLog Idle Phonetic
begin

text \<open>
  The two bots (\<open>sales_call.go\<close>, \<open>followup_call.go\<close>): the plan of a call, made from Redis and the prompts
  alone, and \<open>BuildTask\<close>, which makes the task, joins the room and assembles the processors. A plan has
  the fields of both kinds of call; the ones a kind lacks are empty.
\<close>

section \<open>The plan\<close>

record bot_task_request =
  btr_ConversationID :: string
  btr_RoomURL :: string
  btr_RoomName :: string
  btr_RoomToken :: string

text \<open>Everything outside the program that building a task meets.\<close>

record 'r build_world =
  bw_doc :: "'r doc_world"
  bw_shownNow :: string
  bw_now :: gotime
  bw_getenv :: "string \<Rightarrow> string"
  bw_hasRedis :: bool
  bw_hasAPI :: bool
  bw_decode :: "string \<Rightarrow> conversation_data option"
  bw_net :: network
  bw_redis :: redis_server
  bw_parse_time :: "string \<Rightarrow> gotime option"
  bw_unix_of :: "string \<Rightarrow> gotime"
  bw_s3 :: "s3_get option"
  bw_dictionary :: "(string \<times> string) list"
  bw_random :: nat
  bw_host_of :: "string \<Rightarrow> string option"
  bw_codec :: room_codec
  bw_opus :: opus_world
  bw_daily :: "nat \<Rightarrow> join_script"
  bw_livekit :: "nat \<Rightarrow> lk_script"
  bw_ctxErr :: "nat \<Rightarrow> string option"
  bw_guidance :: "string \<Rightarrow> string + string"

datatype plan_error =
    StartupFailed startup_error
  | PromptFailed prompt_error
  | ToolsInvalid string

record bot_plan =
  bp_Startup :: call_startup
  bp_InitialMessages :: "message list"
  bp_MaxTalkTime :: "duration option"
  bp_PhoneticDict :: "(string \<times> string) list"
  bp_PromptKey :: string
  bp_PromptMetadata :: "(string \<times> json) list"
  bp_ModelGroup :: string
  bp_Dynamic :: bool
  bp_Tools :: "tool_definition list"

definition resume_message :: "'r build_world \<Rightarrow> call_startup \<Rightarrow> string" where
  "resume_message w su = buildResumeSystemMessage (bw_parse_time w) (bw_unix_of w) (Some (su_Data su)) (bw_now w)"

definition sales_plan :: "'r build_world \<Rightarrow> string \<Rightarrow> 'r document_store option
    \<Rightarrow> 'r document_store option \<times> (plan_error + bot_plan)" where
  "sales_plan w conversationID store =
     (case collectCallStartup (bw_decode w) (bw_net w) (bw_redis w) (bw_hasRedis w) (bw_hasAPI w) conversationID SalesCallBotType of
        Inl e \<Rightarrow> (store, Inl (StartupFailed e))
      | Inr su \<Rightarrow>
          (case loadSalesPrompt (bw_doc w) (bw_shownNow w) store (su_Data su) of
             (store1, Inl e) \<Rightarrow> (store1, Inl (PromptFailed e))
           | (store1, Inr prompt) \<Rightarrow>
               (store1, Inr
                 \<lparr>bp_Startup = su,
                  bp_InitialMessages = buildInitialMessages (lp_Text prompt) (cd_Chunks (su_Data su)) (resume_message w su),
                  bp_MaxTalkTime = Some (salesTalkTimeLimit (up_RemainingTalktimeSeconds (cd_UserProfile (su_Data su)))),
                  bp_PhoneticDict = bw_dictionary w, bp_PromptKey = PromptKey (lp_Name prompt) (lp_Version prompt),
                  bp_PromptMetadata = [], bp_ModelGroup = salesModelGroup, bp_Dynamic = False, bp_Tools = []\<rparr>)))"

definition followup_metadata :: "conversation_data \<Rightarrow> loaded_prompt \<Rightarrow> (string \<times> json) list" where
  "followup_metadata d prompt =
     [(''system_prompt_name'', JStr (lp_Name prompt)), (''system_prompt_version'', JNum (int_str (lp_Version prompt))),
      (''system_prompt_variables'', JObj (lp_Variables prompt))]
     @ (if lp_Dynamic prompt
        then [(''call_flow_key'', JStr (cr_CallFlowKey (cd_Conversation d))),
              (''compiled_call_flow_s3_key'', JStr (cr_CompiledCallFlowS3Key (cd_Conversation d)))]
        else [])"

definition followup_group :: "loaded_prompt \<Rightarrow> string" where
  "followup_group prompt =
     (if lp_Dynamic prompt then followUpDynamicModelGroup
      else if lp_Name prompt = followUpPromptInvestorDemo then followUpPhoneOverrideModelGroup
      else followUpModelGroup)"

definition followup_plan :: "'r build_world \<Rightarrow> string \<Rightarrow> 'r document_store option
    \<Rightarrow> 'r document_store option \<times> (plan_error + bot_plan)" where
  "followup_plan w conversationID store =
     (case collectCallStartup (bw_decode w) (bw_net w) (bw_redis w) (bw_hasRedis w) (bw_hasAPI w) conversationID FollowUpBotType of
        Inl e \<Rightarrow> (store, Inl (StartupFailed e))
      | Inr su \<Rightarrow>
          (case loadFollowUpPrompt (bw_doc w) (bw_shownNow w) (bw_s3 w) store (su_Data su) of
             (store1, Inl e) \<Rightarrow> (store1, Inl (PromptFailed e))
           | (store1, Inr prompt) \<Rightarrow>
               (case if lp_Dynamic prompt then buildDynamicFollowUpToolDefinitions (lp_Config prompt) else Inr [] of
                  Inl e \<Rightarrow> (store1, Inl (ToolsInvalid e))
                | Inr tools \<Rightarrow>
                    (store1, Inr
                      \<lparr>bp_Startup = su,
                       bp_InitialMessages = buildInitialMessages (lp_Text prompt) (cd_Chunks (su_Data su)) (resume_message w su),
                       bp_MaxTalkTime = None,
                       bp_PhoneticDict = bw_dictionary w, bp_PromptKey = PromptKey (lp_Name prompt) (lp_Version prompt),
                       bp_PromptMetadata = followup_metadata (su_Data su) prompt, bp_ModelGroup = followup_group prompt,
                       bp_Dynamic = lp_Dynamic prompt, bp_Tools = tools\<rparr>))))"

definition plan :: "bot_kind \<Rightarrow> 'r build_world \<Rightarrow> string \<Rightarrow> 'r document_store option
    \<Rightarrow> 'r document_store option \<times> (plan_error + bot_plan)" where
  "plan kind = (case kind of SalesCallBot \<Rightarrow> sales_plan | FollowUpBot \<Rightarrow> followup_plan)"

section \<open>The tools of a dynamic follow-up\<close>

definition get_guidance_handler :: "(string \<Rightarrow> string + string) \<Rightarrow> tool_handler" where
  "get_guidance_handler guidance req =
     map_sum id (\<lambda>txt. (JStr txt, True)) (guidance (string_at (tq_Arguments req) ''situation''))"

text \<open>\<open>end_call\<close> asks the task to end and tells the model so.\<close>

definition end_call_handler :: tool_handler where
  "end_call_handler req = Inr (JObj [(''status'', JStr ''call_ending'')], False)"

definition end_call_effect :: "call_op list" where
  "end_call_effect = [CallEnd EndReasonUnspecified]"

definition registerDynamicFollowUpTools :: "(string \<Rightarrow> string + string) \<Rightarrow> tool_definition list \<Rightarrow> llm \<Rightarrow> llm" where
  "registerDynamicFollowUpTools guidance tools p =
     foldl (\<lambda>p def.
       if td_Name def = ''get_guidance''
       then RegisterTool p def (Some (get_guidance_handler guidance)) \<lparr>to_CancelOnInterruption = False, to_Timeout = 30 * second\<rparr>
       else if td_Name def = ''end_call''
       then RegisterTool p def (Some end_call_handler) \<lparr>to_CancelOnInterruption = False, to_Timeout = 5 * second\<rparr>
       else p) p tools"

section \<open>Guidance\<close>

datatype guidance_error =
    NoStoreForGuidance
  | GuidancePromptFailed get_document_error
  | GuidanceRouterFailed string
  | GuidanceStreamFailed string
  | EmptyGuidance

definition guidance_metadata :: "string \<Rightarrow> (string \<times> json) list" where
  "guidance_metadata situation =
     [(''tool_name'', JStr ''get_guidance''), (''system_prompt_name'', JStr followUpGetGuidancePrompt),
      (''system_prompt_variables'', JObj [(''situation'', JStr situation)]),
      (''user_prompt_name'', JStr ''raw_situation''), (''user_prompt_variables'', JObj [(''situation'', JStr situation)])]"

definition guidance_situation :: "string \<Rightarrow> string" where
  "guidance_situation situation = (if trim_space situation = [] then ''No situation provided.'' else situation)"

text \<open>The run of the stream, if there is one, and what the tool returns.\<close>

definition getFollowUpGuidance :: "'r doc_world \<Rightarrow> (string \<Rightarrow> string) \<Rightarrow> bool \<Rightarrow> bool \<Rightarrow> stream_world \<Rightarrow> redis_server
    \<Rightarrow> 'r document_store option \<Rightarrow> string \<Rightarrow> 'r document_store option \<times> stream_run option \<times> (guidance_error + string)" where
  "getFollowUpGuidance w getenv hasRedis hasAPI sw s store situation0 =
     (let situation = guidance_situation situation0
      in case store of
           None \<Rightarrow> (None, None, Inl NoStoreForGuidance)
         | Some st \<Rightarrow>
             (case GetDocument (dw_render w) (dw_decode w) (latest_call w followUpGetGuidancePrompt) [(''situation'', JStr situation)] st of
                (st1, Inl e) \<Rightarrow> (Some st1, None, Inl (GuidancePromptFailed e))
              | (st1, Inr (systemPrompt, version)) \<Rightarrow>
                  (case NewRouter getenv hasRedis followUpGuidanceModelGroup ''us'' hasAPI (guidance_metadata situation) of
                     Inl e \<Rightarrow> (Some st1, None, Inl (GuidanceRouterFailed e))
                   | Inr r \<Rightarrow>
                       (let run = Stream sw r s ([text_message ''system'' systemPrompt, text_message ''user'' situation], [], JNull);
                            txt = concat (map snd (sr_tokens run))
                        in (Some st1, Some run,
                            case sr_err run of
                              Some e \<Rightarrow> Inl (GuidanceStreamFailed e)
                            | None \<Rightarrow> if trim_space txt = [] then Inl EmptyGuidance else Inr txt)))))"

section \<open>Building a task\<close>

definition isDailyRoomURL :: "(string \<Rightarrow> string option) \<Rightarrow> string \<Rightarrow> bool" where
  "isDailyRoomURL host_of roomURL =
     (case host_of roomURL of None \<Rightarrow> False | Some host \<Rightarrow> contains (to_lower host) ''daily.co'')"

text \<open>The join of either transport; what a Daily room lets out is shared by both.\<close>

definition join_room :: "'r build_world \<Rightarrow> bot_task_request \<Rightarrow> lk_effect list \<times> (string + daily_room + livekit_room)" where
  "join_room w req =
     (if isDailyRoomURL (bw_host_of w) (btr_RoomURL req)
      then map_prod (map Shared) (map_sum id Inl) (JoinDailyRoom (bw_codec w) (btr_RoomURL req) (bw_daily w) (bw_ctxErr w))
      else map_prod id (map_sum id Inr)
             (JoinLiveKitRoom (bw_opus w) (bw_codec w) (btr_RoomURL req) (btr_RoomName req) (btr_RoomToken req)
               (bw_livekit w) (bw_ctxErr w)))"

datatype build_error =
    PlanFailed plan_error
  | TaskRefused string
  | JoinFailed string
  | ClientFailed string

datatype processor_kind =
    PSource | PAudioSource | PStt | PUserIdle | PContextAggregator | PTalkTime | PLlm | PTts | PPlayback | PSink

record built_task =
  bd_task :: pipeline_task
  bd_room :: "daily_room + livekit_room"
  bd_plan :: bot_plan
  bd_queued :: "(frame \<times> direction) list"
  bd_contextAggregator :: ctx_agg
  bd_talkTime :: "talk_time option"
  bd_llm :: llm
  bd_router :: router
  bd_filter :: phonetic_filter
  bd_pipeline :: "processor_kind list"

text \<open>
  A request to end the task before \<open>SetPipeline\<close> comes to a source that does not exist yet: the process
  dies of a nil dereference.
\<close>

datatype build_outcome =
    Built built_task
  | BuildFailed build_error "pipeline_task option"
  | Crashed

definition ends_early :: "lk_effect list \<Rightarrow> string list" where
  "ends_early es = List.map_filter (\<lambda>e. case e of Shared (Core (EndTask r)) \<Rightarrow> Some r | _ \<Rightarrow> None) es"

definition queued_on_source :: "lk_effect list \<Rightarrow> (frame \<times> direction) list" where
  "queued_on_source es = List.map_filter (\<lambda>e. case e of Shared (QueueOnSource f d) \<Rightarrow> Some (f, d) | _ \<Rightarrow> None) es"

definition callback_kinds :: "event_kind list" where
  "callback_kinds = [OnBotJoined, OnUserJoined, OnUserFirstSpeech, OnBotFirstSpeech, OnFirstUserAudio,
     OnUserTurnCommitted, OnAssistantTurnCommitted, OnToolResultCommitted]"

definition task_config_of :: "bot_plan \<Rightarrow> task_config" where
  "task_config_of pl =
     \<lparr>tcfg_Logger = True, tcfg_SessionID = su_ConversationID (bp_Startup pl), tcfg_handlers = callback_kinds,
      tcfg_OnCallEnded = True, tcfg_OnCleanup = False\<rparr>"

definition pipeline_of :: "bot_kind \<Rightarrow> processor_kind list" where
  "pipeline_of kind =
     [PSource, PAudioSource, PStt, PUserIdle, PContextAggregator]
     @ (case kind of SalesCallBot \<Rightarrow> [PTalkTime] | FollowUpBot \<Rightarrow> [])
     @ [PLlm, PTts, PPlayback, PSink]"

definition assemble :: "bot_kind \<Rightarrow> 'r build_world \<Rightarrow> bot_plan \<Rightarrow> pipeline_task \<Rightarrow> daily_room + livekit_room
    \<Rightarrow> (frame \<times> direction) list \<Rightarrow> router \<Rightarrow> built_task" where
  "assemble kind w pl t room queued r =
     \<lparr>bd_task = t, bd_room = room, bd_plan = pl, bd_queued = queued,
      bd_contextAggregator = NewContextAggregator (Some (bp_InitialMessages pl)) (bp_PromptKey pl),
      bd_talkTime = map_option NewTalkTimeMonitoringProcessorWithMaxTalkTime (bp_MaxTalkTime pl),
      bd_llm = (if bp_Dynamic pl then registerDynamicFollowUpTools (bw_guidance w) (bp_Tools pl) NewLLMProcessorWithClient
                else NewLLMProcessorWithClient),
      bd_router = r, bd_filter = newPhoneticFilter (bp_PhoneticDict pl), bd_pipeline = pipeline_of kind\<rparr>"

definition new_llm_client :: "bot_kind \<Rightarrow> 'r build_world \<Rightarrow> bot_plan \<Rightarrow> string + router" where
  "new_llm_client kind w pl =
     map_sum (\<lambda>e. case kind of SalesCallBot \<Rightarrow> ''disha: create sales LLM router: '' @ e | FollowUpBot \<Rightarrow> e) id
       (NewRouter (bw_getenv w) (bw_hasRedis w) (bp_ModelGroup pl) ''us'' (bw_hasAPI w) (bp_PromptMetadata pl))"

text \<open>The outcome, and everything the join has let out.\<close>

definition BuildTask :: "bot_kind \<Rightarrow> 'r build_world \<Rightarrow> bot_task_request \<Rightarrow> 'r document_store option
    \<Rightarrow> 'r document_store option \<times> lk_effect list \<times> build_outcome" where
  "BuildTask kind w req store =
     (case plan kind w (btr_ConversationID req) store of
        (store1, Inl e) \<Rightarrow> (store1, [], BuildFailed (PlanFailed e) None)
      | (store1, Inr pl) \<Rightarrow>
          (case NewPipelineTask (bw_random w) (task_config_of pl) of
             Inl e \<Rightarrow> (store1, [], BuildFailed (TaskRefused e) None)
           | Inr t \<Rightarrow>
               (case join_room w req of
                  (es, joined) \<Rightarrow>
                    (store1, es,
                     if ends_early es \<noteq> [] then Crashed
                     else let t1 = settle_all (bw_now w) (shared es) t
                          in case joined of
                               Inl e \<Rightarrow> BuildFailed (JoinFailed e) (Some (fst (Abort t1)))
                             | Inr room \<Rightarrow>
                                 let t2 = t1\<lparr>pt_Room := True, pt_UIEvents := SetRoom True (pt_UIEvents t1)\<rparr>
                                 in case new_llm_client kind w pl of
                                      Inl e \<Rightarrow> BuildFailed (ClientFailed e) (Some (fst (Abort t2)))
                                    | Inr r \<Rightarrow> Built (assemble kind w pl t2 room (queued_on_source es) r)))))"

definition followup_BuildTask :: "'r build_world \<Rightarrow> bot_task_request \<Rightarrow> 'r document_store option
    \<Rightarrow> 'r document_store option \<times> lk_effect list \<times> build_outcome" where
  "followup_BuildTask = BuildTask FollowUpBot"

definition NewBotTask :: "bot_kind \<Rightarrow> 'r build_world \<Rightarrow> bot_task_request \<Rightarrow> 'r document_store option
    \<Rightarrow> 'r document_store option \<times> lk_effect list \<times> build_outcome" where
  "NewBotTask kind w req store =
     (case kind of SalesCallBot \<Rightarrow> BuildTask SalesCallBot w req store | FollowUpBot \<Rightarrow> followup_BuildTask w req store)"

lemma NewBotTask_BuildTask [simp]: "NewBotTask kind = BuildTask kind"
  by (intro ext) (cases kind; simp add: NewBotTask_def followup_BuildTask_def)

section \<open>A build leaves nothing behind\<close>

lemma sales_plan_ok:
  "sales_plan w cid store = (store1, Inr pl) \<Longrightarrow> bw_hasRedis w \<and> bp_ModelGroup pl = salesModelGroup \<and> \<not> bp_Dynamic pl"
  by (auto simp: sales_plan_def collectCallStartup_def split: sum.splits prod.splits if_splits)

lemma followup_plan_ok:
  "followup_plan w cid store = (store1, Inr pl) \<Longrightarrow> bw_hasRedis w
     \<and> bp_ModelGroup pl \<in> {followUpDynamicModelGroup, followUpPhoneOverrideModelGroup, followUpModelGroup}
     \<and> (bp_Dynamic pl \<longrightarrow> (\<exists>config. buildDynamicFollowUpToolDefinitions config = Inr (bp_Tools pl)))"
  by (auto simp: followup_plan_def followup_group_def collectCallStartup_def split: sum.splits prod.splits if_splits)

lemma bot_groups: "list_all (\<lambda>g. g \<noteq> [] \<and> map_of modelGroups g \<noteq> None)
    [salesModelGroup, followUpDynamicModelGroup, followUpPhoneOverrideModelGroup, followUpModelGroup, followUpGuidanceModelGroup]"
  by code_simp

lemma client_never_fails:
  assumes "plan kind w cid store = (store1, Inr pl)"
  obtains r where "new_llm_client kind w pl = Inr r" and "ro_Group r = bp_ModelGroup pl" and "map_of modelGroups (ro_Group r) \<noteq> None"
proof -
  have "bw_hasRedis w \<and> bp_ModelGroup pl \<noteq> [] \<and> map_of modelGroups (bp_ModelGroup pl) \<noteq> None"
    using assms sales_plan_ok [of w cid store store1 pl] followup_plan_ok [of w cid store store1 pl] bot_groups
    by (cases kind) (auto simp: plan_def)
  then show thesis using that by (simp add: new_llm_client_def NewRouter_def)
qed

text \<open>The rooms that a join has opened and not closed.\<close>

definition open_rooms :: "bool \<Rightarrow> lk_effect list \<Rightarrow> int" where
  "open_rooms daily es =
     (if daily then int (count_list es (Shared BridgeStarted)) - int (count_list es (Shared LeaveSent))
      else open_connections es)"

lemma count_Shared [simp]: "count_list (map Shared es) (Shared x) = count_list es x"
  by (induction es) simp_all

lemma open_rooms_Nil [simp]: "open_rooms daily [] = 0"
  by (simp add: open_rooms_def)

lemma join_room_exact:
  "open_rooms (isDailyRoomURL (bw_host_of w) (btr_RoomURL req)) (fst (join_room w req)) =
     (case snd (join_room w req) of Inl e \<Rightarrow> 0 | Inr room \<Rightarrow> 1)"
proof (cases "isDailyRoomURL (bw_host_of w) (btr_RoomURL req)")
  case True
  let ?url = "trim_space (btr_RoomURL req)"
  note ok = daily_attempts_ok [of 3 "bw_codec w" ?url "bw_daily w" "bw_ctxErr w" 1]
  show ?thesis
    using ok by (auto simp: True join_room_def open_rooms_def JoinDailyRoom_def dailyJoinRetries_def Let_def attempts_ok_def
        split: sum.splits)
next
  case False
  note ok = livekit_attempts_ok [of 3 "bw_opus w" "bw_codec w" "trim_space (btr_RoomName req)" "bw_livekit w" "bw_ctxErr w" 1]
  show ?thesis
    using ok by (auto simp: False join_room_def open_rooms_def JoinLiveKitRoom_def liveKitJoinRetries_def joined_ok_def
        split: sum.splits)
qed

lemma settle_ctx [simp]: "pt_ctxDone (settle_all now es t) = pt_ctxDone t"
proof -
  have inner: "pt_ctxDone (fold (\<lambda>e t. case e of Fire ev \<Rightarrow> t\<lparr>pt_callEvents := fire ev (pt_callEvents t)\<rparr> | _ \<Rightarrow> t) es t) = pt_ctxDone t"
    for es t by (induction es arbitrary: t) (auto split: effect.split)
  have "pt_ctxDone (settle now e t) = pt_ctxDone t" for e t
    by (cases "(now, e, t)" rule: settle.cases) (auto simp: inner split: prod.split)
  then show ?thesis by (induction es arbitrary: t) (simp_all add: settle_all_def)
qed

lemma new_task: obtains t where "NewPipelineTask random (task_config_of pl) = Inr t" and "\<not> pt_ctxDone t"
  by (simp add: NewPipelineTask_def task_config_of_def)

lemma pipeline_ends [simp]: "hd (pipeline_of kind) = PSource" "last (pipeline_of kind) = PSink" "distinct (pipeline_of kind)"
  by (cases kind; simp add: pipeline_of_def)+

lemma Abort_ctx [simp]: "pt_ctxDone (fst (Abort t))"
  by (simp add: Abort_def split_beta Let_def)

lemma build_leaves_nothing_main:
  "case BuildTask kind w req store of (store1, es, outcome) \<Rightarrow>
     (case outcome of
        Crashed \<Rightarrow> ends_early es \<noteq> []
      | BuildFailed e aborted \<Rightarrow>
          open_rooms (isDailyRoomURL (bw_host_of w) (btr_RoomURL req)) es = 0
          \<and> e \<in> range PlanFailed \<union> range JoinFailed
          \<and> (case aborted of None \<Rightarrow> es = [] | Some t \<Rightarrow> pt_ctxDone t)
      | Built b \<Rightarrow>
          ends_early es = []
          \<and> open_rooms (isDailyRoomURL (bw_host_of w) (btr_RoomURL req)) es = 1
          \<and> \<not> pt_ctxDone (bd_task b) \<and> pt_Room (bd_task b)
          \<and> map_of modelGroups (ro_Group (bd_router b)) \<noteq> None
          \<and> hd (bd_pipeline b) = PSource \<and> last (bd_pipeline b) = PSink \<and> distinct (bd_pipeline b))"
proof -
  obtain store1 planned where p: "plan kind w (btr_ConversationID req) store = (store1, planned)" by (meson surj_pair)
  show ?thesis
  proof (cases planned)
    case (Inl e)
    then show ?thesis by (simp add: BuildTask_def p)
  next
    case (Inr pl)
    obtain t where t: "NewPipelineTask (bw_random w) (task_config_of pl) = Inr t" "\<not> pt_ctxDone t" by (rule new_task)
    obtain es joined where j: "join_room w req = (es, joined)" by (meson surj_pair)
    obtain r where r: "new_llm_client kind w pl = Inr r" "map_of modelGroups (ro_Group r) \<noteq> None"
      using client_never_fails [OF p [unfolded Inr]] .
    have rooms: "open_rooms (isDailyRoomURL (bw_host_of w) (btr_RoomURL req)) es = (case joined of Inl e \<Rightarrow> 0 | Inr room \<Rightarrow> 1)"
      using join_room_exact [of w req] by (simp add: j)
    show ?thesis
      using rooms t r by (cases joined) (simp_all add: BuildTask_def p Inr j assemble_def Let_def)
  qed
qed


section \<open>The tools of a dynamic follow-up can be called\<close>

text \<open>A registered tool is one of the two, with its handler, and is not cancelled by an interruption.\<close>

definition dynamic_tool :: "(string \<Rightarrow> string + string) \<Rightarrow> string \<Rightarrow> registered_tool \<Rightarrow> bool" where
  "dynamic_tool guidance n t \<longleftrightarrow>
     (n = ''get_guidance'' \<and> rt_handler t = Some (get_guidance_handler guidance)
      \<or> n = ''end_call'' \<and> rt_handler t = Some end_call_handler)
     \<and> \<not> to_CancelOnInterruption (rt_options t)"

definition dynamic_registry :: "(string \<Rightarrow> string + string) \<Rightarrow> llm \<Rightarrow> bool" where
  "dynamic_registry guidance p \<longleftrightarrow> registry_inv p
     \<and> (\<forall>n t. map_of (lp_toolMap p) n = Some t \<longrightarrow> dynamic_tool guidance n t)"

lemma RegisterTool_map:
  assumes "td_Name d \<noteq> []" and "trim_space (td_Name d) = td_Name d" and "td_Type d = ''function''"
  shows "map_of (lp_toolMap (RegisterTool p d h opts)) =
    (map_of (lp_toolMap p))(td_Name d \<mapsto> \<lparr>rt_definition = d, rt_handler = h, rt_options = opts\<rparr>)"
proof -
  have "map_of (filter (\<lambda>kv. fst kv \<noteq> k) m) j = (if j = k then None else map_of m j)" for k j and m :: "(string \<times> registered_tool) list"
    by (induction m) auto
  then show ?thesis using assms by (auto simp: RegisterTool_def Let_def fun_eq_iff)
qed

lemma register_dynamic:
  assumes "dynamic_registry guidance p" and "offered def" and "dynamic_tool guidance (td_Name def) \<lparr>rt_definition = def, rt_handler = h, rt_options = opts\<rparr>"
  shows "dynamic_registry guidance (RegisterTool p def h opts)"
    and "dom (map_of (lp_toolMap (RegisterTool p def h opts))) = insert (td_Name def) (dom (map_of (lp_toolMap p)))"
proof -
  have d: "td_Name def \<noteq> []" "trim_space (td_Name def) = td_Name def" "td_Type def = ''function''"
    using assms(2) by (simp_all add: offered_def)
  show "dynamic_registry guidance (RegisterTool p def h opts)"
    using assms(1,3) register_inv [of p def h opts] d(2)
    by (auto simp: dynamic_registry_def RegisterTool_map [OF d] split: if_splits)
  show "dom (map_of (lp_toolMap (RegisterTool p def h opts))) = insert (td_Name def) (dom (map_of (lp_toolMap p)))"
    by (auto simp: RegisterTool_map [OF d])
qed

lemma register_all_dynamic:
  assumes "list_all offered tools" and "dynamic_registry guidance p"
  shows "dynamic_registry guidance (registerDynamicFollowUpTools guidance tools p)
    \<and> dom (map_of (lp_toolMap (registerDynamicFollowUpTools guidance tools p))) =
        dom (map_of (lp_toolMap p)) \<union> (td_Name ` set tools \<inter> {''get_guidance'', ''end_call''})"
  using assms
proof (induction tools arbitrary: p)
  case Nil
  then show ?case by (simp add: registerDynamicFollowUpTools_def)
next
  case (Cons def tools)
  let ?g = "RegisterTool p def (Some (get_guidance_handler guidance)) \<lparr>to_CancelOnInterruption = False, to_Timeout = 30 * second\<rparr>"
  let ?e = "RegisterTool p def (Some end_call_handler) \<lparr>to_CancelOnInterruption = False, to_Timeout = 5 * second\<rparr>"
  consider "td_Name def = ''get_guidance''" | "td_Name def = ''end_call''"
    | "td_Name def \<notin> {''get_guidance'', ''end_call''}" by blast
  then show ?case
  proof cases
    case 1
    note reg = register_dynamic [of guidance p def "Some (get_guidance_handler guidance)"
        "\<lparr>to_CancelOnInterruption = False, to_Timeout = 30 * second\<rparr>"]
    have "registerDynamicFollowUpTools guidance (def # tools) p = registerDynamicFollowUpTools guidance tools ?g"
      using 1 by (simp add: registerDynamicFollowUpTools_def)
    then show ?thesis using Cons.IH [of ?g] Cons.prems reg 1 by (auto simp: dynamic_tool_def)
  next
    case 2
    note reg = register_dynamic [of guidance p def "Some end_call_handler"
        "\<lparr>to_CancelOnInterruption = False, to_Timeout = 5 * second\<rparr>"]
    have "registerDynamicFollowUpTools guidance (def # tools) p = registerDynamicFollowUpTools guidance tools ?e"
      using 2 by (simp add: registerDynamicFollowUpTools_def)
    then show ?thesis using Cons.IH [of ?e] Cons.prems reg 2 by (auto simp: dynamic_tool_def)
  next
    case 3
    then have "registerDynamicFollowUpTools guidance (def # tools) p = registerDynamicFollowUpTools guidance tools p"
      by (simp add: registerDynamicFollowUpTools_def)
    then show ?thesis using Cons.IH [of p] Cons.prems 3 by auto
  qed
qed

lemma registry_names:
  assumes "registry_inv p"
  shows "td_Name ` set (lp_tools p) = dom (map_of (lp_toolMap p))"
proof -
  have offered: "d \<in> set (lp_tools p) \<longleftrightarrow> map_option rt_definition (map_of (lp_toolMap p) (td_Name d)) = Some d" for d
    using assms unfolding registry_inv_def by blast
  have named: "map_of (lp_toolMap p) n = Some t \<Longrightarrow> td_Name (rt_definition t) = n" for n t
    using assms unfolding registry_inv_def by blast
  show ?thesis
  proof (intro set_eqI iffI)
    fix n assume "n \<in> td_Name ` set (lp_tools p)"
    then obtain d where "n = td_Name d" "d \<in> set (lp_tools p)" by blast
    then have "map_option rt_definition (map_of (lp_toolMap p) n) = Some d" using offered by simp
    then show "n \<in> dom (map_of (lp_toolMap p))" by (cases "map_of (lp_toolMap p) n") auto
  next
    fix n assume "n \<in> dom (map_of (lp_toolMap p))"
    then obtain t where t: "map_of (lp_toolMap p) n = Some t" by blast
    then have "rt_definition t \<in> set (lp_tools p)" unfolding offered named [OF t] by simp
    then show "n \<in> td_Name ` set (lp_tools p)" using named [OF t] by blast
  qed
qed

text \<open>
  A dynamic follow-up can guide and end the call. If the config of its prompt is accepted, the model
  is offered exactly the two tools \<open>get_guidance\<close> and \<open>end_call\<close>, each once, whatever else the config
  lists; a call by either name finds the handler of that tool, which an interruption does not cancel, and
  \<open>end_call\<close> makes the model say nothing more.
\<close>

theorem dynamic_tools_callable:
  assumes "buildDynamicFollowUpToolDefinitions config = Inr tools"
  shows "let p = registerDynamicFollowUpTools guidance tools NewLLMProcessorWithClient
    in td_Name ` set (lp_tools p) = {''get_guidance'', ''end_call''} \<and> distinct (map td_Name (lp_tools p))
     \<and> (\<exists>g e. map_of (lp_toolMap p) ''get_guidance'' = Some g \<and> rt_handler g = Some (get_guidance_handler guidance)
          \<and> \<not> to_CancelOnInterruption (rt_options g)
          \<and> map_of (lp_toolMap p) ''end_call'' = Some e \<and> rt_handler e = Some end_call_handler
          \<and> \<not> to_CancelOnInterruption (rt_options e))
     \<and> \<not> tr_runLLM (executeOneToolCall call end_call_handler args)"
proof -
  let ?p = "registerDynamicFollowUpTools guidance tools NewLLMProcessorWithClient"
  note tools = buildDynamic_offered [OF assms]
  have "dynamic_registry guidance NewLLMProcessorWithClient"
    by (simp add: dynamic_registry_def registry_inv_def NewLLMProcessorWithClient_def)
  from register_all_dynamic [OF tools(1) this] have reg: "dynamic_registry guidance ?p"
    and dom: "dom (map_of (lp_toolMap ?p)) = {''get_guidance'', ''end_call''}"
    using tools(2,3) by (auto simp: NewLLMProcessorWithClient_def)
  have inv: "registry_inv ?p" using reg by (simp add: dynamic_registry_def)
  note names = registry_names [OF inv]
  have "''get_guidance'' \<in> dom (map_of (lp_toolMap ?p))" "''end_call'' \<in> dom (map_of (lp_toolMap ?p))"
    by (simp_all add: dom)
  then obtain g e where ge: "map_of (lp_toolMap ?p) ''get_guidance'' = Some g" "map_of (lp_toolMap ?p) ''end_call'' = Some e"
    unfolding dom_def mem_Collect_eq by (metis option.exhaust)
  then have "dynamic_tool guidance ''get_guidance'' g" "dynamic_tool guidance ''end_call'' e"
    using reg by (simp_all add: dynamic_registry_def)
  moreover have "\<not> tr_runLLM (executeOneToolCall call end_call_handler args)"
    by (auto simp: executeOneToolCall_def end_call_handler_def Let_def split: sum.split)
  ultimately show ?thesis
    using names dom inv ge unfolding Let_def by (simp add: dynamic_tool_def registry_inv_def)
qed

text \<open>A config with a third tool, which is dropped.\<close>

definition wit_tool :: "string \<Rightarrow> json" where
  "wit_tool n = JObj [(''type'', JStr ''function''), (''function'', JObj [(''name'', JStr n)])]"

definition wit_tools :: "(string \<times> json) list" where
  "wit_tools = [(''tools'', JArr [wit_tool ''end_call'', wit_tool ''book'', wit_tool ''get_guidance''])]"

definition wit_definition :: "string \<Rightarrow> tool_definition" where
  "wit_definition n = \<lparr>td_Type = ''function'', td_Name = n, td_Description = [],
     td_Parameters = [(''type'', JStr ''object''), (''properties'', JObj []), (''required'', JNull)], td_Strict = None\<rparr>"

lemma wit_tools_accepted: "buildDynamicFollowUpToolDefinitions wit_tools =
    Inr [wit_definition ''end_call'', wit_definition ''book'', wit_definition ''get_guidance'']"
  by code_simp

theorem dynamic_tools_callable_witness:
  "''book'' \<notin> td_Name ` set (lp_tools (registerDynamicFollowUpTools (\<lambda>_. Inl ''guidance model unavailable'')
     [wit_definition ''end_call'', wit_definition ''book'', wit_definition ''get_guidance''] NewLLMProcessorWithClient))"
  using conjunct1 [OF dynamic_tools_callable [OF wit_tools_accepted, unfolded Let_def],
      of "\<lambda>_. Inl ''guidance model unavailable''"] by simp

section \<open>Guidance is an answer or an error\<close>

lemma guidance_router: "NewRouter getenv hasRedis followUpGuidanceModelGroup rgn sink meta = Inl e \<Longrightarrow> \<not> hasRedis"
  using bot_groups by (auto simp: NewRouter_def)

text \<open>
  Guidance is never silent. What \<open>get_guidance\<close> returns is the whole text of a completed stream and
  not blank, with the situation rendered into the system prompt; everything else is an error, and the
  client of the model can always be made when Redis is there.
\<close>

theorem guidance_never_silent:
  "case getFollowUpGuidance w getenv hasRedis hasAPI sw s store situation of (store1, run, res) \<Rightarrow>
     (case res of
        Inr txt \<Rightarrow> trim_space txt \<noteq> []
          \<and> (\<exists>r. run = Some r \<and> sr_err r = None \<and> txt = concat (map snd (sr_tokens r)))
          \<and> (\<exists>st prompt v. store = Some st
               \<and> snd (GetDocument (dw_render w) (dw_decode w) (latest_call w followUpGetGuidancePrompt)
                    [(''situation'', JStr (if trim_space situation = [] then ''No situation provided.'' else situation))] st)
                 = Inr (prompt, v))
      | Inl (GuidanceRouterFailed e) \<Rightarrow> \<not> hasRedis
      | Inl e \<Rightarrow> (case run of None \<Rightarrow> True | Some r \<Rightarrow> sr_err r \<noteq> None \<or> trim_space (concat (map snd (sr_tokens r))) = []))"
proof (cases store)
  case None
  then show ?thesis by (simp add: getFollowUpGuidance_def Let_def)
next
  case (Some st)
  let ?q = "guidance_situation situation"
  obtain st1 doc where doc: "GetDocument (dw_render w) (dw_decode w) (latest_call w followUpGetGuidancePrompt)
      [(''situation'', JStr ?q)] st = (st1, doc)" by (meson surj_pair)
  note q = guidance_situation_def [of situation, symmetric]
  note step = getFollowUpGuidance_def [of w getenv hasRedis hasAPI sw s "Some st" situation] Some doc
  show ?thesis
  proof (cases doc)
    case (Inl e)
    then show ?thesis by (simp add: step Let_def)
  next
    case (Inr d)
    obtain sp v where d: "d = (sp, v)" by (cases d)
    show ?thesis
    proof (cases "NewRouter getenv hasRedis followUpGuidanceModelGroup ''us'' hasAPI (guidance_metadata ?q)")
      case err: (Inl e)
      then have no: "\<not> hasRedis" using guidance_router by blast
      have "getFollowUpGuidance w getenv hasRedis hasAPI sw s (Some st) situation = (Some st1, None, Inl (GuidanceRouterFailed e))"
        by (simp add: step Inr d err Let_def)
      then show ?thesis unfolding Some using no by simp
    next
      case (Inr r)
      define run where "run = Stream sw r s ([text_message ''system'' sp, text_message ''user'' ?q], [], JNull)"
      have "getFollowUpGuidance w getenv hasRedis hasAPI sw s (Some st) situation =
          (Some st1, Some run, case sr_err run of Some e \<Rightarrow> Inl (GuidanceStreamFailed e)
             | None \<Rightarrow> if trim_space (concat (map snd (sr_tokens run))) = [] then Inl EmptyGuidance
                       else Inr (concat (map snd (sr_tokens run))))"
        unfolding run_def by (simp add: step \<open>doc = Inr d\<close> d Inr Let_def)
      then show ?thesis using doc \<open>doc = Inr d\<close> d unfolding q by (cases "sr_err run") (simp_all add: Some)
    qed
  qed
qed

section \<open>The first request of a call\<close>

text \<open>An \<open>End\<close> of a task that has just been made goes all the way to the queue of its source.\<close>

lemma early_end_queues:
  assumes "NewPipelineTask random cfg = Inr t"
  shows "\<exists>t'. Option.bind (End_step t (End_call r)) (\<lambda>(t, pc). Option.bind (End_step t pc) (\<lambda>(t, pc).
      Option.bind (End_step t pc) (\<lambda>(t, pc). End_step t pc))) = Some (t', EndQueue (normalizeEndReason r))"
  using assms by (auto simp: NewPipelineTask_def End_call_def split: if_splits)

lemma read_prompt_nonblank: "read_prompt w st name vars dyn = (st1, Inr prompt) \<Longrightarrow> trim_space (lp_Text prompt) \<noteq> []"
  by (auto simp: read_prompt_def split: prod.splits sum.splits if_splits)

lemma load_nonblank:
  "loadSalesPrompt w shown store d = (store1, Inr prompt) \<Longrightarrow> trim_space (lp_Text prompt) \<noteq> []"
  "loadFollowUpPrompt w shown s3 store d = (store1, Inr prompt) \<Longrightarrow> trim_space (lp_Text prompt) \<noteq> []"
  by (auto simp: loadSalesPrompt_def loadFollowUpPrompt_def map_prod_def split: option.splits sum.splits if_splits prod.splits
      dest: read_prompt_nonblank)

lemma plan_messages:
  assumes "plan kind w cid store = (store1, Inr pl)"
  obtains prompt where "trim_space prompt \<noteq> []"
    and "bp_InitialMessages pl = buildInitialMessages prompt (cd_Chunks (su_Data (bp_Startup pl))) (resume_message w (bp_Startup pl))"
proof (cases kind)
  case SalesCallBot
  then show thesis using assms that load_nonblank(1)
    by (fastforce simp: plan_def sales_plan_def split: sum.splits prod.splits)
next
  case FollowUpBot
  then show thesis using assms that load_nonblank(2)
    by (fastforce simp: plan_def followup_plan_def split: sum.splits prod.splits)
qed

lemma BuildTask_built:
  assumes "BuildTask kind w req store = (store1, es, Built b)"
  shows "plan kind w (btr_ConversationID req) store = (store1, Inr (bd_plan b))"
    and "bd_contextAggregator b = NewContextAggregator (Some (bp_InitialMessages (bd_plan b))) (bp_PromptKey (bd_plan b))"
  using assms
  by (auto simp: BuildTask_def assemble_def Let_def split: prod.splits sum.splits if_splits)

lemma initial_filter:
  "messagesFromInitial (text_message ''system'' p # ms @ rest) =
     (if p = [] then [] else [text_message ''system'' p]) @ messagesFromInitial ms @ messagesFromInitial rest"
  by (simp add: messagesFromInitial_def text_message_def)


definition wit_events1 :: "call_event list" where
  "wit_events1 = [UserTurnCommitted ''hi'' 1 []]"

definition wit_conv :: conversation_data where
  "wit_conv =
     \<lparr>cd_Conversation = \<lparr>cr_ID = ''c'', cr_UserID = ''u'', cr_BotType = SalesCallBotType, cr_PatientInfo = [], cr_Direction = [],
        cr_Agenda = [], cr_DynamicVariables = [], cr_CallFlowKey = [], cr_CompiledCallFlowS3Key = [],
        cr_ResumedFromChunkID = None, cr_ResumeGracefully = None, cr_StartChunkID = None, cr_EndChunkID = None\<rparr>,
      cd_Chunks = map chunk_tuple (concat (map (\<lambda>ev. event_chunks
        \<lparr>cw_redis = (\<lambda>i. answering), cw_api = (\<lambda>r. None), cw_uuid = (\<lambda>i. ''id''), cw_fmt = (\<lambda>t. ''at''), cw_marshal = (\<lambda>c. ''c'')\<rparr>
        \<lparr>cb_ConversationID = ''c'', cb_UserID = ''u'', cb_BotType = ''sales_call''\<rparr> ev) wit_events1)),
      cd_UserProfile = \<lparr>up_UserID = ''u'', up_Phone = [], up_RemainingTalktimeSeconds = Some 0, up_CampaignFlag = None,
        up_ShortTermMemory = None, up_LastDietChartXML = [], up_IdealCallTimeSlots = [], up_DevanagariName = [],
        up_FirstName = [], up_Name = [], up_Gender = []\<rparr>,
      cd_UnprocessedChatContext = None, cd_ResumedChunk = []\<rparr>"

definition wit_server :: redis_server where
  "wit_server = set_key ''conversation_data:c'' ''x'' second
     (set_key ''document:sales_call/main_sys-3day_v2:production'' ''x'' second empty_server)"

definition wit_doc_world :: "unit doc_world" where
  "wit_doc_world =
     \<lparr>dw_render = (\<lambda>r q. (r, Inr \<lparr>rr_Output = ''Sell'', rr_CompileTimeMissingVars = [], rr_UndefinedError = [], rr_StrictValidationError = []\<rparr>)),
      dw_decode = (\<lambda>raw. Some wit_doc), dw_net = answering, dw_redis = wit_server, dw_lookup = 0, dw_store = 0\<rparr>"

definition wit_build :: "unit build_world" where
  "wit_build =
     \<lparr>bw_doc = wit_doc_world, bw_shownNow = ''now'', bw_now = 5, bw_getenv = (\<lambda>v. []), bw_hasRedis = True, bw_hasAPI = True,
      bw_decode = (\<lambda>raw. Some wit_conv), bw_net = answering, bw_redis = wit_server, bw_parse_time = (\<lambda>t. None),
      bw_unix_of = (\<lambda>t. 0), bw_s3 = None, bw_dictionary = [], bw_random = 0, bw_host_of = (\<lambda>u. None), bw_codec = wit_codec,
      bw_opus = LiveKitRoom.wit_world\<lparr>ow_getenv := (\<lambda>k. [])\<rparr>, bw_daily = (\<lambda>i. CannotStart []),
      bw_livekit = (\<lambda>i. (wit_lk_script i)\<lparr>ls_publish := None\<rparr>), bw_ctxErr = (\<lambda>i. None), bw_guidance = (\<lambda>q. Inl [])\<rparr>"

definition wit_task_request :: bot_task_request where
  "wit_task_request = \<lparr>btr_ConversationID = ''c'', btr_RoomURL = ''wss://x'', btr_RoomName = ''r'', btr_RoomToken = ''t''\<rparr>"

definition wit_store :: "unit document_store" where
  "wit_store = \<lparr>ds_env = ''production'', ds_cache = [], ds_renderer = ()\<rparr>"

fun built_of :: "build_outcome \<Rightarrow> built_task option" where
  "built_of (Built b) = Some b"
| "built_of _ = None"

definition wit_built :: built_task where
  "wit_built = the (built_of (snd (snd (BuildTask SalesCallBot wit_build wit_task_request (Some wit_store)))))"

lemma wit_builds: "map_option (\<lambda>b. cd_Chunks (su_Data (bp_Startup (bd_plan b))))
    (built_of (snd (snd (BuildTask SalesCallBot wit_build wit_task_request (Some wit_store))))) = Some (cd_Chunks wit_conv)"
  by code_simp

lemma built_of_Some: "built_of x = Some b \<longleftrightarrow> x = Built b"
  by (cases x) auto

lemma wit_built:
  obtains store1 es where "BuildTask SalesCallBot wit_build wit_task_request (Some wit_store) = (store1, es, Built wit_built)"
    and "cd_Chunks (su_Data (bp_Startup (bd_plan wit_built))) = cd_Chunks wit_conv"
proof -
  obtain b where b: "built_of (snd (snd (BuildTask SalesCallBot wit_build wit_task_request (Some wit_store)))) = Some b"
    "cd_Chunks (su_Data (bp_Startup (bd_plan b))) = cd_Chunks wit_conv"
    using wit_builds by auto
  then have "wit_built = b" by (simp add: wit_built_def)
  with b that show thesis unfolding built_of_Some by (metis prod.collapse)
qed


end
