(* ===== verification/ProcUsage.thy ===== *)
theory ProcUsage
  imports Observers
begin

text \<open>
  The process measurements (\<open>process_usage.go\<close>): CPU time and memory read from \<open>/proc\<close> and the control
  groups, and the log entry made of two samples. Counters are 64-bit words; the file system is an argument.
\<close>

section \<open>Samples\<close>

type_synonym u64 = "64 word"

record process_snapshot =
  ps_pid :: int
  ps_alive :: bool
  ps_cpuTimeNS :: u64
  ps_rssBytes :: u64
  ps_rssHWMBytes :: u64

record cgroup_snapshot =
  cg_available :: bool
  cg_usageUsec :: u64
  cg_nrPeriods :: u64
  cg_nrThrottled :: u64
  cg_throttledUsec :: u64

definition no_cgroup :: cgroup_snapshot where
  "no_cgroup = \<lparr>cg_available = False, cg_usageUsec = 0, cg_nrPeriods = 0, cg_nrThrottled = 0, cg_throttledUsec = 0\<rparr>"

definition no_process :: process_snapshot where
  "no_process = \<lparr>ps_pid = 0, ps_alive = False, ps_cpuTimeNS = 0, ps_rssBytes = 0, ps_rssHWMBytes = 0\<rparr>"

section \<open>The log entry\<close>

definition uint64Delta :: "u64 \<Rightarrow> u64 \<Rightarrow> u64" where
  "uint64Delta prev cur = (if cur < prev then 0 else cur - prev)"

definition float_of_u64 :: "u64 \<Rightarrow> rat" where
  "float_of_u64 w = rnd64 (of_int (uint w))"

text \<open>\<open>math.Round\<close> of a number that is not negative, as an integer.\<close>

definition round_up_half :: "rat \<Rightarrow> int" where
  "round_up_half x = \<lfloor>x + 1 / 2\<rfloor>"

definition mcores :: "u64 \<Rightarrow> int \<Rightarrow> int" where
  "mcores delta elapsed = round_up_half (fmul (fdiv (float_of_u64 delta) (float_of_int elapsed)) 1000)"

definition cpuMcores :: "process_snapshot \<Rightarrow> process_snapshot \<Rightarrow> duration \<Rightarrow> int" where
  "cpuMcores prev cur elapsed =
     (if elapsed \<le> 0 \<or> \<not> ps_alive prev \<or> \<not> ps_alive cur \<or> ps_cpuTimeNS cur < ps_cpuTimeNS prev then 0
      else mcores (ps_cpuTimeNS cur - ps_cpuTimeNS prev) elapsed)"

text \<open>
  The samples are ten seconds apart. For an elapsed time below a microsecond, where Go divides by zero and converts an infinite
  number to an integer (an implementation-defined value), the definition gives 0.
\<close>

definition containerCPUMcores :: "cgroup_snapshot \<Rightarrow> cgroup_snapshot \<Rightarrow> duration \<Rightarrow> int" where
  "containerCPUMcores prev cur elapsed =
     (if elapsed \<le> 0 \<or> \<not> cg_available prev \<or> \<not> cg_available cur \<or> cg_usageUsec cur < cg_usageUsec prev then 0
      else mcores (cg_usageUsec cur - cg_usageUsec prev) (quot elapsed 1000))"

definition throttledFraction :: "u64 \<Rightarrow> u64 \<Rightarrow> rat" where
  "throttledFraction periods throttledPeriods =
     (if periods = 0 then 0 else fdiv (float_of_u64 throttledPeriods) (float_of_u64 periods))"

record usage_log =
  ul_Event :: string
  ul_TransportType :: string
  ul_RoomName :: string
  ul_GoPID :: int
  ul_PythonPID :: int
  ul_SamplePeriodMS :: int
  ul_GoAlive :: bool
  ul_PythonAlive :: bool
  ul_GoCPUMcores :: int
  ul_PythonCPUMcores :: int
  ul_ContainerCPUAvailable :: bool
  ul_ContainerCPUMcores :: int
  ul_ContainerCPUPeriods :: u64
  ul_ContainerCPUThrottledPeriods :: u64
  ul_ContainerCPUThrottledMS :: u64
  ul_ContainerCPUThrottledFraction :: rat
  ul_GoRSSBytes :: u64
  ul_PythonRSSBytes :: u64
  ul_GoRSSHWMBytes :: u64
  ul_PythonRSSHWMBytes :: u64

definition buildProcessUsageLog :: "string \<Rightarrow> string \<Rightarrow> process_snapshot \<Rightarrow> process_snapshot \<Rightarrow> process_snapshot
    \<Rightarrow> process_snapshot \<Rightarrow> cgroup_snapshot \<Rightarrow> cgroup_snapshot \<Rightarrow> duration \<Rightarrow> usage_log" where
  "buildProcessUsageLog transportType roomName prevGo curGo prevPython curPython prevCgroup curCgroup elapsed =
     (let periods = uint64Delta (cg_nrPeriods prevCgroup) (cg_nrPeriods curCgroup);
          throttledPeriods = uint64Delta (cg_nrThrottled prevCgroup) (cg_nrThrottled curCgroup)
      in \<lparr>ul_Event = ''process_usage'', ul_TransportType = transportType, ul_RoomName = roomName, ul_GoPID = ps_pid curGo,
          ul_PythonPID = ps_pid curPython, ul_SamplePeriodMS = quot elapsed millisecond,
          ul_GoAlive = ps_alive curGo, ul_PythonAlive = ps_alive curPython,
          ul_GoCPUMcores = cpuMcores prevGo curGo elapsed, ul_PythonCPUMcores = cpuMcores prevPython curPython elapsed,
          ul_ContainerCPUAvailable = cg_available curCgroup,
          ul_ContainerCPUMcores = containerCPUMcores prevCgroup curCgroup elapsed,
          ul_ContainerCPUPeriods = periods, ul_ContainerCPUThrottledPeriods = throttledPeriods,
          ul_ContainerCPUThrottledMS = uint64Delta (cg_throttledUsec prevCgroup) (cg_throttledUsec curCgroup) div 1000,
          ul_ContainerCPUThrottledFraction = throttledFraction periods throttledPeriods,
          ul_GoRSSBytes = ps_rssBytes curGo, ul_PythonRSSBytes = ps_rssBytes curPython,
          ul_GoRSSHWMBytes = ps_rssHWMBytes curGo, ul_PythonRSSHWMBytes = ps_rssHWMBytes curPython\<rparr>)"

section \<open>Parsing\<close>

text \<open>\<open>strconv.ParseUint\<close> in base ten for 64 bits.\<close>

fun dec_value :: "nat \<Rightarrow> string \<Rightarrow> nat option" where
  "dec_value acc [] = Some acc"
| "dec_value acc (c # cs) =
     (if 48 \<le> code c \<and> code c \<le> 57 then dec_value (10 * acc + (code c - 48)) cs else None)"

definition parse_uint :: "string \<Rightarrow> u64 option" where
  "parse_uint s =
     (if s = [] then None
      else case dec_value 0 s of None \<Rightarrow> None | Some n \<Rightarrow> if n < 2 ^ 64 then Some (of_nat n) else None)"

text \<open>\<open>strings.LastIndex\<close> of one character.\<close>

fun last_index :: "char \<Rightarrow> string \<Rightarrow> nat option" where
  "last_index d [] = None"
| "last_index d (c # cs) =
     (case last_index d cs of Some i \<Rightarrow> Some (Suc i) | None \<Rightarrow> if c = d then Some 0 else None)"

definition parseSchedstatRuntimeNS :: "string \<Rightarrow> u64 option" where
  "parseSchedstatRuntimeNS raw = (case go_fields raw of [] \<Rightarrow> None | f # _ \<Rightarrow> parse_uint f)"

definition parseStatCPUJiffies :: "string \<Rightarrow> u64 option" where
  "parseStatCPUJiffies s =
     (case last_index (CHR '')'') s of
        None \<Rightarrow> None
      | Some endComm \<Rightarrow>
          if endComm + 2 \<ge> length s then None
          else let fields = go_fields (drop (endComm + 2) s)
               in if length fields \<le> 12 then None
                  else (case (parse_uint (fields ! 11), parse_uint (fields ! 12)) of
                          (Some utime, Some stime) \<Rightarrow> Some (utime + stime) | _ \<Rightarrow> None))"

definition parseStatusKBLine :: "string \<Rightarrow> u64 option" where
  "parseStatusKBLine line =
     (let fields = go_fields line
      in if length fields < 2 then None else map_option (\<lambda>kb. kb * 1024) (parse_uint (fields ! 1)))"

fun status_lines :: "string list \<Rightarrow> u64 \<times> u64 \<Rightarrow> (u64 \<times> u64) option" where
  "status_lines [] acc = Some acc"
| "status_lines (line # rest) (rss, hwm) =
     (if has_prefix line ''VmRSS:'' then Option.bind (parseStatusKBLine line) (\<lambda>v. status_lines rest (v, hwm))
      else if has_prefix line ''VmHWM:'' then Option.bind (parseStatusKBLine line) (\<lambda>v. status_lines rest (rss, v))
      else status_lines rest (rss, hwm))"

definition parseStatusMemoryBytes :: "string \<Rightarrow> (u64 \<times> u64) option" where
  "parseStatusMemoryBytes raw = status_lines (split_on newline raw) (0, 0)"

fun cgroup_lines :: "string list \<Rightarrow> cgroup_snapshot \<Rightarrow> cgroup_snapshot option" where
  "cgroup_lines [] snap = Some snap"
| "cgroup_lines (line # rest) snap =
     (case go_fields line of
        [key, v] \<Rightarrow>
          Option.bind (parse_uint v) (\<lambda>value.
            cgroup_lines rest
              (if key = ''usage_usec'' then snap\<lparr>cg_usageUsec := value\<rparr>
               else if key = ''nr_periods'' then snap\<lparr>cg_nrPeriods := value\<rparr>
               else if key = ''nr_throttled'' then snap\<lparr>cg_nrThrottled := value\<rparr>
               else if key = ''throttled_usec'' then snap\<lparr>cg_throttledUsec := value\<rparr>
               else if key = ''throttled_time'' then snap\<lparr>cg_throttledUsec := value div 1000\<rparr>
               else snap))
      | _ \<Rightarrow> cgroup_lines rest snap)"

definition parseCgroupCPUStat :: "string \<Rightarrow> cgroup_snapshot option" where
  "parseCgroupCPUStat raw = cgroup_lines (split_on newline raw) no_cgroup"

section \<open>Reading\<close>

text \<open>An error says that the file does not exist, or something else. A directory lists names, with whether each is one.\<close>

datatype file_error = NotExist | OtherError

record file_system =
  fs_file :: "string \<Rightarrow> file_error + string"
  fs_dir :: "string \<Rightarrow> file_error + (string \<times> bool) list"

text \<open>
  The loop over the tasks of a process, which sums what it can read: \<open>err\<close> is the first error that is
  not a task that has gone.
\<close>

fun sum_tasks :: "file_system \<Rightarrow> (string \<Rightarrow> u64 option) \<Rightarrow> string \<Rightarrow> string \<Rightarrow> (string \<times> bool) list \<Rightarrow> u64 option
    \<Rightarrow> file_error option \<Rightarrow> file_error + u64" where
  "sum_tasks fs parse dir file [] acc err =
     (case acc of Some n \<Rightarrow> Inr n | None \<Rightarrow> (case err of Some e \<Rightarrow> Inl e | None \<Rightarrow> Inl NotExist))"
| "sum_tasks fs parse dir file ((name, isDir) # entries) acc err =
     (let failed = (\<lambda>e. sum_tasks fs parse dir file entries acc (if err = None then Some e else err))
      in if \<not> isDir then sum_tasks fs parse dir file entries acc err
         else (case fs_file fs (dir @ ''/'' @ name @ ''/'' @ file) of
                 Inl NotExist \<Rightarrow> sum_tasks fs parse dir file entries acc err
               | Inl OtherError \<Rightarrow> failed OtherError
               | Inr raw \<Rightarrow>
                   (case parse raw of
                      None \<Rightarrow> failed OtherError
                    | Some n \<Rightarrow> sum_tasks fs parse dir file entries
                                  (Some ((case acc of Some t \<Rightarrow> t | None \<Rightarrow> 0) + n)) err)))"

definition readTasks :: "file_system \<Rightarrow> (string \<Rightarrow> u64 option) \<Rightarrow> string \<Rightarrow> int \<Rightarrow> file_error + u64" where
  "readTasks fs parse file pid =
     (let taskDir = ''/proc/'' @ int_str pid @ ''/task''
      in case fs_dir fs taskDir of
           Inl e \<Rightarrow> Inl e
         | Inr entries \<Rightarrow> sum_tasks fs parse taskDir file entries None None)"

definition readProcessSchedstatNS :: "file_system \<Rightarrow> int \<Rightarrow> file_error + u64" where
  "readProcessSchedstatNS fs pid = readTasks fs parseSchedstatRuntimeNS ''schedstat'' pid"

definition readProcessStatJiffies :: "file_system \<Rightarrow> int \<Rightarrow> file_error + u64" where
  "readProcessStatJiffies fs pid = readTasks fs parseStatCPUJiffies ''stat'' pid"

definition fallbackProcClockTicks :: u64 where "fallbackProcClockTicks = 100"

definition readProcessCPUTimeNS :: "file_system \<Rightarrow> int \<Rightarrow> file_error + u64" where
  "readProcessCPUTimeNS fs pid =
     (case readProcessSchedstatNS fs pid of
        Inr ns \<Rightarrow> Inr ns
      | Inl e \<Rightarrow>
          (case readProcessStatJiffies fs pid of
             Inl _ \<Rightarrow> Inl e
           | Inr jiffies \<Rightarrow> Inr (jiffies * word_of_int second div fallbackProcClockTicks)))"

definition readProcessMemoryBytes :: "file_system \<Rightarrow> int \<Rightarrow> file_error + u64 \<times> u64" where
  "readProcessMemoryBytes fs pid =
     (case fs_file fs (''/proc/'' @ int_str pid @ ''/status'') of
        Inl e \<Rightarrow> Inl e
      | Inr raw \<Rightarrow> (case parseStatusMemoryBytes raw of None \<Rightarrow> Inl OtherError | Some m \<Rightarrow> Inr m))"

text \<open>The sample, and the error beside it.\<close>

definition readProcessUsageSnapshot :: "file_system \<Rightarrow> int \<Rightarrow> process_snapshot \<times> file_error option" where
  "readProcessUsageSnapshot fs pid =
     (let snap = \<lparr>ps_pid = pid, ps_alive = True, ps_cpuTimeNS = 0, ps_rssBytes = 0, ps_rssHWMBytes = 0\<rparr>;
          failed = (\<lambda>e. case e of NotExist \<Rightarrow> (snap\<lparr>ps_alive := False\<rparr>, None) | OtherError \<Rightarrow> (snap, Some e))
      in case readProcessCPUTimeNS fs pid of
           Inl e \<Rightarrow> failed e
         | Inr cpuNS \<Rightarrow>
             (case readProcessMemoryBytes fs pid of
                Inl e \<Rightarrow> failed e
              | Inr (rss, hwm) \<Rightarrow> (snap\<lparr>ps_cpuTimeNS := cpuNS, ps_rssBytes := rss, ps_rssHWMBytes := hwm\<rparr>, None)))"

definition cgroup_candidates :: "(string \<times> string) list" where
  "cgroup_candidates =
     [(''/sys/fs/cgroup/cpu.stat'', []),
      (''/sys/fs/cgroup/cpu,cpuacct/cpu.stat'', ''/sys/fs/cgroup/cpu,cpuacct/cpuacct.usage''),
      (''/sys/fs/cgroup/cpu/cpu.stat'', ''/sys/fs/cgroup/cpuacct/cpuacct.usage'')]"

definition with_usage :: "file_system \<Rightarrow> string \<Rightarrow> cgroup_snapshot \<Rightarrow> cgroup_snapshot" where
  "with_usage fs usagePath snap =
     (if cg_usageUsec snap = 0 \<and> usagePath \<noteq> []
      then (case fs_file fs usagePath of
              Inl e \<Rightarrow> snap
            | Inr raw \<Rightarrow> (case parse_uint (trim_space raw) of
                            None \<Rightarrow> snap | Some usageNS \<Rightarrow> snap\<lparr>cg_usageUsec := usageNS div 1000\<rparr>))
      else snap)"

fun try_candidates :: "file_system \<Rightarrow> (string \<times> string) list \<Rightarrow> file_error option \<Rightarrow> cgroup_snapshot \<times> file_error option" where
  "try_candidates fs [] err = (no_cgroup, Some (case err of Some e \<Rightarrow> e | None \<Rightarrow> NotExist))"
| "try_candidates fs ((statPath, usagePath) # cands) err =
     (case fs_file fs statPath of
        Inl e \<Rightarrow> try_candidates fs cands (if err = None then Some e else err)
      | Inr raw \<Rightarrow>
          (case parseCgroupCPUStat raw of
             None \<Rightarrow> try_candidates fs cands (if err = None then Some OtherError else err)
           | Some snap \<Rightarrow> ((with_usage fs usagePath snap)\<lparr>cg_available := True\<rparr>, None)))"

definition readCgroupCPUSnapshot :: "file_system \<Rightarrow> cgroup_snapshot \<times> file_error option" where
  "readCgroupCPUSnapshot fs = try_candidates fs cgroup_candidates None"

section \<open>The monitors\<close>

text \<open>
  What a monitor logs over the samples it takes, each with the file system it finds and the time of the
  tick; errors of a read are only logged. The Daily transport watches two processes, LiveKit one.
\<close>

fun daily_monitorProcessUsage :: "string \<Rightarrow> int \<Rightarrow> int \<Rightarrow> process_snapshot \<Rightarrow> process_snapshot \<Rightarrow> cgroup_snapshot \<Rightarrow> gotime
    \<Rightarrow> (file_system \<times> gotime) list \<Rightarrow> usage_log list" where
  "daily_monitorProcessUsage room goPID pythonPID prevGo prevPython prevCgroup lastAt [] = []"
| "daily_monitorProcessUsage room goPID pythonPID prevGo prevPython prevCgroup lastAt ((fs, now) # ticks) =
     (let curGo = fst (readProcessUsageSnapshot fs goPID); curPython = fst (readProcessUsageSnapshot fs pythonPID);
          curCgroup = fst (readCgroupCPUSnapshot fs)
      in buildProcessUsageLog ''daily'' room prevGo curGo prevPython curPython prevCgroup curCgroup (time_sub now lastAt)
         # daily_monitorProcessUsage room goPID pythonPID curGo curPython curCgroup now ticks)"

fun livekit_monitorProcessUsage :: "string \<Rightarrow> int \<Rightarrow> process_snapshot \<Rightarrow> cgroup_snapshot \<Rightarrow> gotime
    \<Rightarrow> (file_system \<times> gotime) list \<Rightarrow> usage_log list" where
  "livekit_monitorProcessUsage room goPID prevGo prevCgroup lastAt [] = []"
| "livekit_monitorProcessUsage room goPID prevGo prevCgroup lastAt ((fs, now) # ticks) =
     (let curGo = fst (readProcessUsageSnapshot fs goPID); curCgroup = fst (readCgroupCPUSnapshot fs)
      in buildProcessUsageLog ''livekit'' room prevGo curGo no_process no_process prevCgroup curCgroup (time_sub now lastAt)
         # livekit_monitorProcessUsage room goPID curGo curCgroup now ticks)"

section \<open>The audio timings of a room\<close>

record audio_timing_log =
  atl_Event :: string
  atl_RoomName :: string
  atl_Timings :: "audio_entry list"

definition emitAudioTiming :: "string \<Rightarrow> audio_timing \<Rightarrow> audio_timing_log list \<times> audio_timing" where
  "emitAudioTiming roomName a =
     (let (entries, a1) = at_snapshotAndReset a
      in (if entries = [] then []
          else [\<lparr>atl_Event = ''audio_timing'', atl_RoomName = roomName, atl_Timings = entries\<rparr>], a1))"

text \<open>What the monitor sees until the room closes or the task ends, when it logs once more.\<close>

datatype timing_event = Recorded string duration | Ticked

fun monitorAudioTiming :: "string \<Rightarrow> timing_event list \<Rightarrow> audio_timing \<Rightarrow> audio_timing_log list" where
  "monitorAudioTiming roomName [] a = fst (emitAudioTiming roomName a)"
| "monitorAudioTiming roomName (Recorded name elapsed # evs) a =
     monitorAudioTiming roomName evs (at_record name elapsed a)"
| "monitorAudioTiming roomName (Ticked # evs) a =
     (let (logs, a1) = emitAudioTiming roomName a in logs @ monitorAudioTiming roomName evs a1)"

text \<open>Every measurement is in exactly one log: the counts of a name over all logs add up.\<close>

definition reported :: "string \<Rightarrow> audio_entry list \<Rightarrow> u64" where
  "reported name es = sum_list (map (\<lambda>e. if ae_Name e = name then ae_Count e else 0) es)"

definition held_count :: "string \<Rightarrow> audio_timing \<Rightarrow> u64" where
  "held_count name a = (case map_of a name of None \<Rightarrow> 0 | Some st \<Rightarrow> ast_count st)"

fun recorded :: "string \<Rightarrow> timing_event list \<Rightarrow> nat" where
  "recorded name [] = 0"
| "recorded name (Recorded n d # evs) = (if n = name \<and> n \<noteq> [] \<and> 0 \<le> d then 1 else 0) + recorded name evs"
| "recorded name (Ticked # evs) = recorded name evs"

lemma reported_append: "reported name (xs @ ys) = reported name xs + reported name ys"
  by (simp add: reported_def)

lemma reported_absent:
  "name \<notin> fst ` set a \<Longrightarrow> reported name (fst (at_snapshotAndReset a)) = 0"
  by (induction a) (auto simp: at_snapshotAndReset_def reported_def)

lemma reported_snapshot:
  "distinct (map fst a) \<Longrightarrow> reported name (fst (at_snapshotAndReset a)) = held_count name a"
proof (induction a)
  case Nil
  then show ?case by (simp add: at_snapshotAndReset_def reported_def held_count_def)
next
  case (Cons kv a)
  have split: "fst (at_snapshotAndReset (kv # a)) = fst (at_snapshotAndReset [kv]) @ fst (at_snapshotAndReset a)"
    by (simp add: at_snapshotAndReset_def)
  have head: "reported name (fst (at_snapshotAndReset [kv])) = (if fst kv = name then ast_count (snd kv) else 0)"
    by (cases kv) (simp add: at_snapshotAndReset_def reported_def)
  show ?case
    using Cons reported_absent [of name a]
    by (cases "fst kv = name") (auto simp: split head reported_append held_count_def)
qed

lemma at_record_distinct: "distinct (map fst a) \<Longrightarrow> distinct (map fst (at_record name elapsed a))"
  by (auto simp: at_record_def Let_def distinct_map_filter)

lemma at_record_held:
  "held_count name (at_record n elapsed a)
     = held_count name a + (if n = name \<and> n \<noteq> [] \<and> 0 \<le> elapsed then 1 else 0)"
  by (auto simp: at_record_def held_count_def Let_def map_of_filter_other split: option.splits)

lemma emit_timings: "concat (map atl_Timings (fst (emitAudioTiming room a))) = fst (at_snapshotAndReset a)"
    "snd (emitAudioTiming room a) = []"
  by (simp_all add: emitAudioTiming_def at_snapshotAndReset_def Let_def split_beta)

lemma timings_reported:
  "distinct (map fst a) \<Longrightarrow> reported name (concat (map atl_Timings (monitorAudioTiming room evs a)))
     = held_count name a + of_nat (recorded name evs)"
proof (induction room evs a rule: monitorAudioTiming.induct)
  case (1 room a)
  then show ?case by (simp add: emit_timings reported_snapshot)
next
  case (2 room n d evs a)
  then show ?case by (simp add: at_record_distinct at_record_held)
next
  case (3 room evs a)
  have empty: "held_count name [] = 0" by (simp add: held_count_def)
  have "monitorAudioTiming room (Ticked # evs) a
      = fst (emitAudioTiming room a) @ monitorAudioTiming room evs []"
    using emit_timings(2) [of room a] by (cases "emitAudioTiming room a") simp
  then show ?case
    using 3 emit_timings [of room a]
    by (cases "emitAudioTiming room a") (simp add: reported_append reported_snapshot empty)
qed

section \<open>Lemmas\<close>

definition visible :: "char \<Rightarrow> bool" where
  "visible c = (33 \<le> code c \<and> code c \<le> 126)"

definition plain_word :: "string \<Rightarrow> bool" where
  "plain_word w = (w \<noteq> [] \<and> list_all visible w)"

lemma multibyte_first: "list_all (\<lambda>w. w \<noteq> [] \<and> 194 \<le> code (hd w)) multibyte_spaces"
  by code_simp

lemma space_len_visible: "visible c \<Longrightarrow> space_len (c # cs) = 0"
proof -
  assume c: "visible c"
  have "List.find (\<lambda>w. take (length w) (c # cs) = w) multibyte_spaces = None"
  proof (subst find_None_iff, rule notI, elim exE conjE)
    fix w assume w: "w \<in> set multibyte_spaces" and "take (length w) (c # cs) = w"
    moreover have "w \<noteq> []" using w multibyte_first by (auto simp: list_all_iff)
    ultimately have "hd w = c" by (metis hd_take length_greater_0_conv list.sel(1))
    with w multibyte_first have "194 \<le> code c" by (auto simp: list_all_iff)
    with c show False by (simp add: visible_def)
  qed
  moreover have "\<not> ascii_space c" using c by (auto simp: visible_def ascii_space_def)
  ultimately show ?thesis by simp
qed

lemma fields_word:
  "list_all visible w \<Longrightarrow> ascii_space d
     \<Longrightarrow> go_fields_acc cur (w @ d # rest) = (if cur @ w = [] then [] else [cur @ w]) @ go_fields rest"
proof (induction w arbitrary: cur)
  case Nil
  then show ?case by (subst go_fields_acc.simps) (simp add: go_fields_def)
next
  case (Cons c w)
  then have "go_fields_acc cur ((c # w) @ d # rest) = go_fields_acc (cur @ [c]) (w @ d # rest)"
    by (subst go_fields_acc.simps) (simp add: space_len_visible del: space_len.simps)
  with Cons show ?case by simp
qed

lemma fields_join:
  "list_all plain_word ws \<Longrightarrow> go_fields (join_with '' '' ws @ [newline]) = ws"
proof (induction "'' ''" ws rule: join_with.induct)
  case 1
  then show ?case by (simp add: go_fields_def go_fields_acc.simps ascii_space_def)
next
  case (2 w)
  then show ?case
    by (simp add: go_fields_def fields_word plain_word_def ascii_space_def)
       (simp add: go_fields_acc.simps)
next
  case (3 w v ws)
  then have "go_fields (w @ CHR '' '' # (join_with '' '' (v # ws) @ [newline]))
      = w # go_fields (join_with '' '' (v # ws) @ [newline])"
    by (subst go_fields_def, subst fields_word) (auto simp: plain_word_def ascii_space_def)
  with 3 show ?case by simp
qed

lemma dec_value_append:
  "dec_value a (s @ t) = Option.bind (dec_value a s) (\<lambda>b. dec_value b t)"
  by (induction a s rule: dec_value.induct) auto

lemma code_digit: "n < 10 \<Longrightarrow> code (digit_char n) = 48 + n"
  by (simp add: digit_char_def)

lemma dec_value_nat_str: "dec_value 0 (nat_str n) = Some n"
proof (induction n rule: nat_str.induct)
  case (1 n)
  then show ?case
    by (subst nat_str.simps) (auto simp: dec_value_append code_digit)
qed

lemma nat_str_plain: "plain_word (nat_str n)"
proof (induction n rule: nat_str.induct)
  case (1 n)
  then show ?case
    by (subst nat_str.simps) (auto simp: plain_word_def visible_def code_digit)
qed

lemma digit_no_bracket: "d < 10 \<Longrightarrow> digit_char d \<noteq> CHR '')''"
proof
  assume "d < 10" and "digit_char d = CHR '')''"
  then have "48 + d = code (CHR '')'')" by (metis code_digit)
  then show False by simp
qed

lemma nat_str_no_bracket: "CHR '')'' \<notin> set (nat_str n)"
proof (induction n rule: nat_str.induct)
  case (1 n)
  then show ?case using digit_no_bracket [of n] digit_no_bracket [of "n mod 10"]
    by (subst nat_str.simps) (auto dest: sym)
qed

lemma parse_uint_nat_str: "n < 2 ^ 64 \<Longrightarrow> parse_uint (nat_str n) = Some (of_nat n)"
  using nat_str_plain [of n] by (simp add: parse_uint_def dec_value_nat_str plain_word_def)

lemma last_index_last:
  "d \<notin> set ys \<Longrightarrow> last_index d (xs @ d # ys) = Some (length xs)"
proof (induction xs)
  case Nil
  have "d \<notin> set ys \<Longrightarrow> last_index d ys = None" by (induction ys) auto
  with Nil show ?case by simp
qed simp

lemma set_join: "set (join_with sep ws) \<subseteq> set sep \<union> \<Union> (set (map set ws))"
  by (induction sep ws rule: join_with.induct) auto

section \<open>Properties\<close>

text \<open>
  C38: Of a line of \<open>/proc/<pid>/task/<tid>/stat\<close> the program reads exactly the user and the system time, whatever
  the name of the task holds (closing brackets, spaces, line breaks or bytes that are not text): the name ends at the last
  bracket of the line.
\<close>

theorem stat_roundtrip:
  assumes "length before = 11" "list_all plain_word (before @ after)"
    and "CHR '')'' \<notin> set (concat (before @ after))"
    and "utime < 2 ^ 64" "stime < 2 ^ 64"
  shows "parseStatCPUJiffies
     (nat_str pid @ '' ('' @ comm @ '') '' @ join_with '' '' (before @ [nat_str utime, nat_str stime] @ after) @ [newline])
   = Some (of_nat utime + of_nat stime)"
proof -
  let ?ws = "before @ [nat_str utime, nat_str stime] @ after"
  let ?rest = "join_with '' '' ?ws @ [newline]"
  have ws: "list_all plain_word ?ws" using assms(2) by (simp add: nat_str_plain)
  have no: "CHR '')'' \<notin> set (nat_str n)" for n
    by (rule nat_str_no_bracket)
  define pre where "pre = nat_str pid @ '' ('' @ comm"
  define rest where "rest = ?rest"
  have "CHR '')'' \<notin> set (CHR '' '' # rest)"
    using set_join [of "'' ''" ?ws] assms(3) no by (auto simp: rest_def)
  then have "last_index (CHR '')'') (pre @ CHR '')'' # CHR '' '' # rest) = Some (length pre)"
    by (rule last_index_last)
  moreover have "go_fields rest = ?ws" using ws unfolding rest_def by (rule fields_join)
  moreover have "rest \<noteq> []" by (simp add: rest_def)
  ultimately have "parseStatCPUJiffies (pre @ CHR '')'' # CHR '' '' # rest) = Some (of_nat utime + of_nat stime)"
    using assms(1,4,5) by (simp add: parseStatCPUJiffies_def parse_uint_nat_str nth_append Let_def)
  then show ?thesis by (simp add: pre_def rest_def)
qed

theorem stat_roundtrip_witness: "parseStatCPUJiffies
     (nat_str 7 @ '' ('' @ ''a) 1 2'' @ '') '' @
       join_with '' '' ([''S'', ''1'', ''7'', ''7'', ''0'', ''-1'', ''4'', ''0'', ''0'', ''0'', ''0''] @ [nat_str 12, nat_str 30]
         @ [''0'', ''0'']) @ [newline]) = Some 42"
  using stat_roundtrip [of "[''S'', ''1'', ''7'', ''7'', ''0'', ''-1'', ''4'', ''0'', ''0'', ''0'', ''0'']" "[''0'', ''0'']"
      12 30 7 "''a) 1 2''"]
  by (simp add: plain_word_def visible_def)

end
