(* ===== verification/Shutdown.thy ===== *)
theory Shutdown
  imports Bots
begin

text \<open>
  What the cleanup of a call waits for: the goroutines of the task (\<open>processor.go\<close>, \<open>pipeline.go\<close>, the
  \<open>Start\<close> methods of the processors). The processors' own loops are those of \<open>Processor\<close>; after
  \<open>Pipeline.Stop\<close> each of them has a bounded number of steps left. The wait group is a counter of the
  goroutines that were started through it.
\<close>

section \<open>Starting a task\<close>

text \<open>The goroutines that the processors start: the two loops of \<open>BaseProcessor\<close> and those of their own.\<close>

datatype goroutine =
    InputLoopOf processor_kind
  | ProcessLoopOf processor_kind
  | DrainExternalFrames
  | SttReader
  | SttWriter
  | CancelWatchdog
  | TalkTimer
  | TtsReader
  | TtsOrchestrator
  | PlaybackLoop

definition base_Start :: "processor_kind \<Rightarrow> goroutine list" where
  "base_Start k = [ProcessLoopOf k, InputLoopOf k]"

definition source_Start :: "goroutine list" where "source_Start = base_Start PSource @ [DrainExternalFrames]"
definition stt_Start :: "goroutine list" where "stt_Start = base_Start PStt @ [SttReader, SttWriter]"
definition user_idle_Start :: "goroutine list" where "user_idle_Start = base_Start PUserIdle @ [CancelWatchdog]"
definition talk_time_Start :: "goroutine list" where "talk_time_Start = base_Start PTalkTime @ [TalkTimer]"
definition tts_Start :: "goroutine list" where "tts_Start = base_Start PTts @ [TtsReader, TtsOrchestrator]"
definition playback_Start :: "goroutine list" where "playback_Start = base_Start PPlayback @ [PlaybackLoop]"

lemmas processor_Start_defs = base_Start_def source_Start_def stt_Start_def user_idle_Start_def
  talk_time_Start_def tts_Start_def playback_Start_def

fun processor_Start :: "processor_kind \<Rightarrow> goroutine list" where
  "processor_Start PSource = source_Start"
| "processor_Start PStt = stt_Start"
| "processor_Start PUserIdle = user_idle_Start"
| "processor_Start PTalkTime = talk_time_Start"
| "processor_Start PTts = tts_Start"
| "processor_Start PPlayback = playback_Start"
| "processor_Start k = base_Start k"

definition task_Start :: "processor_kind list \<Rightarrow> links \<times> goroutine list" where
  "task_Start ks = (pipeline_Start (length ks), concat (map processor_Start ks))"

section \<open>The wait group\<close>

text \<open>
  The goroutines that are alive, each with whether it was counted, and the counter. \<open>Go\<close> and the rooms'
  \<open>goTracked\<close> count when the task has a wait group; a counted goroutine is taken off by its deferred
  \<open>Done\<close>. A plain \<open>go\<close> statement, as in \<open>CompleteEnd\<close>, counts nothing.
\<close>

record tracker =
  tk_counter :: nat
  tk_live :: "(nat \<times> bool) list"

definition no_goroutines :: tracker where
  "no_goroutines = \<lparr>tk_counter = 0, tk_live = []\<rparr>"

definition go_plain :: "nat \<Rightarrow> tracker \<Rightarrow> tracker" where
  "go_plain n t = t\<lparr>tk_live := (n, False) # tk_live t\<rparr>"

definition Go :: "bool \<Rightarrow> nat \<Rightarrow> tracker \<Rightarrow> tracker" where
  "Go hasWG n t =
     (if \<not> hasWG then go_plain n t
      else t\<lparr>tk_counter := tk_counter t + 1, tk_live := (n, True) # tk_live t\<rparr>)"

definition daily_goTracked :: "bool \<Rightarrow> nat \<Rightarrow> tracker \<Rightarrow> tracker" where
  "daily_goTracked hasWG n t =
     (if hasWG then t\<lparr>tk_counter := tk_counter t + 1, tk_live := (n, True) # tk_live t\<rparr> else go_plain n t)"

definition livekit_goTracked :: "bool \<Rightarrow> nat \<Rightarrow> tracker \<Rightarrow> tracker" where
  "livekit_goTracked hasWG n t =
     (if hasWG then t\<lparr>tk_counter := tk_counter t + 1, tk_live := (n, True) # tk_live t\<rparr> else go_plain n t)"

definition goroutine_returns :: "nat \<Rightarrow> tracker \<Rightarrow> tracker" where
  "goroutine_returns n t =
     (case map_of (tk_live t) n of
        None \<Rightarrow> t
      | Some inGroup \<Rightarrow>
          t\<lparr>tk_counter := (if inGroup then tk_counter t - 1 else tk_counter t),
            tk_live := filter (\<lambda>kv. fst kv \<noteq> n) (tk_live t)\<rparr>)"

datatype go_event =
    ByProcessor bool nat
  | ByDailyRoom bool nat
  | ByLiveKitRoom bool nat
  | ByGoStatement nat
  | Returns nat

text \<open>A new goroutine has a number of its own.\<close>

fun go_step :: "go_event \<Rightarrow> tracker \<Rightarrow> tracker" where
  "go_step (ByProcessor hasWG n) t = (if n \<in> fst ` set (tk_live t) then t else Go hasWG n t)"
| "go_step (ByDailyRoom hasWG n) t = (if n \<in> fst ` set (tk_live t) then t else daily_goTracked hasWG n t)"
| "go_step (ByLiveKitRoom hasWG n) t = (if n \<in> fst ` set (tk_live t) then t else livekit_goTracked hasWG n t)"
| "go_step (ByGoStatement n) t = (if n \<in> fst ` set (tk_live t) then t else go_plain n t)"
| "go_step (Returns n) t = goroutine_returns n t"

section \<open>The wait\<close>

text \<open>
  The dump of all stacks: the buffer doubles from 64 KiB until a dump fits or it has 8 MiB. The \<open>i\<close>-th
  call of \<open>runtime.Stack\<close> would write the text \<open>dump i\<close>, and writes what fits of it.
\<close>

definition stack_buffer :: "nat \<Rightarrow> nat" where
  "stack_buffer i = 64 * 1024 * 2 ^ i"

lemma stack_buffer_below: "stack_buffer i < 8388608 \<longleftrightarrow> i < 7"
proof -
  have "stack_buffer i < 8388608 \<longleftrightarrow> (2 :: nat) ^ i < 2 ^ 7" by (simp add: stack_buffer_def)
  also have "\<dots> \<longleftrightarrow> i < 7" by (rule power_strict_increasing_iff) simp
  finally show ?thesis .
qed

function stacks_from :: "(nat \<Rightarrow> string) \<Rightarrow> nat \<Rightarrow> string" where
  "stacks_from dump i =
     (let buf = stack_buffer i; n = min (length (dump i)) buf
      in if n < buf then take n (dump i)
         else if buf \<ge> 8 * 1024 * 1024 then take n (dump i)
         else stacks_from dump (i + 1))"
  by pat_completeness auto

termination
  by (relation "measure (\<lambda>(dump, i). 7 - i)") (auto simp: stack_buffer_below not_le)

definition captureGoroutineStacks :: "(nat \<Rightarrow> string) \<Rightarrow> string" where
  "captureGoroutineStacks dump = stacks_from dump 0"

declare stacks_from.simps [simp del]

text \<open>The end of the wait: the counter at zero, or ten seconds with the dump; each outcome that is ready.\<close>

datatype await_result = AllExited | TimedOut string

definition await_processors :: "duration \<Rightarrow> (nat \<Rightarrow> string) \<Rightarrow> nat \<Rightarrow> await_result list" where
  "await_processors elapsed dump counter =
     (if counter = 0 then [AllExited] else []) @
     (if 10 * second \<le> elapsed then [TimedOut (captureGoroutineStacks dump)] else [])"

section \<open>Stopping the processors\<close>

datatype processor_loop = InputLoop | ProcessLoop

fun loop_step :: "'s handler \<Rightarrow> processor_loop \<Rightarrow> 's base_processor \<Rightarrow> 's outcomes" where
  "loop_step h InputLoop b = inputLoop h b"
| "loop_step h ProcessLoop b = processLoop h b"

text \<open>The loops of a processor that are alive.\<close>

definition loops_alive :: "'s base_processor \<Rightarrow> nat" where
  "loops_alive b = of_bool (bp_input b \<notin> {InNotStarted, InExited}) + of_bool (bp_proc b \<notin> {PrNotStarted, PrExited})"

definition pipeline_Stop :: "'s base_processor list \<Rightarrow> 's base_processor list" where
  "pipeline_Stop bs = map Stop bs"

text \<open>
  The loops of all processors step in any order. A step names the processor, its loop and which of the
  outcomes happens. What a handler pushes meets a processor that takes nothing any more.
\<close>

fun pipeline_run :: "(nat \<Rightarrow> 's handler) \<Rightarrow> (nat \<times> processor_loop \<times> nat) list \<Rightarrow> 's base_processor list
    \<Rightarrow> 's base_processor list option" where
  "pipeline_run hs [] bs = Some bs"
| "pipeline_run hs ((i, l, k) # steps) bs =
     (if i < length bs \<and> k < length (loop_step (hs i) l (bs ! i))
      then pipeline_run hs steps (bs[i := snd (loop_step (hs i) l (bs ! i) ! k)])
      else None)"

fun input_effort :: "input_pc \<Rightarrow> nat" where
  "input_effort InPriority = 1"
| "input_effort (InHolding _) = 2"
| "input_effort InFair = 3"
| "input_effort _ = 0"

fun process_effort :: "proc_pc \<Rightarrow> nat" where
  "process_effort PrCheck = 1"
| "process_effort PrSelect = 2"
| "process_effort _ = 0"

text \<open>The steps a stopped processor has left: two for each system frame, a few for where the loops stand.\<close>

definition effort :: "'s base_processor \<Rightarrow> nat" where
  "effort b = 2 * length (bp_inputSysCh b) + input_effort (bp_input b) + process_effort (bp_proc b)"

definition stopped :: "'s base_processor \<Rightarrow> bool" where
  "stopped b \<longleftrightarrow> bp_cancelling b \<and> bp_ctxDone b"

lemma process_effort_le: "process_effort pc \<le> 2"
  by (cases pc) auto

lemma handleSystem_effort:
  assumes "(evs, b') \<in> set (handleSystem h b env)"
  shows "bp_cancelling b' = bp_cancelling b \<and> bp_ctxDone b' = bp_ctxDone b
    \<and> bp_inputSysCh b' = bp_inputSysCh b \<and> bp_input b' = bp_input b
    \<and> process_effort (bp_proc b') \<le> process_effort (bp_proc b) + 1"
proof -
  obtain b1 es s' where b': "b' = b1\<lparr>bp_self := s'\<rparr>"
    and b1: "b1 \<in> set (if env_Frame env = InterruptFrame then interruptProcessLoop b else [b])"
    using assms by (rule handleSystem_outcome)
  show ?thesis
  proof (cases "env_Frame env = InterruptFrame")
    case True
    with b1 have "b1 \<in> set (interruptProcessLoop b)" by simp
    then obtain n where "b1 = b\<lparr>bp_proc := PrCheck, bp_procCh := take n (keep_envs (bp_procCh b))\<rparr>"
      using interrupt_outcome by blast
    then show ?thesis by (simp add: b')
  next
    case False
    then show ?thesis using b1 by (simp add: b')
  qed
qed

lemma input_sys_effort:
  assumes "(evs, b') \<in> set (input_sys h b)"
  shows "bp_cancelling b' = bp_cancelling b \<and> bp_ctxDone b' = bp_ctxDone b
    \<and> (0 < input_effort (bp_input b) \<longrightarrow> effort b' < effort b)"
proof (cases "bp_inputSysCh b")
  case (Cons env rest)
  then have "(evs, b') \<in> set (handleSystem h (b\<lparr>bp_inputSysCh := rest, bp_input := InPriority\<rparr>) env)"
    using assms by (simp add: input_sys_def)
  from handleSystem_effort [OF this] show ?thesis by (auto simp: effort_def Cons)
qed (use assms in \<open>simp add: input_sys_def\<close>)

lemma input_outcome:
  assumes "(evs, b') \<in> set (inputLoop h b)"
  shows "0 < input_effort (bp_input b) \<and> (evs, b') \<in> set (input_exit b) \<union> set (input_sys h b)
    \<or> b' = b\<lparr>bp_input := InFair\<rparr> \<and> \<not> bp_ctxDone b
    \<or> (\<exists>env rest. bp_input b = InFair \<and> b' = b\<lparr>bp_inputDataCh := rest, bp_input := InHolding env\<rparr>)
    \<or> (\<exists>env. bp_input b = InHolding env \<and> b' = b\<lparr>bp_procCh := bp_procCh b @ [env], bp_input := InPriority\<rparr>)"
proof (cases "bp_input b")
  case InPriority
  then show ?thesis using assms by (simp add: inputLoop_def input_exit_def Let_def split: if_splits)
next
  case InFair
  then show ?thesis using assms by (cases "bp_inputDataCh b") (auto simp: inputLoop_def)
next
  case (InHolding env)
  then show ?thesis using assms by (auto simp: inputLoop_def split: if_splits)
qed (use assms in \<open>simp_all add: inputLoop_def\<close>)

lemma process_outcome:
  assumes "(evs, b') \<in> set (processLoop h b)"
  shows "process_effort (bp_proc b') < process_effort (bp_proc b) \<and> bp_inputSysCh b' = bp_inputSysCh b \<and> bp_input b' = bp_input b
      \<and> (bp_cancelling b \<longrightarrow> bp_cancelling b') \<and> (bp_ctxDone b \<longrightarrow> bp_ctxDone b')
      \<and> (bp_cancelling b' \<longrightarrow> bp_cancelling b \<or> bp_ctxDone b')
    \<or> b' = b\<lparr>bp_proc := PrSelect\<rparr> \<and> \<not> bp_ctxDone b"
proof (cases "bp_proc b")
  case PrCheck
  then show ?thesis using assms by (auto simp: processLoop_def split: if_splits)
next
  case PrSelect
  show ?thesis
  proof (cases "bp_procCh b")
    case Nil
    with PrSelect assms show ?thesis by (simp add: processLoop_def split: if_splits)
  next
    case (Cons env rest)
    with PrSelect assms consider "b' = b\<lparr>bp_proc := PrExited\<rparr>" | "b' = snd (process_one h b env rest)"
      by (auto simp: processLoop_def split: if_splits) (metis snd_conv)
    then show ?thesis
    proof cases
      case 1
      then show ?thesis using PrSelect by simp
    next
      case 2
      show ?thesis unfolding 2 using PrSelect
        by (cases "is_end (env_Frame env)") (simp_all add: process_one_def split_beta Let_def)
    qed
  qed
qed (use assms in \<open>simp_all add: processLoop_def\<close>)

lemma input_step_stopped:
  assumes "(evs, b') \<in> set (inputLoop h b)"
  shows "bp_cancelling b' = bp_cancelling b \<and> bp_ctxDone b' = bp_ctxDone b \<and> (bp_ctxDone b \<longrightarrow> effort b' < effort b)"
  using input_outcome [OF assms] input_sys_effort [of evs b' h b]
  by (elim disjE conjE exE) (auto simp: input_exit_def effort_def split: if_splits)

lemma loop_step_stopped:
  assumes "(evs, b') \<in> set (loop_step h l b)"
  shows "bp_cancelling b \<longrightarrow> bp_ctxDone b \<Longrightarrow> bp_cancelling b' \<longrightarrow> bp_ctxDone b'"
    and "stopped b \<Longrightarrow> stopped b' \<and> effort b' < effort b"
proof -
  have "((bp_cancelling b \<longrightarrow> bp_ctxDone b) \<longrightarrow> (bp_cancelling b' \<longrightarrow> bp_ctxDone b'))
      \<and> (stopped b \<longrightarrow> stopped b' \<and> effort b' < effort b)"
  proof (cases l)
    case InputLoop
    with assms input_step_stopped [of evs b' h b] show ?thesis by (simp add: stopped_def)
  next
    case ProcessLoop
    with assms process_outcome [of evs b' h b] show ?thesis by (auto simp: stopped_def effort_def)
  qed
  then show "bp_cancelling b \<longrightarrow> bp_ctxDone b \<Longrightarrow> bp_cancelling b' \<longrightarrow> bp_ctxDone b'"
    and "stopped b \<Longrightarrow> stopped b' \<and> effort b' < effort b" by auto
qed

lemma stopped_not_stuck:
  assumes "stopped b" and "loops_alive b \<noteq> 0"
  shows "\<exists>l. loop_step h l b \<noteq> []"
proof (cases "bp_input b \<notin> {InNotStarted, InExited}")
  case True
  then have "inputLoop h b \<noteq> []" using assms(1)
    by (auto simp: inputLoop_def input_exit_def stopped_def Let_def split: input_pc.splits)
  then show ?thesis using loop_step.simps(1) by metis
next
  case False
  then have "processLoop h b \<noteq> []" using assms
    by (auto simp: processLoop_def stopped_def loops_alive_def split: proc_pc.splits if_splits)
  then show ?thesis using loop_step.simps(2) by metis
qed

lemma pipeline_run_append:
  "pipeline_run hs (xs @ ys) bs = (case pipeline_run hs xs bs of None \<Rightarrow> None | Some bs' \<Rightarrow> pipeline_run hs ys bs')"
  by (induction hs xs bs rule: pipeline_run.induct) auto

lemma sum_list_update_less:
  fixes f :: "'a \<Rightarrow> nat"
  assumes "i < length xs" and "f y < f (xs ! i)"
  shows "sum_list (map f (xs[i := y])) < sum_list (map f xs)"
  using assms by (induction xs arbitrary: i) (auto simp: nth_Cons split: nat.splits)

lemma pipeline_run_effort:
  assumes "pipeline_run hs steps bs = Some bs'" and "list_all stopped bs"
  shows "list_all stopped bs' \<and> length bs' = length bs \<and> length steps + sum_list (map effort bs') \<le> sum_list (map effort bs)"
  using assms
proof (induction hs steps bs rule: pipeline_run.induct)
  case (2 hs i l k steps bs)
  let ?b = "snd (loop_step (hs i) l (bs ! i) ! k)"
  from 2(2) have i: "i < length bs" and k: "k < length (loop_step (hs i) l (bs ! i))"
    and run: "pipeline_run hs steps (bs[i := ?b]) = Some bs'" by (auto split: if_splits)
  have "(fst (loop_step (hs i) l (bs ! i) ! k), ?b) \<in> set (loop_step (hs i) l (bs ! i))"
    using k by simp
  then have b: "stopped ?b \<and> effort ?b < effort (bs ! i)"
    by (rule loop_step_stopped(2)) (use 2(3) i in \<open>simp add: list_all_length\<close>)
  then have all: "list_all stopped (bs[i := ?b])"
    using 2(3) i by (simp add: list_all_length nth_list_update)
  have less: "sum_list (map effort (bs[i := ?b])) < sum_list (map effort bs)"
    using sum_list_update_less [of i bs effort ?b] i b by simp
  show ?case
    using 2(1) [OF _ run all] i k less by fastforce
qed auto

lemma cancelling_done: "bp_run h b tr \<Longrightarrow> bp_cancelling b \<longrightarrow> bp_ctxDone b"
proof (induction rule: bp_run.induct)
  case (step b tr evs b')
  from step(2) show ?case
  proof cases
    case input
    with step(3) loop_step_stopped(1) [of evs b' h InputLoop b] show ?thesis by simp
  next
    case process
    with step(3) loop_step_stopped(1) [of evs b' h ProcessLoop b] show ?thesis by simp
  qed (use step(3) in \<open>auto simp: QueueFrame_def Start_def startProcessLoop_def Stop_def Let_def split: if_splits\<close>)
qed (simp add: NewBaseProcessor_def)

lemma Stop_stopped:
  assumes "bp_run h b tr"
  shows "stopped (Stop b)" and "effort (Stop b) \<le> 37"
proof -
  show "stopped (Stop b)" using cancelling_done [OF assms] by (simp add: Stop_def stopped_def)
  have "length (bp_inputSysCh b) \<le> 16"
    using run_inv [OF assms] by (simp add: bp_inv_def bp_bounds_def inputSysChCapacity_def)
  moreover have "input_effort (bp_input b) \<le> 3" by (cases "bp_input b") auto
  ultimately show "effort (Stop b) \<le> 37"
    using process_effort_le [of "bp_proc b"] by (simp add: Stop_def effort_def)
qed

lemma stopped_queue: "stopped b \<Longrightarrow> QueueFrame b f d = [([], b)]"
  by (simp add: stopped_def QueueFrame_def)

lemma alive_step:
  assumes "list_all stopped bs" and "sum_list (map loops_alive bs) \<noteq> 0"
  shows "\<exists>step. pipeline_run hs [step] bs \<noteq> None"
proof -
  obtain i where i: "i < length bs" and "loops_alive (bs ! i) \<noteq> 0"
    using assms(2) by (auto simp: in_set_conv_nth)
  then obtain l where "loop_step (hs i) l (bs ! i) \<noteq> []"
    using assms(1) stopped_not_stuck [of "bs ! i" "hs i"] by (auto simp: list_all_length)
  then have "pipeline_run hs [(i, l, 0)] bs \<noteq> None" using i by simp
  then show ?thesis by blast
qed



section \<open>The counter and the dump\<close>

text \<open>
  The counter is the number of counted goroutines that are alive, whoever starts and ends them, so a
  goroutine started by a plain \<open>go\<close> statement, as the cleanup is, never waits for itself.
\<close>

definition tracker_ok :: "tracker \<Rightarrow> bool" where
  "tracker_ok t \<longleftrightarrow> distinct (map fst (tk_live t)) \<and> tk_counter t = length (filter snd (tk_live t))"

lemma filter_distinct_key:
  "distinct (map fst kvs) \<Longrightarrow> map_of kvs n = Some c \<Longrightarrow>
    length (filter snd kvs) = length (filter snd (filter (\<lambda>kv. fst kv \<noteq> n) kvs)) + of_bool c"
proof (induction kvs)
  case (Cons kv kvs)
  show ?case
  proof (cases "fst kv = n")
    case True
    then have "filter (\<lambda>kv. fst kv \<noteq> n) kvs = kvs" using Cons.prems(1) by (auto simp: filter_id_conv image_iff)
    then show ?thesis using Cons.prems(2) True by auto
  next
    case False
    then show ?thesis using Cons by auto
  qed
qed simp

lemma go_step_ok: "tracker_ok t \<Longrightarrow> tracker_ok (go_step ev t)"
proof (cases ev)
  case (Returns n)
  assume "tracker_ok t"
  with Returns filter_distinct_key [of "tk_live t" n] show ?thesis
    by (auto simp: tracker_ok_def goroutine_returns_def distinct_map_filter split: option.splits)
qed (auto simp: tracker_ok_def Go_def go_plain_def daily_goTracked_def livekit_goTracked_def)

lemma tracker_counts: "tracker_ok (fold go_step evs no_goroutines)"
proof -
  have "tracker_ok t \<Longrightarrow> tracker_ok (fold go_step evs t)" for t
    by (induction evs arbitrary: t) (auto simp: go_step_ok)
  then show ?thesis by (simp add: tracker_ok_def no_goroutines_def)
qed

lemma cleanup_not_counted:
  assumes "tk_live (fold go_step evs no_goroutines) = [(cleanup, False)]"
  shows "AllExited \<in> set (await_processors elapsed dump (tk_counter (fold go_step evs no_goroutines)))"
  using tracker_counts [of evs] by (simp add: tracker_ok_def assms await_processors_def)

lemma counted_waits_for_itself:
  assumes "(cleanup, True) \<in> set (tk_live (fold go_step evs no_goroutines))"
  shows "AllExited \<notin> set (await_processors elapsed dump (tk_counter (fold go_step evs no_goroutines)))"
  using tracker_counts [of evs] assms by (auto simp: tracker_ok_def await_processors_def filter_empty_conv intro: bexI [of _ "(cleanup, True)"])

text \<open>The dump is a prefix of one of at most eight dumps, and all of it unless it reaches 8 MiB.\<close>

lemma stacks_from_prefix:
  "i \<le> 7 \<Longrightarrow> \<exists>j \<in> {i..7}. stacks_from dump i = take (stack_buffer j) (dump j)
     \<and> (\<forall>k \<in> {i..<j}. stack_buffer k \<le> length (dump k)) \<and> (length (dump j) < stack_buffer j \<or> j = 7)"
proof (induction "7 - i" arbitrary: i)
  case 0
  then have "i = 7" by simp
  then show ?case
    by (intro bexI [of _ 7]) (auto simp: stacks_from.simps [of dump 7] Let_def stack_buffer_def min_def)
next
  case (Suc m)
  show ?case
  proof (cases "length (dump i) < stack_buffer i")
    case True
    then show ?thesis
      by (intro bexI [of _ i]) (use Suc in \<open>auto simp: stacks_from.simps [of dump i] Let_def\<close>)
  next
    case False
    have "i < 7" using Suc(2) by simp
    then have rec: "stacks_from dump i = stacks_from dump (i + 1)"
      using False stack_buffer_below [of i] by (simp add: stacks_from.simps [of dump i] Let_def)
    from Suc(2) have "m = 7 - (i + 1)" and "i + 1 \<le> 7" by auto
    from Suc(1) [OF this] obtain j where j: "j \<in> {i + 1..7}"
      and sj: "stacks_from dump (i + 1) = take (stack_buffer j) (dump j)"
      and below: "\<forall>k \<in> {i + 1..<j}. stack_buffer k \<le> length (dump k)"
      and last: "length (dump j) < stack_buffer j \<or> j = 7" by blast
    have "\<forall>k \<in> {i..<j}. stack_buffer k \<le> length (dump k)"
    proof
      fix k assume "k \<in> {i..<j}"
      then show "stack_buffer k \<le> length (dump k)" using below False by (cases "k = i") auto
    qed
    with j sj last show ?thesis by (intro bexI [of _ j]) (auto simp: rec)
  qed
qed

lemma captured_stacks:
  shows "length (captureGoroutineStacks dump) \<le> 8 * 1024 * 1024"
    and "(\<And>i. dump i = d) \<Longrightarrow> length d < 8 * 1024 * 1024 \<Longrightarrow> captureGoroutineStacks dump = d"
proof -
  obtain j where j: "j \<le> 7" and dump_j: "captureGoroutineStacks dump = take (stack_buffer j) (dump j)"
    and last: "length (dump j) < stack_buffer j \<or> j = 7"
    using stacks_from_prefix [of 0 dump] by (auto simp: captureGoroutineStacks_def)
  have top: "stack_buffer j \<le> stack_buffer 7" using power_increasing [OF j, of "2 :: nat"] by (simp add: stack_buffer_def)
  then show "length (captureGoroutineStacks dump) \<le> 8 * 1024 * 1024"
    by (auto simp: dump_j stack_buffer_def)
  show "(\<And>i. dump i = d) \<Longrightarrow> length d < 8 * 1024 * 1024 \<Longrightarrow> captureGoroutineStacks dump = d"
    using last by (auto simp: dump_j stack_buffer_def)
qed

text \<open>How many goroutines the wait is for, when a call of each kind has been started.\<close>

lemma started_goroutines:
  "length (snd (task_Start (pipeline_of SalesCallBot))) = 28"
  "length (snd (task_Start (pipeline_of FollowUpBot))) = 25"
  "distinct (snd (task_Start (pipeline_of kind)))"
  by (cases kind; simp add: task_Start_def processor_Start_defs pipeline_of_def)+

end
