(* ===== verification/Server.thy ===== *)
theory Server
  imports Bots S3
begin

text \<open>
  The process around the worker: \<open>main.go\<close>, the routes of \<open>worker_api.go\<close>, the pod's credentials
  (\<open>disha/gke_pod.go\<close>), profiling (\<open>pyroscope.go\<close>, \<open>internal/perfdiag\<close>) and error reports
  (\<open>internal/sentryutil\<close>); and a bot of the worker with the task it really builds. The environment gives a
  variable's value or tells that it is not set; files, look-ups and the outcome of calls are arguments.
\<close>

section \<open>Settings of the process\<close>

type_synonym environment = "string \<Rightarrow> string option"

definition getenv_of :: "environment \<Rightarrow> string \<Rightarrow> string" where
  "getenv_of env k = (case env k of None \<Rightarrow> [] | Some v \<Rightarrow> v)"

definition perfdiag_Enabled :: "environment \<Rightarrow> bool" where
  "perfdiag_Enabled env =
     (case env ''PERF_DIAGNOSTICS_ENABLED'' of
        Some v \<Rightarrow> trim_space v = ''1''
      | None \<Rightarrow> trim_space (getenv_of env ''PYROSCOPE_ENABLED'') = ''1'')"

definition pyroscopeEnv :: "environment \<Rightarrow> string" where
  "pyroscopeEnv env =
     firstNonEmpty [getenv_of env ''PYROSCOPE_ENVIRONMENT'', getenv_of env ''ENVIRONMENT'', getenv_of env ''SENTRY_ENVIRONMENT'']"

record pyroscope_config =
  py_ApplicationName :: string
  py_ServerAddress :: string
  py_BasicAuthUser :: string
  py_BasicAuthPassword :: string
  py_TenantID :: string
  py_Tags :: "(string \<times> string) list"

text \<open>The configuration with which the profiler is started, if it is.\<close>

definition startPyroscopeIfEnabled :: "environment \<Rightarrow> pyroscope_config option" where
  "startPyroscopeIfEnabled env =
     (let get = (\<lambda>k. trim_space (getenv_of env k));
          serverAddress = get ''PYROSCOPE_SERVER_ADDRESS''; user = get ''PYROSCOPE_BASIC_AUTH_USER'';
          password = get ''PYROSCOPE_BASIC_AUTH_PASSWORD''; name = get ''PYROSCOPE_GO_APPLICATION_NAME''
      in if \<not> perfdiag_Enabled env \<or> serverAddress = [] \<or> user = [] \<or> password = [] then None
         else Some
           \<lparr>py_ApplicationName = (if name = [] then ''talk-go.worker.go'' else name), py_ServerAddress = serverAddress,
            py_BasicAuthUser = user, py_BasicAuthPassword = password, py_TenantID = get ''PYROSCOPE_TENANT_ID'',
            py_Tags = filter (\<lambda>kv. trim_space (snd kv) \<noteq> [])
              [(''environment'', pyroscopeEnv env), (''deployment'', get ''GKE_DEPLOYMENT_NAME''), (''pod'', get ''HOSTNAME''),
               (''node'', get ''NODE_NAME''), (''process'', ''go-worker''), (''language'', ''go'')]\<rparr>)"

record sentry_event =
  sn_Err :: "string option"
  sn_Message :: string
  sn_Tags :: "(string \<times> string) list"
  sn_Details :: "(string \<times> json) list"

datatype sentry_report =
    CaptureException string "(string \<times> string) list" "(string \<times> json) list"
  | CaptureMessage string "(string \<times> string) list" "(string \<times> json) list"

definition Capture :: "sentry_event \<Rightarrow> sentry_report option" where
  "Capture ev =
     (case sn_Err ev of
        Some e \<Rightarrow> Some (CaptureException e (sn_Tags ev) (sn_Details ev))
      | None \<Rightarrow> if trim_space (sn_Message ev) = [] then None
                else Some (CaptureMessage (sn_Message ev) (sn_Tags ev) (sn_Details ev)))"

section \<open>The pod\<close>

text \<open>The credentials of the pod: \<open>read_file\<close> gives a file, \<open>pem_ok\<close> tells whether a certificate can be parsed.\<close>

definition NewGKEPodPatcher :: "(string \<Rightarrow> string) \<Rightarrow> (string \<Rightarrow> string option) \<Rightarrow> (string \<Rightarrow> bool)
    \<Rightarrow> (string \<times> string \<times> string) option" where
  "NewGKEPodPatcher getenv read_file pem_ok =
     (let dir0 = trim_space (getenv ''KUBERNETES_SERVICE_ACCOUNT_DIR'');
          saDir = (if dir0 = [] then ''/var/run/secrets/kubernetes.io/serviceaccount'' else dir0)
      in case (read_file (saDir @ ''/token''), read_file (saDir @ ''/ca.crt'')) of
           (Some token, Some caBytes) \<Rightarrow>
             (let named = trim_space (getenv ''POD_NAMESPACE'');
                  namespace = (if named \<noteq> [] then named
                               else case read_file (saDir @ ''/namespace'') of None \<Rightarrow> [] | Some d \<Rightarrow> trim_space d);
                  host = trim_space (getenv ''KUBERNETES_SERVICE_HOST''); port = trim_space (getenv ''KUBERNETES_SERVICE_PORT'')
              in if namespace = [] \<or> host = [] \<or> port = [] \<or> \<not> pem_ok caBytes then None
                 else Some (''https://'' @ host @ '':'' @ port, namespace, trim_space token))
         | _ \<Rightarrow> None)"

text \<open>An address that has a form of four bytes, and its text.\<close>

type_synonym ipv4 = "byte \<times> byte \<times> byte \<times> byte"

definition ip_string :: "ipv4 \<Rightarrow> string" where
  "ip_string ip = (case ip of (a, b, c, d) \<Rightarrow> join_with ''.'' (map (\<lambda>x. nat_str (unat x)) [a, b, c, d]))"

definition is_loopback :: "ipv4 \<Rightarrow> bool" where
  "is_loopback ip = (fst ip = 127)"

fun first_address :: "ipv4 option list \<Rightarrow> string option" where
  "first_address [] = None"
| "first_address (None # ips) = first_address ips"
| "first_address (Some ip # ips) = (if is_loopback ip then first_address ips else Some (ip_string ip))"

text \<open>The host's name, what it resolves to, and the addresses of the interfaces, each as four bytes if it has them.\<close>

definition detectPodIP :: "string option \<Rightarrow> (string \<Rightarrow> ipv4 option list option) \<Rightarrow> string + ipv4 option list \<Rightarrow> string + string" where
  "detectPodIP hostname lookup interfaces =
     (case (case hostname of
              None \<Rightarrow> None
            | Some h \<Rightarrow> if h = [] then None else Option.bind (lookup h) first_address) of
        Some ip \<Rightarrow> Inr ip
      | None \<Rightarrow>
          (case interfaces of
             Inl e \<Rightarrow> Inl e
           | Inr addrs \<Rightarrow> (case first_address addrs of Some ip \<Rightarrow> Inr ip | None \<Rightarrow> Inl ''no non-loopback pod IP found'')))"

datatype registered = FatalConfig string | FatalRegistration lifecycle_error | NotConfigured | RegisteredAs registration

definition registerWorkerPodIfConfigured :: "(string \<Rightarrow> string) \<Rightarrow> string + string \<Rightarrow> network \<Rightarrow> network \<Rightarrow> api_world
    \<Rightarrow> redis_server \<Rightarrow> redis_server \<times> api_request list \<times> registered" where
  "registerWorkerPodIfConfigured getenv detected wget wset api s =
     (case workerPodRegistrationFromEnv getenv detected of
        Inl e \<Rightarrow> (s, [], FatalConfig e)
      | Inr None \<Rightarrow> (s, [], NotConfigured)
      | Inr (Some reg) \<Rightarrow>
          (case RegisterWorkerPod wget wset api s reg of
             (s', rs, Some e) \<Rightarrow> (s', rs, FatalRegistration e)
           | (s', rs, None) \<Rightarrow> (s', rs, RegisteredAs reg)))"

section \<open>The dependencies of the bots\<close>

record deps =
  dp_RedisAddr :: string
  dp_RedisPassword :: string
  dp_RedisDB :: int
  dp_APIURL :: string
  dp_Documents :: "jinja_renderer document_store"
  dp_PhoneticDict :: "phonetic_dict option"
  dp_S3 :: "s3_uploader option"
  dp_GKEPatcher :: "(string \<times> string \<times> string) option"

definition newDishaDeps :: "(string \<Rightarrow> string) \<Rightarrow> (string \<Rightarrow> string option) \<Rightarrow> (string \<Rightarrow> bool) \<Rightarrow> deps" where
  "newDishaDeps getenv read_file pem_ok =
     \<lparr>dp_RedisAddr = getenv ''DISHA_REDIS_URL'', dp_RedisPassword = getenv ''DISHA_REDIS_PASSWORD'',
      dp_RedisDB = redisDBFromEnv getenv,
      dp_APIURL = api_base_url (firstNonEmpty [getenv ''DISHA_API_URL'', getenv ''API_BASE_URL'']),
      dp_Documents = NewDocumentStore getenv,
      dp_PhoneticDict = NewPhoneticDictFromEnv getenv (NewS3GetClientFromEnv getenv ''AWS_US_BUCKET_NAME'' ''AWS_US_REGION'' \<noteq> None),
      dp_S3 = NewS3GetClientFromEnv getenv ''AWS_BUCKET_NAME'' ''AWS_MAIN_REGION'',
      dp_GKEPatcher = NewGKEPodPatcher getenv read_file pem_ok\<rparr>"

section \<open>Routes\<close>

datatype route =
    CreateWorkerRoom | HasActiveSession | HealthCheck | ReadinessCheck | MarkMachineReserved | TriggerExit

definition routes :: "(string \<times> string \<times> route) list" where
  "routes =
     [(''/bot/create_worker_room'', ''POST'', CreateWorkerRoom), (''/bot/has_active_session'', ''GET'', HasActiveSession),
      (''/bot/health_check'', ''GET'', HealthCheck), (''/bot/readiness_check'', ''GET'', ReadinessCheck),
      (''/bot/pre_stop_check'', ''GET'', HealthCheck), (''/bot/mark_machine_reserved'', ''POST'', MarkMachineReserved),
      (''/bot/trigger_exit'', ''POST'', TriggerExit)]"

text \<open>The file a path serves.\<close>

definition static_file :: "string \<Rightarrow> string option" where
  "static_file path =
     (if path \<in> {''/'', ''/daily-client.html''} then Some ''daily-client.html''
      else if path \<in> {''/livekit-client.html'', ''/LiveKitClient.html'', ''/LifeKitClient.html''} then Some ''livekit-client.html''
      else None)"

text \<open>A handler's reply, and whether it ends the process.\<close>

definition run_route :: "pod \<Rightarrow> bool \<Rightarrow> (string \<Rightarrow> room_request option) \<Rightarrow> string \<Rightarrow> route \<Rightarrow> server \<Rightarrow> server \<times> http_reply \<times> bool" where
  "run_route p applied decode body r sv =
     (case r of
        CreateWorkerRoom \<Rightarrow> (let (sv', reply) = create_room decode body sv in (sv', reply, False))
      | HasActiveSession \<Rightarrow> (sv, handleHasActiveSession (sv_worker sv), False)
      | HealthCheck \<Rightarrow> (sv, handleHealthCheck, False)
      | ReadinessCheck \<Rightarrow> (sv, handleReadinessCheck (sv_worker sv), False)
      | MarkMachineReserved \<Rightarrow> (let (sv', reply) = mark_reserved p applied sv in (sv', reply, False))
      | TriggerExit \<Rightarrow> (sv, Json 200 (JObj [(''status'', JStr ''success'')]), True))"

definition requireMethod :: "string \<Rightarrow> string \<Rightarrow> (server \<Rightarrow> server \<times> http_reply \<times> bool) \<Rightarrow> server \<Rightarrow> server \<times> http_reply \<times> bool" where
  "requireMethod expected given handler sv = (if given \<noteq> expected then (sv, Bare 405, False) else handler sv)"

text \<open>One request; \<open>file\<close> is what the file server answers for a file.\<close>

definition serve :: "pod \<Rightarrow> bool \<Rightarrow> (string \<Rightarrow> room_request option) \<Rightarrow> (string \<Rightarrow> http_reply) \<Rightarrow> string \<Rightarrow> string \<Rightarrow> string
    \<Rightarrow> server \<Rightarrow> server \<times> http_reply \<times> bool" where
  "serve p applied decode file verb path body sv =
     (case map_of routes path of
        Some (expected, r) \<Rightarrow> requireMethod expected verb (run_route p applied decode body r) sv
      | None \<Rightarrow> (sv, case static_file path of Some f \<Rightarrow> file f | None \<Rightarrow> Text 404 ''404 page not found'', False))"

text \<open>Only a POST to two of the paths changes the server, and only one path ends the process.\<close>

lemma serve_keeps:
  assumes "serve p applied decode file verb path body sv = (sv', reply, exits)"
  shows "sv' \<noteq> sv \<Longrightarrow> verb = ''POST'' \<and> path \<in> {''/bot/create_worker_room'', ''/bot/mark_machine_reserved''}"
    and "exits \<longleftrightarrow> verb = ''POST'' \<and> path = ''/bot/trigger_exit''"
proof -
  show "sv' \<noteq> sv \<Longrightarrow> verb = ''POST'' \<and> path \<in> {''/bot/create_worker_room'', ''/bot/mark_machine_reserved''}"
    using assms by (auto simp: serve_def routes_def requireMethod_def run_route_def split: if_splits option.splits)
  show "exits \<longleftrightarrow> verb = ''POST'' \<and> path = ''/bot/trigger_exit''"
    using assms by (auto simp: serve_def routes_def requireMethod_def run_route_def split: if_splits option.splits prod.splits)
qed

section \<open>The life of the process\<close>

text \<open>
  The end of \<open>main\<close>: the listener has returned, with an error or without, and the deferred calls run.
  Before that, an unreadable environment file and a failed registration end the process on the spot.
\<close>

definition main_end :: "(string \<Rightarrow> string) \<Rightarrow> string option \<Rightarrow> process \<Rightarrow> process \<times> process_effect list" where
  "main_end getenv listenErr p =
     (let p1 = (if listenErr = None then p\<lparr>pc_gracefulShutdownCompleted := True\<rparr> else p);
          (p2, es) = reportAbruptShutdownOnExit getenv p1
      in (p2, es @ (if listenErr = None then [] else [ExitProcess 1])))"

definition main_run :: "(string \<Rightarrow> string) \<Rightarrow> bool \<Rightarrow> registered \<Rightarrow> string option \<Rightarrow> process \<Rightarrow> process \<times> process_effect list" where
  "main_run getenv unreadable reg listenErr p =
     (if unreadable then (p, [ExitProcess 1])
      else case reg of
             FatalConfig e \<Rightarrow> (p, [ExitProcess 1])
           | FatalRegistration e \<Rightarrow> (p, [ExitProcess 1])
           | _ \<Rightarrow> main_end getenv listenErr p)"

text \<open>An abrupt kill is reported exactly when the listener fails before any signal, never by a kill.\<close>

lemma abrupt_report:
  "list_ex (\<lambda>e. case e of Report m \<Rightarrow> True | _ \<Rightarrow> False) (snd (main_run getenv unreadable reg listenErr p)) \<longleftrightarrow>
     \<not> unreadable \<and> (\<nexists>e. reg = FatalConfig e) \<and> (\<nexists>e. reg = FatalRegistration e)
     \<and> listenErr \<noteq> None \<and> \<not> pc_gracefulShutdownCompleted p \<and> \<not> pc_abruptShutdownReported p"
  by (auto simp: main_run_def main_end_def reportAbruptShutdownOnExit_def Let_def split: registered.split)

section \<open>A bot and its task\<close>

definition launch_request :: "room_request \<Rightarrow> string \<Rightarrow> bot_task_request" where
  "launch_request r botToken =
     \<lparr>btr_ConversationID = rq_ConversationID r, btr_RoomURL = rq_RoomURL r, btr_RoomName = rq_RoomName r,
      btr_RoomToken = botToken\<rparr>"

text \<open>The task of the worker is the one \<open>BuildTask\<close> makes; the error's text is only logged.\<close>

definition bot_build :: "'r build_world \<Rightarrow> 'r document_store option \<Rightarrow> bot_kind \<Rightarrow> room_request \<Rightarrow> string \<Rightarrow> string + string" where
  "bot_build w store kind r botToken =
     (case snd (snd (NewBotTask kind w (launch_request r botToken) store)) of
        Built b \<Rightarrow> Inr (pt_SessionID (bd_task b)) | _ \<Rightarrow> Inl [])"

lemma settle_session [simp]: "pt_SessionID (settle now e t) = pt_SessionID t"
proof -
  have "pt_SessionID (fold (\<lambda>e t. case e of Fire ev \<Rightarrow> t\<lparr>pt_callEvents := fire ev (pt_callEvents t)\<rparr> | _ \<Rightarrow> t) es t)
      = pt_SessionID t" for es and t :: pipeline_task
    by (induction es arbitrary: t) (auto split: effect.split)
  then show ?thesis by (cases "(now, e, t)" rule: settle.cases) (auto split: prod.splits)
qed

lemma settle_all_session [simp]: "pt_SessionID (settle_all now es t) = pt_SessionID t"
proof -
  have "pt_SessionID (fold (settle now) es t) = pt_SessionID t" by (induction es arbitrary: t) simp_all
  then show ?thesis by (simp add: settle_all_def)
qed

lemma plan_session:
  "plan kind w cid store = (store1, Inr pl) \<Longrightarrow> su_ConversationID (bp_Startup pl) = cid \<and> cid \<noteq> []"
  by (cases kind)
    (auto simp: plan_def sales_plan_def followup_plan_def collectCallStartup_def Let_def
      split: sum.splits prod.splits if_splits conversation_load.splits)

lemma built_session:
  assumes "BuildTask kind w req store = (store1, es, Built b)"
  shows "pt_SessionID (bd_task b) = btr_ConversationID req"
proof -
  obtain pl where "plan kind w (btr_ConversationID req) store = (store1, Inr pl)"
    and "\<exists>t. NewPipelineTask (bw_random w) (task_config_of pl) = Inr t \<and> pt_SessionID (bd_task b) = pt_SessionID t"
    using assms by (auto simp: BuildTask_def assemble_def Let_def split: prod.splits sum.splits if_splits)
  then show ?thesis using plan_session [of kind w "btr_ConversationID req" store store1 pl]
    by (auto simp: NewPipelineTask_def task_config_of_def)
qed

lemma build_rooms:
  assumes "BuildTask kind w req store = (store1, es, outcome)"
  shows "case outcome of
      Built b \<Rightarrow> open_rooms (isDailyRoomURL (bw_host_of w) (btr_RoomURL req)) es = 1
    | BuildFailed e aborted \<Rightarrow> open_rooms (isDailyRoomURL (bw_host_of w) (btr_RoomURL req)) es = 0
    | Crashed \<Rightarrow> True"
  using build_leaves_nothing_main [where kind = kind and w = w and req = req and store = store]
  unfolding assms by (simp split: build_outcome.splits)

lemma accepted_fields:
  assumes "decodeJSONRequest decode body = Inr r"
  shows "rq_RoomURL r \<noteq> [] \<and> rq_ConversationID r \<noteq> [] \<and> rq_BotToken r \<noteq> [] \<and> rq_BotWorkerType r \<noteq> []"
proof -
  obtain r0 where r: "r = normalize_request r0" "validate r = None"
    using assms by (auto simp: decodeJSONRequest_def Let_def split: option.splits)
  then have "trim_space (rq_RoomURL r) \<noteq> []" "trim_space (rq_ConversationID r) \<noteq> []"
    "trim_space (rq_BotWorkerType r) \<noteq> []" "trim_space (rq_Token r) \<noteq> []"
    by (auto simp: validate_def requireFields_def Let_def split: if_splits)
  then have "rq_RoomURL r \<noteq> []" "rq_ConversationID r \<noteq> []" "rq_BotWorkerType r \<noteq> []" "rq_Token r \<noteq> []"
    by auto
  moreover from this(4) have "rq_BotToken r \<noteq> []" by (auto simp: r(1) normalize_request_def Let_def)
  ultimately show ?thesis by blast
qed

text \<open>The request of a granted launch reaches the build as it came.\<close>

lemma buildBotTask_accepted:
  assumes "decodeJSONRequest decode body = Inr r" and "NewBot (rq_BotWorkerType r) = Inr kind"
  shows "buildBotTask build r = build kind r (rq_BotToken r)"
  using accepted_fields [OF assms(1)] assms(2) by (simp add: buildBotTask_def Let_def)

lemma only_holder:
  assumes "reachable p sv" and "i < length (sv_bots sv)" and "holding (sv_bots sv ! i)"
  shows "held_by sv (sv_bots sv ! i)"
proof -
  have b: "sv_bots sv ! i \<in> set (filter holding (sv_bots sv))" using assms(2,3) by simp
  from reachable_ok [OF assms(1)] show ?thesis unfolding server_ok_cases
  proof (elim disjE conjE exE)
    assume "filter holding (sv_bots sv) = []"
    then show ?thesis using b by simp
  next
    fix c assume c: "filter holding (sv_bots sv) = [c]" "held_by sv c"
    then have "sv_bots sv ! i = c" using b unfolding c(1) by simp
    then show ?thesis using c(2) by simp
  qed
qed

text \<open>Two more steps of a bot whose call is over give the worker back.\<close>

lemma ended_gives_back:
  assumes "i < length (sv_bots sv)" and "bt_phase (sv_bots sv ! i) = Ended"
  shows "\<exists>sv'. run_bots p [(b1, a1, i), (b2, a2, i)] sv = Some sv' \<and> \<not> wr_active (sv_worker sv')"
  using assms by (auto simp: advance_def bot_step_def finish_def)

text \<open>
  C2: a granted request ends as a running call or leaves the worker free. When the bot of a reachable server
  has pinned the pod and builds its task, from the request as the server accepted it, then either exactly
  one room is open, the task is registered under the request's conversation, and that is the
  conversation the worker runs; or no room is open, no session is registered, and two more steps of the
  bot make the worker free again, whatever they meet. (A crash of the process in between is
  neither.)
\<close>

theorem launch_exact:
  fixes p sv i w store applied kind outcome es store1
  defines "req \<equiv> bt_req (sv_bots sv ! i)" and "sv' \<equiv> advance p (bot_build w store) applied i sv"
  assumes "reachable p sv" and "i < length (sv_bots sv)" and "bt_phase (sv_bots sv ! i) = Pinned"
    and "decodeJSONRequest decode body = Inr req" and "NewBot (rq_BotWorkerType req) = Inr kind"
    and "BuildTask kind w (launch_request req (rq_BotToken req)) store = (store1, es, outcome)" and "outcome \<noteq> Crashed"
  shows "case outcome of
      Built b \<Rightarrow> open_rooms (isDailyRoomURL (bw_host_of w) (rq_RoomURL req)) es = 1
        \<and> sv_sessions sv' = [rq_ConversationID req] \<and> wr_active (sv_worker sv')
        \<and> wr_activeConversationID (sv_worker sv') = rq_ConversationID req
    | _ \<Rightarrow> open_rooms (isDailyRoomURL (bw_host_of w) (rq_RoomURL req)) es = 0
        \<and> sv_sessions sv' = []
        \<and> (\<exists>sv''. run_bots p [(build1, applied1, i), (build2, applied2, i)] sv' = Some sv'' \<and> \<not> wr_active (sv_worker sv''))"
proof -
  let ?b = "sv_bots sv ! i"
  have held: "held_by sv ?b" using only_holder [OF assms(3,4)] assms(5) by (simp add: holding_def)
  have url: "btr_RoomURL (launch_request req (rq_BotToken req)) = rq_RoomURL req"
    "btr_ConversationID (launch_request req (rq_BotToken req)) = rq_ConversationID req" by (simp_all add: launch_request_def)
  have build: "buildBotTask (bot_build w store) (bt_req ?b) = bot_build w store kind req (rq_BotToken req)"
    using buildBotTask_accepted [OF assms(6,7)] by (simp add: req_def)
  note rooms = build_rooms [OF assms(8), unfolded url]
  show ?thesis
  proof (cases outcome)
    case (Built bd)
    then have "bot_build w store kind req (rq_BotToken req) = Inr (rq_ConversationID req)"
      using built_session [OF assms(8) [unfolded Built]] assms(8) by (simp add: bot_build_def url)
    then have "sv' = sv\<lparr>sv_sessions := registerTask (rq_ConversationID req) (sv_sessions sv),
        sv_bots := (sv_bots sv)[i := ?b\<lparr>bt_phase := Registered (rq_ConversationID req)\<rparr>]\<rparr>"
      using build assms(5) by (simp add: sv'_def advance_def bot_step_def)
    moreover have "open_rooms (isDailyRoomURL (bw_host_of w) (rq_RoomURL req)) es = 1"
      using rooms by (simp add: Built)
    ultimately show ?thesis using held assms(5) Built
      by (simp add: held_by_def registerTask_def req_def)
  next
    case (BuildFailed e aborted)
    then have "bot_build w store kind req (rq_BotToken req) = Inl []"
      using assms(8) by (simp add: bot_build_def)
    then have sv': "sv' = sv\<lparr>sv_bots := (sv_bots sv)[i := ?b\<lparr>bt_phase := Ended\<rparr>]\<rparr>"
      using build assms(5) by (simp add: sv'_def advance_def bot_step_def)
    have "i < length (sv_bots sv')" "bt_phase (sv_bots sv' ! i) = Ended" using assms(4) by (simp_all add: sv')
    note given_back = ended_gives_back [OF this, of p build1 applied1 build2 applied2]
    have "open_rooms (isDailyRoomURL (bw_host_of w) (rq_RoomURL req)) es = 0"
      using rooms by (simp add: BuildFailed)
    moreover have "sv_sessions sv' = []" using held assms(5) by (simp add: held_by_def sv')
    ultimately show ?thesis using given_back BuildFailed by simp
  next
    case Crashed
    then show ?thesis using assms(9) by simp
  qed
qed

definition wit_launch :: room_request where
  "wit_launch = \<lparr>rq_RoomURL = ''wss://x'', rq_RoomName = ''r'', rq_BotToken = ''t'', rq_Token = ''t'',
     rq_ConversationID = ''c'', rq_BotWorkerType = ''sales_call''\<rparr>"

definition wit_pinned :: server where
  "wit_pinned = advance wit_pod (\<lambda>k r t. Inl []) True 0 (fst (create_room (\<lambda>b. Some wit_launch) [] new_server))"

lemma wit_pinned_bots: "sv_bots wit_pinned = [\<lparr>bt_req = wit_launch, bt_phase = Pinned, bt_pinned = True\<rparr>]"
  by code_simp

lemma wit_pinned_reachable: "reachable wit_pod wit_pinned"
proof -
  let ?sv = "fst (create_room (\<lambda>b. Some wit_launch) [] new_server)"
  have "0 < length (sv_bots ?sv)" by code_simp
  then have "server_step wit_pod ?sv (Advanced (\<lambda>k r t. Inl []) True 0) wit_pinned"
    unfolding wit_pinned_def by (rule server_step.advanced)
  with reachable.step [OF reachable.start server_step.created] show ?thesis by (rule reachable.step)
qed

lemma wit_launch_accepted: "decodeJSONRequest (\<lambda>b. Some wit_launch) [] = Inr wit_launch"
  "NewBot (rq_BotWorkerType wit_launch) = Inr SalesCallBot" "launch_request wit_launch (rq_BotToken wit_launch) = wit_task_request"
  by code_simp+

theorem launch_exact_witness:
  "sv_sessions (advance wit_pod (bot_build wit_build (Some wit_store)) True 0 wit_pinned) = [''c'']"
proof -
  obtain store1 es where b: "BuildTask SalesCallBot wit_build wit_task_request (Some wit_store) = (store1, es, Built wit_built)"
    by (rule wit_built)
  have "sv_sessions (advance wit_pod (bot_build wit_build (Some wit_store)) True 0 wit_pinned) = [rq_ConversationID wit_launch]"
    using launch_exact [OF wit_pinned_reachable, of 0 "\<lambda>b. Some wit_launch" "[]" SalesCallBot wit_build "Some wit_store"
        store1 es "Built wit_built" True] b
    by (simp add: wit_pinned_bots wit_launch_accepted)
  then show ?thesis by (simp add: wit_launch_def)
qed

end
