(* ===== verification/Spec2Isabelle.thy ===== *)
theory Spec2Isabelle
  imports Prelude GoStrings GoJson GoFloat Frames ToolCalls ContextAgg Processor Idle AudioFmt Source
    Observers Playback Phonetic Tts Llm Pipeline
    Redis LlmGroups Health Providers Router VertexToken Startup Callbacks Worker Lifecycle
    Documents DailyRoom LiveKitRoom Prompts S3 LlmLog Bots ProcUsage Shutdown Server
begin

text \<open>
  A verification library for talk-go, a server of voice calls written in Go. A call is one
  \<open>PipelineTask\<close>: a chain of processors through which frames travel downstream, from the caller's
  audio to the bot's, and upstream. The chain, as \<open>disha/sales_call.go\<close> assembles it, is source,
  audio source, speech-to-text, user idle, context aggregator, talk time, LLM, text-to-speech,
  playback, sink. Around it stand the worker that accepts a call and runs it (\<open>worker_api.go\<close>), the
  router that picks the LLM endpoint of each turn (\<open>llmrouter\<close>), and the conversation store in Redis
  from which a call is resumed and to which it is written (\<open>disha\<close>).

  \<^bold>\<open>Theories and what they model\<close> (paths under \<open>src/voicepipelinecore\<close>):

  \<^item> \<open>Prelude\<close>: Go's integers written out, times and durations, the shared lemma collections, and the
    contract of a one-shot operation.
  \<^item> \<open>GoStrings\<close>, \<open>GoJson\<close>, \<open>GoFloat\<close>: what the code uses of the standard library. Strings are byte
    lists holding UTF-8; JSON values are written out by \<open>json_marshal\<close>, while decoding is a parameter;
    a \<open>float64\<close> is a rational and every operation on it is rounded by \<open>rnd64\<close> to 53 bits, half to even,
    for the normal range.
  \<^item> \<open>Frames\<close> (\<open>frame.go\<close>, \<open>task_types.go\<close>): frames, messages, metrics, directions and the effects of a
    handler; the contracts of an interrupt's purge and of a processor that forwards the end frame.
  \<^item> \<open>ToolCalls\<close> (\<open>tool_calls.go\<close> and the helpers of \<open>llm_processor.go\<close> and \<open>context_aggregator.go\<close>).
  \<^item> \<open>ContextAgg\<close> (\<open>context_aggregator.go\<close>): the history, barge-in, turns.
  \<^item> \<open>Processor\<close> (\<open>processor.go\<close>): the goroutines of \<open>BaseProcessor\<close> and its three channels.
  \<^item> \<open>Idle\<close> (\<open>user_idle_processor.go\<close>, \<open>talktime_monitoring_processor.go\<close>).
  \<^item> \<open>AudioFmt\<close> (\<open>audio_format.go\<close>, \<open>g711.go\<close>, the resampler of \<open>playback_sink_processor.go\<close>).
  \<^item> \<open>Source\<close> (\<open>call_stats_tracker.go\<close>, \<open>audio_source_processor.go\<close>, \<open>stt_processor.go\<close>).
  \<^item> \<open>Observers\<close> (\<open>call_events.go\<close>, \<open>metrics.go\<close>, \<open>ui_events.go\<close>, \<open>debug_logs.go\<close>, \<open>audio_timing.go\<close>).
  \<^item> \<open>Playback\<close> (\<open>playback_sink_processor.go\<close>), \<open>Phonetic\<close> (\<open>phonetic_filter.go\<close>), \<open>Tts\<close>
    (\<open>tts_processor.go\<close>), \<open>Llm\<close> (\<open>llm_processor.go\<close>).
  \<^item> \<open>Pipeline\<close> (\<open>pipeline.go\<close>, \<open>pipeline_edges.go\<close>): linking, the source and the sink, and the life of
    a task.
  \<^item> \<open>DailyRoom\<close> (\<open>daily_room.go\<close>) and \<open>LiveKitRoom\<close> (\<open>livekit_room.go\<close>): the two transports, as the effects
    that what happens in a room has on the call. \<open>ProcUsage\<close> (\<open>process_usage.go\<close>, the log of
    \<open>audio_timing.go\<close>): the measurements of the process.

  Under \<open>disha\<close>, \<open>voicepipelinecore/llmrouter\<close> and at the top of \<open>src\<close>:

  \<^item> \<open>Redis\<close> (\<open>redis_client.go\<close>): the server's keys and lists, the client's operations with their two
    layers of retries, and a network that may lose a request or its reply.
  \<^item> \<open>LlmGroups\<close> (\<open>groups.go\<close>): the endpoints and model groups. \<open>Health\<close> (\<open>health.go\<close>, \<open>selection.go\<close>): the
    health records, blacklisting and the choice of an endpoint. \<open>Providers\<close> (\<open>providers.go\<close>): the HTTP
    request of a turn. \<open>VertexToken\<close> (\<open>vertex_token.go\<close>): the cached access token. \<open>Router\<close>
    (\<open>client.go\<close>, \<open>poll_trigger.go\<close>, \<open>logging.go\<close>): the stream of a turn, its errors and the re-polls.
  \<^item> \<open>Startup\<close> (\<open>call_startup.go\<close>, \<open>types.go\<close>, \<open>tool_context_chunks.go\<close>): the initial messages of a call.
    \<open>Callbacks\<close> (\<open>call_event_callbacks.go\<close>, \<open>api_client.go\<close>): what each event of a call stores and posts.
  \<^item> \<open>Worker\<close> (\<open>worker_api.go\<close>, \<open>gke_pod.go\<close>, the task registry of \<open>main.go\<close>): the HTTP handlers and the
    life of a bot, as the step relation \<open>server_step\<close>. \<open>Lifecycle\<close> (\<open>worker_lifecycle.go\<close>,
    \<open>signal_handler.go\<close>, \<open>abrupt_shutdown.go\<close>, \<open>main.go\<close>): registration, shutdown and the environment.
  \<^item> \<open>Documents\<close> (\<open>document_store.go\<close>, \<open>jinja_renderer.go\<close>): prompts from Redis and the renderer behind its pipe.
    \<open>Prompts\<close> (the choices of \<open>sales_call.go\<close> and \<open>followup_call.go\<close>, \<open>phonetic_dict.go\<close>). \<open>Bots\<close> (\<open>bot.go\<close>,
    \<open>sales_call.go\<close>, \<open>followup_call.go\<close>): the plan of a call and \<open>BuildTask\<close>, which joins the room and puts
    the models of the processors together.
  \<^item> \<open>Shutdown\<close> (the \<open>Start\<close> methods, \<open>Go\<close> and \<open>goTracked\<close>, \<open>Pipeline.Stop\<close>, the wait in \<open>runCleanup\<close>): the
    goroutines of a task and how they end.
  \<^item> \<open>S3\<close> (\<open>llmrouter/s3.go\<close>, \<open>s3_uploader.go\<close>) and \<open>LlmLog\<close> (\<open>llm_logging.go\<close>).
  \<^item> \<open>Server\<close> (\<open>main.go\<close>, \<open>worker_api.go\<close>, \<open>gke_pod.go\<close>, \<open>pyroscope.go\<close>, \<open>internal\<close>): the process, its routes, and a
    bot of the worker with the task that \<open>Bots\<close> builds for it.

  \<^bold>\<open>How the code is modelled.\<close> A processor's struct is a record with one field for each field that
  the code reads; a handler is a function from the record, a frame and a direction to the new record
  and the list of its effects in the order the code performs them. What a processor reads from its
  surroundings (the clock, a random number, the answer of a service, the outcome of a network call)
  is an argument. A goroutine is a step function over explicit inputs, a \<open>select\<close> that may take
  several cases returns the list of its outcomes or has one operation for each, and a theorem over
  all sequences of operations is a theorem over all interleavings. A sync.Once and a compare-and-swap
  are flags that are tested and set in one step; \<open>PipelineTask.End\<close> and the cleanup are cut into the
  steps between which another goroutine can run. Channels are lists with their capacity. Go maps are
  association lists. Log lines and Sentry reports are left out, and so are panics, except where the
  code recovers from one and goes on.

  \<^bold>\<open>What the theorems show.\<close> For the base processor: the channels are bounded and in order, an
  interrupt loses only what may be lost, the end frame is the last one handled. For the aggregator:
  exactly when an interrupt is sent, what the history keeps and what it records. For the speech and
  playback stages: audio and words pass whole and in order, an interrupt silences them, and the end
  of a call waits for speech but is never lost. For the LLM stage: every tool call is answered once.
  For the task: a call ends once, for its first reason, with everything that follows in order, and the
  loops of stopped processors exit within a bounded number of steps, so that the cleanup's wait can end.
  For the router: the fastest healthy endpoint is chosen, a failing one is blacklisted and avoided, the
  text of a turn is what the endpoint sent, and polls are rate limited across pods. For the store: what a
  call persisted is what a resumed call starts from, with every tool result after its request. For the
  worker: one call at a time, a refinement of a three-event contract, and a worker that is given back
  whatever fails; a pod is shut down and registered once. For the start of a call: a join, of either room,
  leaves nothing open but the room it returns; a build that fails leaves nothing behind and the worker
  free, and one that succeeds runs the conversation it was asked for, from its stored turns on; the two
  transports do the same to a call. For the services around it: a prompt is never stale and never another
  request's, what is signed for S3 is what is sent, and a log fits the queue.

  \<^bold>\<open>Interfaces.\<close> \<open>one_shot\<close> (an operation that acts once) is interpreted on the talk-time monitor,
  the call statistics, the event dispatcher, the UI session and the end reason; \<open>interrupt_purge\<close> on
  \<open>procCh\<close> and the playback queue; \<open>end_forwarder\<close> on the audio source, user idle, context aggregator,
  talk time and LLM processors, whose composition \<open>Pipeline.chain_feed\<close> uses its lemmas;
  \<open>redis_store\<close> (what a successful read returns after a successful write) on the model of the Redis
  client, for the health of endpoints, the poll lock and the lifecycle; \<open>llm_client\<close> (how a stream reports its
  deltas and its error) on the router, for the LLM processor; \<open>room_transport\<close> (a closed room is silent, the
  first user is greeted once) on both rooms, and through it \<open>one_shot\<close> on their greetings;
  \<open>template_renderer\<close> (every result is the one meant by its request) on the Python renderer; \<open>one_shot\<close> on the
  load of the dictionary of pronunciations.

  \<^bold>\<open>Bounds.\<close> No definition uses fuel: every recursion is structural or has a measure. A command reaches
  Redis at most twelve times, three attempts of four sends, which is what the options of the client and
  \<open>withRedisTimeoutRetry\<close> allow; a bot makes at most eight steps, one for each phase;
  a stopped processor makes at most 37, two for each of its 16 system frames and five for its loops; the
  buffer for the stacks doubles at most seven times. Theorems that
  count time assume instants below \<open>2 ^ 62\<close> nanoseconds after Go's zero time where an overflow of a
  duration would matter.

  \<^bold>\<open>Not modelled.\<close> The Python scripts, the web pages and the deployment files; the measurements of timing that
  performance diagnostics take inside the transports and processors; log lines, Sentry calls; the
  time a handler takes, and with it the bound of three seconds on one that does not return; TLS, RSA, SHA-256 and HMAC, JSON and base64 decoding, the Opus codec, the LiveKit
  SDK, the Python bridge and renderer processes, HTTP and websocket exchanges, the file system and the
  environment, which are arguments.
\<close>

end
